(* ===== verification/Prelude.thy ===== *)
theory Prelude
  imports Main "HOL-Library.Word" "HOL-Library.List_Lexorder" "HOL-Library.Char_ord"
    "HOL-Library.Product_Lexorder" "HOL-Library.Sublist"
begin

text \<open>
  Shared vocabulary of the development: the scalar types of the program, results that may be an
  error (\<open>'e + 'a\<close>, \<open>Inl\<close> for what the code throws), actions that pass a state, rows that are
  looked up by a key, and the generic lemmas on them.  The collections \<open>step_simps\<close> (facts that
  symbolically execute an action), \<open>inv_intros\<close> (an operation preserves an invariant) and
  \<open>frame_simps\<close> (an operation leaves something alone) are filled by the component theories.
\<close>

named_theorems step_simps "equations that execute one operation"
named_theorems inv_intros "an operation preserves the invariant of its component"
named_theorems frame_simps "an operation leaves a part of the state unchanged"

section \<open>Scalar types\<close>

text \<open>
  \<open>UUID::uuid\<close> is a 128-bit value, ordered as PostgreSQL orders uuids (bytewise, which is the
  order of the 128-bit number).  \<open>uint64\<close> is \<open>std::size_t\<close> and \<open>uintmax_t\<close>, which are 64 bits
  wide on the platforms the project builds for.  A PostgreSQL \<open>bigint\<close> and a C++ \<open>std::int64_t\<close> are
  an \<^typ>\<open>int\<close> together with the range check \<open>is_int64\<close>, because SQL sums are computed without a
  bound and checked afterwards.  A \<open>time_point\<close> is a signed
  64-bit count of milliseconds.
\<close>

type_synonym uuid = "128 word"
type_synonym uint64 = "64 word"
type_synonym byte = "8 word"
type_synonym int64 = int
type_synonym time_point = "64 word"

definition is_int64 :: "int \<Rightarrow> bool" where
  "is_int64 i \<longleftrightarrow> - (2 ^ 63) \<le> i \<and> i < 2 ^ 63"

lemma is_int64_sint [simp, intro]: "is_int64 (sint (w :: uint64))"
  using sint_lt [of w] sint_ge [of w] by (simp add: is_int64_def)

lemma word_of_int_sint64 [simp]: "word_of_int (sint (w :: uint64)) = w"
  by simp

lemma sint_word_of_int64: "is_int64 i \<Longrightarrow> sint (word_of_int i :: uint64) = i"
  by (simp add: is_int64_def signed_take_bit_int_eq_self sint_sbintrunc')

lemma sint_eq_iff64: "sint (v :: uint64) = sint w \<longleftrightarrow> v = w"
  by (metis word_of_int_sint64)

lemma is_int64_zero [simp, intro]: "is_int64 0"
  by (simp add: is_int64_def)

section \<open>Results that may be an error\<close>

definition bind_sum :: "'e + 'a \<Rightarrow> ('a \<Rightarrow> 'e + 'b) \<Rightarrow> 'e + 'b" where
  "bind_sum r f = (case r of Inl e \<Rightarrow> Inl e | Inr x \<Rightarrow> f x)"

lemma bind_sum_simps [simp]:
  "bind_sum (Inl e) f = Inl e" "bind_sum (Inr x) f = f x"
  by (simp_all add: bind_sum_def)

lemma bind_sum_Inr_iff: "bind_sum r f = Inr y \<longleftrightarrow> (\<exists>x. r = Inr x \<and> f x = Inr y)"
  by (cases r) simp_all

lemma bind_sum_Inl_iff:
  "bind_sum r f = Inl e \<longleftrightarrow> r = Inl e \<or> (\<exists>x. r = Inr x \<and> f x = Inl e)"
  by (cases r) simp_all

text \<open>The first error of a list of results, or all the values.\<close>

fun traverse :: "('a \<Rightarrow> 'e + 'b) \<Rightarrow> 'a list \<Rightarrow> 'e + 'b list" where
  "traverse f [] = Inr []"
| "traverse f (x # xs) =
     bind_sum (f x) (\<lambda>y. bind_sum (traverse f xs) (\<lambda>ys. Inr (y # ys)))"

lemma traverse_Inr:
  "(\<And>x. x \<in> set xs \<Longrightarrow> f x = Inr (g x)) \<Longrightarrow> traverse f xs = Inr (map g xs)"
  by (induction xs) auto

lemma traverse_InrD:
  "traverse f xs = Inr ys \<Longrightarrow> list_all2 (\<lambda>x y. f x = Inr y) xs ys"
  by (induction xs arbitrary: ys) (auto simp: bind_sum_Inr_iff)

lemma traverse_Inl_ex: "traverse f xs = Inl e \<Longrightarrow> \<exists>x\<in>set xs. f x = Inl e"
  by (induction xs) (auto simp: bind_sum_Inl_iff)

section \<open>Actions on a state\<close>

text \<open>
  An operation of the program takes the state and returns a result and the state it leaves: an
  exception does not undo the effects before it, so the state is returned in both cases.
\<close>

type_synonym ('e, 'a, 's) outcome = "('e + 'a) \<times> 's"

definition and_then ::
  "('e, 'a, 's) outcome \<Rightarrow> ('a \<Rightarrow> 's \<Rightarrow> ('e, 'b, 's) outcome) \<Rightarrow> ('e, 'b, 's) outcome" where
  "and_then r k = (case r of (Inl e, s) \<Rightarrow> (Inl e, s) | (Inr x, s) \<Rightarrow> k x s)"

lemma and_then_simps [simp]:
  "and_then (Inl e, s) k = (Inl e, s)"
  "and_then (Inr x, s) k = k x s"
  by (simp_all add: and_then_def)

lemma and_then_Inr_iff:
  "and_then r k = (Inr y, s') \<longleftrightarrow> (\<exists>x s. r = (Inr x, s) \<and> k x s = (Inr y, s'))"
  by (cases r; cases "fst r") auto

lemma and_then_Inl_iff:
  "and_then r k = (Inl e, s') \<longleftrightarrow>
     r = (Inl e, s') \<or> (\<exists>x s. r = (Inr x, s) \<and> k x s = (Inl e, s'))"
  by (cases r; cases "fst r") auto

lemma and_then_assoc: "and_then (and_then r f) g = and_then r (\<lambda>x s. and_then (f x s) g)"
  by (cases r; cases "fst r") auto

lemma and_then_pure: "and_then r (\<lambda>x s. (Inr x, s)) = r"
  by (cases r; cases "fst r") auto

text \<open>An invariant of the state passes through a sequence of actions.\<close>

lemma and_then_inv:
  assumes "P (snd r)" and "\<And>x s. r = (Inr x, s) \<Longrightarrow> P s \<Longrightarrow> P (snd (k x s))"
  shows "P (snd (and_then r k))"
  using assms by (cases r; cases "fst r") auto

section \<open>Rows with a key\<close>

text \<open>A table is the list of its rows; a unique key reads it as a map.\<close>

definition row_map :: "('r \<Rightarrow> 'k) \<Rightarrow> 'r list \<Rightarrow> 'k \<rightharpoonup> 'r" where
  "row_map key rows = map_of (map (\<lambda>r. (key r, r)) rows)"

lemma row_map_Nil [simp]: "row_map key [] = Map.empty"
  by (simp add: row_map_def)

lemma row_map_Cons [simp]: "row_map key (r # rows) = (row_map key rows)(key r \<mapsto> r)"
  by (simp add: row_map_def)

lemma row_map_SomeD: "row_map key rows k = Some r \<Longrightarrow> r \<in> set rows \<and> key r = k"
  by (induction rows) (auto split: if_splits)

lemma row_map_None_iff: "row_map key rows k = None \<longleftrightarrow> k \<notin> key ` set rows"
  by (induction rows) auto

lemma row_map_Some_iff:
  "distinct (map key rows) \<Longrightarrow> row_map key rows k = Some r \<longleftrightarrow> r \<in> set rows \<and> key r = k"
  by (induction rows) (auto simp: rev_image_eqI)

lemma row_map_append_new:
  "key r \<notin> key ` set rows \<Longrightarrow> row_map key (rows @ [r]) = (row_map key rows)(key r \<mapsto> r)"
  by (induction rows) (auto simp: fun_upd_twist)

lemma row_map_filter_key:
  "row_map key (filter (\<lambda>r. P (key r)) rows) = row_map key rows |` {k. P k}"
  by (induction rows) (auto simp: restrict_map_def fun_eq_iff)

lemma filter_key_eq:
  "distinct (map key rows) \<Longrightarrow>
     filter (\<lambda>r. key r = k) rows = (case row_map key rows k of None \<Rightarrow> [] | Some r \<Rightarrow> [r])"
proof (induction rows)
  case (Cons r rows)
  then show ?case
    by (auto simp: row_map_None_iff filter_empty_conv split: option.splits)
       (metis option.distinct(1) row_map_None_iff imageI)+
qed simp

lemma distinct_map_filterI [simp, intro]:
  "distinct (map f xs) \<Longrightarrow> distinct (map f (filter P xs))"
  by (rule distinct_map_filter)

lemma distinct_map_snocI:
  "distinct (map f xs) \<Longrightarrow> f x \<notin> f ` set xs \<Longrightarrow> distinct (map f (xs @ [x]))"
  by auto

lemma sum_list_filter_split:
  "sum_list (map f (filter P xs)) + sum_list (map f (filter (\<lambda>x. \<not> P x) xs)) =
     (sum_list (map f xs) :: int)"
  by (induction xs) auto

lemma length_filter_split:
  "length (filter P xs) + length (filter (\<lambda>x. \<not> P x) xs) = length xs"
  by (induction xs) auto

lemma filter_singletonI:
  "distinct (map f xs) \<Longrightarrow> x \<in> set xs \<Longrightarrow> filter (\<lambda>y. f y = f x) xs = [x]"
proof (induction xs)
  case (Cons a xs)
  show ?case
  proof (cases "x = a")
    case True
    with Cons.prems have "filter (\<lambda>y. f y = f x) xs = []"
      by (auto simp: filter_empty_conv rev_image_eqI)
    with True show ?thesis by simp
  next
    case False
    with Cons show ?thesis by auto
  qed
qed simp

section \<open>Decimal numbers\<close>

text \<open>\<open>std::to_string\<close> of an unsigned number.\<close>

fun show_nat :: "nat \<Rightarrow> string" where
  "show_nat n = (if n < 10 then [char_of (48 + n)] else show_nat (n div 10) @ [char_of (48 + n mod 10)])"

declare show_nat.simps [simp del]

section \<open>Orders by a key\<close>

text \<open>A type ordered by an injective key into a linear order is linearly ordered.\<close>

lemma order_by_key:
  fixes key :: "'a \<Rightarrow> 'k :: linorder"
  assumes le: "\<And>x y. le x y \<longleftrightarrow> key x \<le> key y" and lt: "\<And>x y. lt x y \<longleftrightarrow> key x < key y"
    and inj: "\<And>x y. key x = key y \<Longrightarrow> x = y"
  shows "lt x y \<longleftrightarrow> le x y \<and> \<not> le y x" and "le x x"
    and "le x y \<Longrightarrow> le y z \<Longrightarrow> le x z" and "le x y \<Longrightarrow> le y x \<Longrightarrow> x = y" and "le x y \<or> le y x"
  by (auto simp: le lt intro: inj)

end
