(* ===== verification/Model_Types.thy ===== *)
theory Model_Types
  imports Prelude
begin

text \<open>
  The data the program exchanges: the public structs of \<open>include/fstore/model\<close>, the structs the
  database layer reads rows into (\<open>include/internal/core/db/model\<close>) with their conversions, the
  exceptions of \<open>fstore/except\<close>, and the record of the third-party functions the program calls.
  Every struct has \<open>operator<=>\<close> defaulted, which compares the members in declaration order: the
  public structs are instances of \<open>linorder\<close> for that order.
\<close>

section \<open>Public structs\<close>

record bucket =
  b_id :: uuid
  b_name :: string
  b_date_created :: time_point
  b_size :: uint64
  b_space_used :: uint64

record object =
  o_id :: uuid
  o_hash :: string
  o_size :: uint64
  o_type :: string
  o_subtype :: string
  o_date_added :: time_point

record object_error =
  oe_id :: uuid
  oe_message :: string

record remove_result =
  rr_objects_removed :: uint64
  rr_space_freed :: uint64

record store_totals =
  st_buckets :: uint64
  st_objects :: uint64
  st_space_used :: uint64

record server_info =
  si_version :: string

text \<open>\<open>object::mime_type\<close>: the two halves around a slash.\<close>

definition mime_type :: "object \<Rightarrow> string" where
  "mime_type x = o_type x @ ''/'' @ o_subtype x"

section \<open>Memberwise comparison\<close>

text \<open>Points in time are ordered as signed counts.\<close>

definition bucket_key :: "'a bucket_scheme \<Rightarrow> uuid \<times> string \<times> int64 \<times> uint64 \<times> uint64 \<times> 'a" where
  "bucket_key x = (b_id x, b_name x, sint (b_date_created x), b_size x, b_space_used x, bucket.more x)"

instantiation bucket_ext :: (linorder) linorder
begin

definition less_eq_bucket_ext :: "'a bucket_scheme \<Rightarrow> 'a bucket_scheme \<Rightarrow> bool" where
  "x \<le> y \<longleftrightarrow> bucket_key x \<le> bucket_key y"

definition less_bucket_ext :: "'a bucket_scheme \<Rightarrow> 'a bucket_scheme \<Rightarrow> bool" where
  "x < y \<longleftrightarrow> bucket_key x < bucket_key y"

lemma bucket_key_inj: "bucket_key x = bucket_key y \<Longrightarrow> x = y"
  by (cases x, cases y) (simp add: bucket_key_def sint_eq_iff64)

instance
  by (intro_classes; rule order_by_key [OF less_eq_bucket_ext_def less_bucket_ext_def bucket_key_inj];
      assumption)

end

definition object_key ::
  "'a object_scheme \<Rightarrow> uuid \<times> string \<times> uint64 \<times> string \<times> string \<times> int64 \<times> 'a" where
  "object_key x =
     (o_id x, o_hash x, o_size x, o_type x, o_subtype x, sint (o_date_added x), object.more x)"

instantiation object_ext :: (linorder) linorder
begin

definition less_eq_object_ext :: "'a object_scheme \<Rightarrow> 'a object_scheme \<Rightarrow> bool" where
  "x \<le> y \<longleftrightarrow> object_key x \<le> object_key y"

definition less_object_ext :: "'a object_scheme \<Rightarrow> 'a object_scheme \<Rightarrow> bool" where
  "x < y \<longleftrightarrow> object_key x < object_key y"

lemma object_key_inj: "object_key x = object_key y \<Longrightarrow> x = y"
  by (cases x, cases y) (simp add: object_key_def sint_eq_iff64)

instance
  by (intro_classes; rule order_by_key [OF less_eq_object_ext_def less_object_ext_def object_key_inj];
      assumption)

end

definition object_error_key :: "'a object_error_scheme \<Rightarrow> uuid \<times> string \<times> 'a" where
  "object_error_key x = (oe_id x, oe_message x, object_error.more x)"

instantiation object_error_ext :: (linorder) linorder
begin

definition less_eq_object_error_ext :: "'a object_error_scheme \<Rightarrow> 'a object_error_scheme \<Rightarrow> bool" where
  "x \<le> y \<longleftrightarrow> object_error_key x \<le> object_error_key y"

definition less_object_error_ext :: "'a object_error_scheme \<Rightarrow> 'a object_error_scheme \<Rightarrow> bool" where
  "x < y \<longleftrightarrow> object_error_key x < object_error_key y"

lemma object_error_key_inj: "object_error_key x = object_error_key y \<Longrightarrow> x = y"
  by (cases x, cases y) (simp add: object_error_key_def)

instance
  by (intro_classes; rule order_by_key [OF less_eq_object_error_ext_def less_object_error_ext_def object_error_key_inj];
      assumption)

end

definition remove_result_key :: "'a remove_result_scheme \<Rightarrow> uint64 \<times> uint64 \<times> 'a" where
  "remove_result_key x = (rr_objects_removed x, rr_space_freed x, remove_result.more x)"

instantiation remove_result_ext :: (linorder) linorder
begin

definition less_eq_remove_result_ext :: "'a remove_result_scheme \<Rightarrow> 'a remove_result_scheme \<Rightarrow> bool" where
  "x \<le> y \<longleftrightarrow> remove_result_key x \<le> remove_result_key y"

definition less_remove_result_ext :: "'a remove_result_scheme \<Rightarrow> 'a remove_result_scheme \<Rightarrow> bool" where
  "x < y \<longleftrightarrow> remove_result_key x < remove_result_key y"

lemma remove_result_key_inj: "remove_result_key x = remove_result_key y \<Longrightarrow> x = y"
  by (cases x, cases y) (simp add: remove_result_key_def)

instance
  by (intro_classes; rule order_by_key [OF less_eq_remove_result_ext_def less_remove_result_ext_def remove_result_key_inj];
      assumption)

end

definition store_totals_key :: "'a store_totals_scheme \<Rightarrow> uint64 \<times> uint64 \<times> uint64 \<times> 'a" where
  "store_totals_key x = (st_buckets x, st_objects x, st_space_used x, store_totals.more x)"

instantiation store_totals_ext :: (linorder) linorder
begin

definition less_eq_store_totals_ext :: "'a store_totals_scheme \<Rightarrow> 'a store_totals_scheme \<Rightarrow> bool" where
  "x \<le> y \<longleftrightarrow> store_totals_key x \<le> store_totals_key y"

definition less_store_totals_ext :: "'a store_totals_scheme \<Rightarrow> 'a store_totals_scheme \<Rightarrow> bool" where
  "x < y \<longleftrightarrow> store_totals_key x < store_totals_key y"

lemma store_totals_key_inj: "store_totals_key x = store_totals_key y \<Longrightarrow> x = y"
  by (cases x, cases y) (simp add: store_totals_key_def)

instance
  by (intro_classes; rule order_by_key [OF less_eq_store_totals_ext_def less_store_totals_ext_def store_totals_key_inj];
      assumption)

end

section \<open>Structs of the database layer\<close>

text \<open>Their counts and sizes are \<open>std::int64_t\<close>; the conversions are \<open>static_cast\<close>s to unsigned.\<close>

record db_bucket =
  db_b_id :: uuid
  db_b_name :: string
  db_b_date_created :: time_point
  db_b_size :: int64
  db_b_space_used :: int64

record db_object =
  db_o_id :: uuid
  db_o_hash :: string
  db_o_size :: int64
  db_o_type :: string
  db_o_subtype :: string
  db_o_date_added :: time_point

record db_remove_result =
  db_rr_objects_removed :: int64
  db_rr_space_freed :: int64

record db_store_totals =
  db_st_buckets :: int64
  db_st_objects :: int64
  db_st_space_used :: int64

definition to_bucket :: "db_bucket \<Rightarrow> bucket" where
  "to_bucket x = \<lparr>b_id = db_b_id x, b_name = db_b_name x, b_date_created = db_b_date_created x,
     b_size = word_of_int (db_b_size x), b_space_used = word_of_int (db_b_space_used x)\<rparr>"

definition to_object :: "db_object \<Rightarrow> object" where
  "to_object x = \<lparr>o_id = db_o_id x, o_hash = db_o_hash x, o_size = word_of_int (db_o_size x),
     o_type = db_o_type x, o_subtype = db_o_subtype x, o_date_added = db_o_date_added x\<rparr>"

definition to_remove_result :: "db_remove_result \<Rightarrow> remove_result" where
  "to_remove_result x = \<lparr>rr_objects_removed = word_of_int (db_rr_objects_removed x),
     rr_space_freed = word_of_int (db_rr_space_freed x)\<rparr>"

definition to_store_totals :: "db_store_totals \<Rightarrow> store_totals" where
  "to_store_totals x = \<lparr>st_buckets = word_of_int (db_st_buckets x),
     st_objects = word_of_int (db_st_objects x), st_space_used = word_of_int (db_st_space_used x)\<rparr>"

text \<open>A non-negative \<open>bigint\<close> keeps its value in the conversion.\<close>

lemma unat_word_of_int64: "0 \<le> i \<Longrightarrow> is_int64 i \<Longrightarrow> int (unat (word_of_int i :: uint64)) = i"
  by (simp add: is_int64_def unsigned_of_int take_bit_int_eq_self)

lemma to_object_simps [simp]:
  "o_id (to_object x) = db_o_id x" "o_hash (to_object x) = db_o_hash x"
  "o_size (to_object x) = word_of_int (db_o_size x)"
  "o_type (to_object x) = db_o_type x" "o_subtype (to_object x) = db_o_subtype x"
  "o_date_added (to_object x) = db_o_date_added x"
  by (simp_all add: to_object_def)

lemma to_bucket_simps [simp]:
  "b_id (to_bucket x) = db_b_id x" "b_name (to_bucket x) = db_b_name x"
  "b_date_created (to_bucket x) = db_b_date_created x"
  "b_size (to_bucket x) = word_of_int (db_b_size x)"
  "b_space_used (to_bucket x) = word_of_int (db_b_space_used x)"
  by (simp_all add: to_bucket_def)

section \<open>Exceptions\<close>

text \<open>
  \<open>Sql_error\<close> is \<open>pg::sql_error\<close> with the condition the server reports, \<open>Unexpected_data\<close> is
  \<open>pg::unexpected_data\<close>, \<open>File_error\<close> what the filesystem calls throw, \<open>Out_of_range\<close> is
  \<open>std::out_of_range\<close>, \<open>Runtime_error\<close> is \<open>std::runtime_error\<close>, \<open>Stream_error\<close> an exception of the
  connection a request is read from.
\<close>

datatype sqlstate =
    Unique_violation
  | Foreign_key_violation
  | Not_null_violation
  | Numeric_value_out_of_range
  | Cardinality_violation
  | Invalid_sql_statement_name

datatype errc = No_such_file | Not_a_directory | Is_a_directory

datatype error =
    Invalid_data string
  | Not_found string
  | Unique_bucket_violation string
  | Sql_error sqlstate
  | Unexpected_data
  | File_error errc
  | Out_of_range
  | Runtime_error string
  | Stream_error

text \<open>\<open>not_found::http_code\<close>; the other exceptions are no \<open>http::server::error\<close>.\<close>

fun http_code :: "error \<Rightarrow> nat option" where
  "http_code (Not_found _) = Some 404"
| "http_code _ = None"

text \<open>\<open>error_list\<close>: the exceptions that have a code of the zipline protocol, in order.\<close>

fun error_code :: "error \<Rightarrow> nat option" where
  "error_code (Invalid_data _) = Some 0"
| "error_code (Not_found _) = Some 1"
| "error_code (Unique_bucket_violation _) = Some 2"
| "error_code _ = None"

section \<open>Third-party functions\<close>

text \<open>
  The functions of libraries outside the repository that the program's results depend on:
  the text of a uuid (uuid++), \<open>ext::trim\<close>, the upper-case hexadecimal SHA-256 digest of
  CryptoPP's pipeline, the MIME type libmagic reports for a content, the row \<open>fetch_prepared\<close>
  of pg++ picks from a result of the given number of rows (\<open>None\<close> is \<open>unexpected_data\<close>), and the
  \<open>what()\<close> text of a third-party exception.
\<close>

record libs =
  uuid_text :: "uuid \<Rightarrow> string"
  ext_trim :: "string \<Rightarrow> string"
  hex_sha256 :: "byte list \<Rightarrow> string"
  magic_file :: "byte list \<Rightarrow> string"
  fetch_row :: "nat \<Rightarrow> nat option"
  foreign_what :: "error \<Rightarrow> string"

text \<open>The texts \<open>except.cpp\<close> gives its exceptions.\<close>

fun what :: "libs \<Rightarrow> error \<Rightarrow> string" where
  "what L (Invalid_data m) = m"
| "what L (Not_found m) = m"
| "what L (Unique_bucket_violation n) = ''Bucket with name '' @ [CHR 0x27] @ n @ [CHR 0x27] @ '' already exists''"
| "what L (Runtime_error m) = m"
| "what L e = foreign_what L e"

text \<open>Documented behaviour of these functions, where a property needs it.\<close>

definition uuid_law :: "libs \<Rightarrow> bool" where
  "uuid_law L \<longleftrightarrow> inj (uuid_text L) \<and> (\<forall>u. length (uuid_text L u) = 36)"

definition fetch_law :: "libs \<Rightarrow> bool" where
  "fetch_law L \<longleftrightarrow> fetch_row L 0 = None \<and> fetch_row L 1 = Some 0"

definition is_space :: "char \<Rightarrow> bool" where
  "is_space c \<longleftrightarrow> c \<in> {CHR '' '', CHR 0x09, CHR 0x0A, CHR 0x0B, CHR 0x0C, CHR 0x0D}"

definition strip :: "string \<Rightarrow> string" where
  "strip s = rev (dropWhile is_space (rev (dropWhile is_space s)))"

definition trim_law :: "libs \<Rightarrow> bool" where
  "trim_law L \<longleftrightarrow> (\<forall>s. ext_trim L s = strip s)"

lemma strip_Nil_iff: "strip s = [] \<longleftrightarrow> (\<forall>c \<in> set s. is_space c)"
  by (auto simp: strip_def dropWhile_eq_Nil_conv dest: set_dropWhileD)
     (metis dropWhile_eq_Nil_conv set_dropWhileD dropWhile.simps(1) rev.simps(1) hd_dropWhile
       hd_in_set)

end
