(* ===== verification/Data_Schema.thy ===== *)
theory Data_Schema
  imports Model_Types
begin

text \<open>
  The four tables of \<open>share/fstore/db/data.sql\<close> with their constraints.  A table is the list of
  its rows; the statements the stored functions use (\<open>INSERT\<close>, \<open>INSERT ... ON CONFLICT\<close>, \<open>UPDATE\<close>,
  \<open>DELETE\<close> with its cascades) check the constraints PostgreSQL checks and report the condition it
  reports.  \<open>db_inv\<close> collects the constraints; the statements preserve it.
\<close>

section \<open>Tables\<close>

record bucket_row =
  bk_id :: uuid
  bk_name :: string
  bk_created :: time_point

record object_row =
  ob_id :: uuid
  ob_hash :: string
  ob_size :: int64
  ob_type :: string
  ob_subtype :: string
  ob_added :: time_point

record link_row =
  ln_bucket :: uuid
  ln_object :: uuid
  ln_added :: time_point

record error_row =
  er_object :: uuid
  er_message :: string

record database =
  tb_bucket :: "bucket_row list"
  tb_object :: "object_row list"
  tb_bucket_object :: "link_row list"
  tb_object_error :: "error_row list"

definition empty_database :: database where
  "empty_database = \<lparr>tb_bucket = [], tb_object = [], tb_bucket_object = [], tb_object_error = []\<rparr>"

abbreviation link_key :: "link_row \<Rightarrow> uuid \<times> uuid" where
  "link_key l \<equiv> (ln_bucket l, ln_object l)"

section \<open>Constraints\<close>

definition keys_inv :: "database \<Rightarrow> bool" where
  "keys_inv db \<longleftrightarrow> distinct (map bk_id (tb_bucket db)) \<and> distinct (map bk_name (tb_bucket db)) \<and>
     distinct (map ob_id (tb_object db)) \<and> distinct (map ob_hash (tb_object db)) \<and>
     distinct (map link_key (tb_bucket_object db)) \<and> distinct (map er_object (tb_object_error db))"

definition refs_inv :: "database \<Rightarrow> bool" where
  "refs_inv db \<longleftrightarrow> ln_bucket ` set (tb_bucket_object db) \<subseteq> bk_id ` set (tb_bucket db) \<and>
     ln_object ` set (tb_bucket_object db) \<subseteq> ob_id ` set (tb_object db) \<and>
     er_object ` set (tb_object_error db) \<subseteq> ob_id ` set (tb_object db)"

definition sizes_inv :: "database \<Rightarrow> bool" where
  "sizes_inv db \<longleftrightarrow> (\<forall>r \<in> set (tb_object db). is_int64 (ob_size r))"

definition db_inv :: "database \<Rightarrow> bool" where
  "db_inv db \<longleftrightarrow> keys_inv db \<and> refs_inv db \<and> sizes_inv db"

lemmas db_inv_defs = db_inv_def keys_inv_def refs_inv_def sizes_inv_def

lemma db_inv_empty [simp, inv_intros]: "db_inv empty_database"
  by (simp add: db_inv_defs empty_database_def)

lemma db_invD:
  assumes "db_inv db"
  shows "distinct (map bk_id (tb_bucket db))" "distinct (map bk_name (tb_bucket db))"
    "distinct (map ob_id (tb_object db))" "distinct (map ob_hash (tb_object db))"
    "distinct (map link_key (tb_bucket_object db))" "distinct (map er_object (tb_object_error db))"
  using assms by (simp_all add: db_inv_def keys_inv_def)

lemma db_inv_link_bucket:
  "db_inv db \<Longrightarrow> l \<in> set (tb_bucket_object db) \<Longrightarrow> \<exists>b \<in> set (tb_bucket db). bk_id b = ln_bucket l"
  unfolding db_inv_def refs_inv_def by force

lemma db_inv_link_object:
  "db_inv db \<Longrightarrow> l \<in> set (tb_bucket_object db) \<Longrightarrow> \<exists>r \<in> set (tb_object db). ob_id r = ln_object l"
  unfolding db_inv_def refs_inv_def by force

lemma db_inv_error_object:
  "db_inv db \<Longrightarrow> e \<in> set (tb_object_error db) \<Longrightarrow> \<exists>r \<in> set (tb_object db). ob_id r = er_object e"
  unfolding db_inv_def refs_inv_def by force

lemma db_inv_size: "db_inv db \<Longrightarrow> r \<in> set (tb_object db) \<Longrightarrow> is_int64 (ob_size r)"
  by (simp add: db_inv_def sizes_inv_def)

section \<open>Inserting\<close>

text \<open>
  A new bucket takes its id from \<open>gen_random_uuid()\<close> and its date from \<open>NOW()\<close>; both are
  arguments.  A duplicate id or a duplicate name is a unique violation.
\<close>

definition insert_bucket :: "uuid \<Rightarrow> time_point \<Rightarrow> string \<Rightarrow> database \<Rightarrow> sqlstate + database" where
  "insert_bucket new_id now name db =
     (if new_id \<in> bk_id ` set (tb_bucket db) \<or> name \<in> bk_name ` set (tb_bucket db)
      then Inl Unique_violation
      else Inr (db\<lparr>tb_bucket := tb_bucket db @
        [\<lparr>bk_id = new_id, bk_name = name, bk_created = now\<rparr>]\<rparr>))"

text \<open>\<open>INSERT INTO data.object ... ON CONFLICT DO NOTHING\<close>: a clash of id or of hash is skipped.\<close>

definition insert_object :: "object_row \<Rightarrow> database \<Rightarrow> database" where
  "insert_object r db =
     (if ob_id r \<in> ob_id ` set (tb_object db) \<or> ob_hash r \<in> ob_hash ` set (tb_object db) then db
      else db\<lparr>tb_object := tb_object db @ [r]\<rparr>)"

text \<open>
  \<open>INSERT INTO data.bucket_object ... ON CONFLICT DO NOTHING\<close>.  The object may be \<open>NULL\<close>, which
  the primary key forbids; an existing pair is skipped; otherwise both references are checked.
\<close>

definition insert_link ::
  "uuid \<Rightarrow> uuid option \<Rightarrow> time_point \<Rightarrow> database \<Rightarrow> sqlstate + database" where
  "insert_link b obj now db =
     (case obj of
        None \<Rightarrow> Inl Not_null_violation
      | Some x \<Rightarrow>
          if (b, x) \<in> link_key ` set (tb_bucket_object db) then Inr db
          else if b \<notin> bk_id ` set (tb_bucket db) \<or> x \<notin> ob_id ` set (tb_object db)
          then Inl Foreign_key_violation
          else Inr (db\<lparr>tb_bucket_object := tb_bucket_object db @
            [\<lparr>ln_bucket = b, ln_object = x, ln_added = now\<rparr>]\<rparr>))"

lemma insert_bucket_inv [inv_intros]:
  "db_inv db \<Longrightarrow> insert_bucket i now n db = Inr db' \<Longrightarrow> db_inv db'"
  unfolding db_inv_defs insert_bucket_def
  by (simp add: subset_insertI2 split: if_splits) force

lemma insert_object_inv [inv_intros]:
  "db_inv db \<Longrightarrow> is_int64 (ob_size r) \<Longrightarrow> db_inv (insert_object r db)"
  unfolding db_inv_defs insert_object_def
  by (simp add: subset_insertI2)

lemma insert_link_inv [inv_intros]:
  "db_inv db \<Longrightarrow> insert_link b x now db = Inr db' \<Longrightarrow> db_inv db'"
  unfolding db_inv_defs insert_link_def
  by (simp split: if_splits option.splits) force+

lemma insert_object_frame [frame_simps, simp]:
  "tb_bucket (insert_object r db) = tb_bucket db"
  "tb_bucket_object (insert_object r db) = tb_bucket_object db"
  "tb_object_error (insert_object r db) = tb_object_error db"
  by (simp_all add: insert_object_def)

lemma insert_link_frame [frame_simps]:
  assumes "insert_link b x now db = Inr db'"
  shows "tb_bucket db' = tb_bucket db" "tb_object db' = tb_object db"
    "tb_object_error db' = tb_object_error db"
  using assms by (auto simp: insert_link_def split: if_splits option.splits)

section \<open>Deleting, with the cascades\<close>

text \<open>
  \<open>bucket_object\<close> references both tables with \<open>ON DELETE CASCADE\<close>, \<open>object_error\<close> references
  \<open>object\<close> with \<open>ON DELETE CASCADE\<close>.
\<close>

definition delete_buckets :: "(bucket_row \<Rightarrow> bool) \<Rightarrow> database \<Rightarrow> database" where
  "delete_buckets P db =
     (let gone = bk_id ` {b \<in> set (tb_bucket db). P b}
      in db\<lparr>tb_bucket := filter (\<lambda>b. \<not> P b) (tb_bucket db),
            tb_bucket_object := filter (\<lambda>l. ln_bucket l \<notin> gone) (tb_bucket_object db)\<rparr>)"

definition delete_objects :: "(object_row \<Rightarrow> bool) \<Rightarrow> database \<Rightarrow> database" where
  "delete_objects P db =
     (let gone = ob_id ` {r \<in> set (tb_object db). P r}
      in db\<lparr>tb_object := filter (\<lambda>r. \<not> P r) (tb_object db),
            tb_bucket_object := filter (\<lambda>l. ln_object l \<notin> gone) (tb_bucket_object db),
            tb_object_error := filter (\<lambda>e. er_object e \<notin> gone) (tb_object_error db)\<rparr>)"

definition delete_links :: "(link_row \<Rightarrow> bool) \<Rightarrow> database \<Rightarrow> database" where
  "delete_links P db = db\<lparr>tb_bucket_object := filter (\<lambda>l. \<not> P l) (tb_bucket_object db)\<rparr>"

definition delete_errors :: "(error_row \<Rightarrow> bool) \<Rightarrow> database \<Rightarrow> database" where
  "delete_errors P db = db\<lparr>tb_object_error := filter (\<lambda>e. \<not> P e) (tb_object_error db)\<rparr>"

lemma filter_cascade:
  assumes "f ` set links \<subseteq> key ` set rows"
  shows "f ` set (filter (\<lambda>l. f l \<notin> key ` {r \<in> set rows. P r}) links) \<subseteq>
    key ` set (filter (\<lambda>r. \<not> P r) rows)"
  using assms by (simp only: image_subset_iff set_filter mem_Collect_eq) blast

lemma filter_image_subset: "f ` set links \<subseteq> A \<Longrightarrow> f ` set (filter P links) \<subseteq> A"
  by auto

lemma delete_buckets_inv [inv_intros]: "db_inv db \<Longrightarrow> db_inv (delete_buckets P db)"
  unfolding db_inv_defs delete_buckets_def Let_def
  by (simp add: filter_cascade filter_image_subset del: set_filter)

lemma delete_objects_inv [inv_intros]: "db_inv db \<Longrightarrow> db_inv (delete_objects P db)"
  unfolding db_inv_defs delete_objects_def Let_def
  by (simp add: filter_cascade filter_image_subset del: set_filter)
     (simp add: set_filter)

lemma delete_links_inv [inv_intros]: "db_inv db \<Longrightarrow> db_inv (delete_links P db)"
  unfolding db_inv_defs delete_links_def
  by (simp add: filter_image_subset del: set_filter)

lemma delete_errors_inv [inv_intros]: "db_inv db \<Longrightarrow> db_inv (delete_errors P db)"
  unfolding db_inv_defs delete_errors_def
  by (simp add: filter_image_subset del: set_filter)

lemma delete_frame [frame_simps, simp]:
  "tb_object (delete_buckets P db) = tb_object db"
  "tb_object_error (delete_buckets P db) = tb_object_error db"
  "tb_bucket (delete_objects Q db) = tb_bucket db"
  "tb_bucket (delete_links R db) = tb_bucket db"
  "tb_object (delete_links R db) = tb_object db"
  "tb_object_error (delete_links R db) = tb_object_error db"
  "tb_bucket (delete_errors S db) = tb_bucket db"
  "tb_object (delete_errors S db) = tb_object db"
  "tb_bucket_object (delete_errors S db) = tb_bucket_object db"
  by (simp_all add: delete_buckets_def delete_objects_def delete_links_def delete_errors_def Let_def)

section \<open>Updating\<close>

definition rename_row :: "uuid \<Rightarrow> string \<Rightarrow> bucket_row \<Rightarrow> bucket_row" where
  "rename_row i name b = (if bk_id b = i then b\<lparr>bk_name := name\<rparr> else b)"

definition update_bucket_name :: "uuid \<Rightarrow> string \<Rightarrow> database \<Rightarrow> sqlstate + database" where
  "update_bucket_name i name db =
     (if i \<in> bk_id ` set (tb_bucket db) \<and>
         (\<exists>c \<in> set (tb_bucket db). bk_id c \<noteq> i \<and> bk_name c = name)
      then Inl Unique_violation
      else Inr (db\<lparr>tb_bucket := map (rename_row i name) (tb_bucket db)\<rparr>))"

text \<open>
  \<open>INSERT INTO data.object_error ... ON CONFLICT (object_id) DO UPDATE SET message = ...\<close>: all
  rows of one statement, in which one target row may be affected once only.
\<close>

definition set_message :: "error_row \<Rightarrow> error_row \<Rightarrow> error_row" where
  "set_message e r = (if er_object r = er_object e then r\<lparr>er_message := er_message e\<rparr> else r)"

definition upsert_error :: "error_row list \<Rightarrow> error_row \<Rightarrow> error_row list" where
  "upsert_error rows e =
     (if er_object e \<in> er_object ` set rows then map (set_message e) rows else rows @ [e])"

definition upsert_errors :: "error_row list \<Rightarrow> database \<Rightarrow> sqlstate + database" where
  "upsert_errors entries db =
     (if \<not> distinct (map er_object entries) then Inl Cardinality_violation
      else if \<not> er_object ` set entries \<subseteq> ob_id ` set (tb_object db)
      then Inl Foreign_key_violation
      else Inr (db\<lparr>tb_object_error := foldl upsert_error (tb_object_error db) entries\<rparr>))"

lemma rename_row_simps [simp]:
  "bk_id (rename_row i n b) = bk_id b" "bk_created (rename_row i n b) = bk_created b"
  "bk_name (rename_row i n b) = (if bk_id b = i then n else bk_name b)"
  by (simp_all add: rename_row_def)

lemma set_message_simps [simp]:
  "er_object (set_message e r) = er_object r"
  "er_message (set_message e r) = (if er_object r = er_object e then er_message e else er_message r)"
  by (simp_all add: set_message_def)

lemma map_set_message_object [simp]: "er_object \<circ> set_message e = er_object"
  by (simp add: fun_eq_iff)

lemma map_rename_row_id [simp]: "bk_id \<circ> rename_row i n = bk_id"
  by (simp add: fun_eq_iff)

lemma rename_row_distinct:
  assumes ids: "distinct (map bk_id bs)" and names: "distinct (map bk_name bs)"
    and free: "\<And>c. c \<in> set bs \<Longrightarrow> i \<in> bk_id ` set bs \<Longrightarrow> bk_id c \<noteq> i \<Longrightarrow> bk_name c \<noteq> n"
  shows "distinct (map bk_name (map (rename_row i n) bs))"
proof -
  have "inj_on (bk_name \<circ> rename_row i n) (set bs)"
  proof (rule inj_onI)
    fix b c assume bc: "b \<in> set bs" "c \<in> set bs"
      and eq: "(bk_name \<circ> rename_row i n) b = (bk_name \<circ> rename_row i n) c"
    show "b = c"
    proof (cases "bk_id b = i \<longleftrightarrow> bk_id c = i")
      case True
      then have "bk_id b = bk_id c \<or> bk_name b = bk_name c"
        using eq by (auto split: if_splits)
      then show ?thesis
        using ids names bc by (auto simp: distinct_map dest: inj_onD)
    next
      case False
      then have "i \<in> bk_id ` set bs" using bc by auto
      then show ?thesis using False eq bc free [of b] free [of c] by (auto split: if_splits)
    qed
  qed
  moreover have "distinct bs" using ids by (simp add: distinct_map)
  ultimately show ?thesis by (simp add: distinct_map)
qed

lemma update_bucket_name_inv [inv_intros]:
  assumes inv: "db_inv db" and upd: "update_bucket_name i n db = Inr db'"
  shows "db_inv db'"
proof -
  let ?bs = "map (rename_row i n) (tb_bucket db)"
  have db': "db' = db\<lparr>tb_bucket := ?bs\<rparr>"
    and free: "\<And>c. c \<in> set (tb_bucket db) \<Longrightarrow> i \<in> bk_id ` set (tb_bucket db) \<Longrightarrow> bk_id c \<noteq> i \<Longrightarrow>
      bk_name c \<noteq> n"
    using upd by (auto simp: update_bucket_name_def split: if_splits)
  have "distinct (map bk_name ?bs)"
    using rename_row_distinct free db_invD(1,2) [OF inv] by blast
  moreover have "bk_id ` set ?bs = bk_id ` set (tb_bucket db)"
    by (simp add: image_image)
  ultimately show ?thesis
    using inv unfolding db' db_inv_defs by simp
qed

lemma upsert_error_objects:
  "er_object ` set (upsert_error rows e) = insert (er_object e) (er_object ` set rows)"
  by (simp add: upsert_error_def image_image insert_absorb)

lemma upsert_error_distinct:
  "distinct (map er_object rows) \<Longrightarrow> distinct (map er_object (upsert_error rows e))"
  by (simp add: upsert_error_def)

lemma foldl_upsert_objects:
  "er_object ` set (foldl upsert_error rows es) = er_object ` set rows \<union> er_object ` set es"
  by (induction es arbitrary: rows) (auto simp: upsert_error_objects)

lemma foldl_upsert_distinct:
  "distinct (map er_object rows) \<Longrightarrow> distinct (map er_object (foldl upsert_error rows es))"
  by (induction es arbitrary: rows) (auto simp: upsert_error_distinct)

lemma upsert_errors_inv [inv_intros]:
  assumes inv: "db_inv db" and ok: "upsert_errors es db = Inr db'"
  shows "db_inv db'"
proof -
  let ?rows = "foldl upsert_error (tb_object_error db) es"
  have db': "db' = db\<lparr>tb_object_error := ?rows\<rparr>"
    and sub: "er_object ` set es \<subseteq> ob_id ` set (tb_object db)"
    using ok by (auto simp: upsert_errors_def split: if_splits)
  have "distinct (map er_object ?rows)"
    using inv by (simp add: foldl_upsert_distinct db_inv_def keys_inv_def)
  moreover have "er_object ` set ?rows \<subseteq> ob_id ` set (tb_object db)"
    unfolding foldl_upsert_objects using inv sub by (auto simp: db_inv_def refs_inv_def)
  ultimately show ?thesis
    using inv unfolding db' db_inv_defs by simp
qed

text \<open>Reading the error table as a map, an upsert is a map update.\<close>

lemma upsert_error_map:
  "map_option er_message (row_map er_object (upsert_error rows e) k) =
     (if k = er_object e then Some (er_message e) else map_option er_message (row_map er_object rows k))"
proof (cases "er_object e \<in> er_object ` set rows")
  case True
  have "map_option er_message (row_map er_object (map (set_message e) rows) k) =
      (if k = er_object e \<and> k \<in> er_object ` set rows then Some (er_message e)
       else map_option er_message (row_map er_object rows k))"
    by (induction rows) auto
  with True show ?thesis by (auto simp: upsert_error_def)
next
  case False
  then show ?thesis by (simp add: upsert_error_def row_map_append_new)
qed

end
