(* ===== verification/Data_Api.thy ===== *)
theory Data_Api
  imports Data_Schema
begin

text \<open>
  The views and the stored functions of \<open>share/fstore/db/api.sql\<close>.  A function takes the database
  and returns the rows it yields and the database it leaves, or the condition it raises; a
  function that raises is undone as a whole, so an error carries no database.  Rows without an
  \<open>ORDER BY\<close> come in table order here; nothing proved later depends on that order.
\<close>

section \<open>Joins and aggregates\<close>

definition inner_join :: "('a \<Rightarrow> 'b \<Rightarrow> bool) \<Rightarrow> 'a list \<Rightarrow> 'b list \<Rightarrow> ('a \<times> 'b) list" where
  "inner_join on xs ys = concat (map (\<lambda>x. map (Pair x) (filter (on x) ys)) xs)"

definition left_join :: "('a \<Rightarrow> 'b \<Rightarrow> bool) \<Rightarrow> 'a list \<Rightarrow> 'b list \<Rightarrow> ('a \<times> 'b option) list" where
  "left_join on xs ys = concat (map (\<lambda>x.
     case filter (on x) ys of [] \<Rightarrow> [(x, None)] | zs \<Rightarrow> map (\<lambda>y. (x, Some y)) zs) xs)"

text \<open>A value of type \<open>numeric\<close> converted to \<open>bigint\<close>.\<close>

definition int8 :: "int \<Rightarrow> sqlstate + int64" where
  "int8 i = (if is_int64 i then Inr i else Inl Numeric_value_out_of_range)"

lemma int8_simps [simp]: "is_int64 i \<Longrightarrow> int8 i = Inr i" "\<not> is_int64 i \<Longrightarrow> int8 i = Inl Numeric_value_out_of_range"
  by (simp_all add: int8_def)

lemma int8_Inr_iff: "int8 i = Inr j \<longleftrightarrow> is_int64 i \<and> j = i"
  by (auto simp: int8_def)

text \<open>A reference to a unique key joins to exactly one row.\<close>

lemma filter_ref_singleton:
  assumes "distinct (map key ys)" and "f x \<in> key ` set ys"
  shows "\<exists>y. y \<in> set ys \<and> key y = f x \<and> filter (\<lambda>y. f x = key y) ys = [y]"
proof -
  obtain y where y: "y \<in> set ys" "key y = f x" using assms(2) by auto
  then have "filter (\<lambda>z. key z = key y) ys = [y]"
    using assms(1) by (intro filter_singletonI)
  then have "filter (\<lambda>z. f x = key z) ys = [y]"
    by (simp only: y(2) eq_commute)
  with y show ?thesis by blast
qed

lemma inner_join_refs:
  assumes "distinct (map key ys)" and "f ` set xs \<subseteq> key ` set ys"
  shows "inner_join (\<lambda>x y. f x = key y) xs ys = map (\<lambda>x. (x, the (row_map key ys (f x)))) xs"
  using assms(2)
proof (induction xs)
  case (Cons x xs)
  then obtain y where "y \<in> set ys" "key y = f x" "filter (\<lambda>y. f x = key y) ys = [y]"
    using filter_ref_singleton [OF assms(1), of f x] by auto
  with Cons row_map_Some_iff [OF assms(1), of "f x" y] show ?case
    by (simp add: inner_join_def)
qed (simp add: inner_join_def)

lemma left_join_refs:
  assumes "distinct (map key ys)" and "f ` set xs \<subseteq> key ` set ys"
  shows "left_join (\<lambda>x y. f x = key y) xs ys = map (\<lambda>x. (x, row_map key ys (f x))) xs"
  using assms(2)
proof (induction xs)
  case (Cons x xs)
  then obtain y where "y \<in> set ys" "key y = f x" "filter (\<lambda>y. f x = key y) ys = [y]"
    using filter_ref_singleton [OF assms(1), of f x] by auto
  with Cons row_map_Some_iff [OF assms(1), of "f x" y] show ?case
    by (simp add: left_join_def)
qed (simp add: left_join_def)

section \<open>Views\<close>

definition bucket_links :: "database \<Rightarrow> uuid \<Rightarrow> link_row list" where
  "bucket_links db b = filter (\<lambda>l. ln_bucket l = b) (tb_bucket_object db)"

text \<open>One row of the view \<open>bucket\<close>: the bucket with the count and the total size of its objects.\<close>

definition bucket_view :: "database \<Rightarrow> bucket_row \<Rightarrow> sqlstate + db_bucket" where
  "bucket_view db b =
     (let rows = left_join (\<lambda>l r. ln_object l = ob_id r) (bucket_links db (bk_id b)) (tb_object db)
      in bind_sum (int8 (int (length rows))) (\<lambda>n.
         bind_sum (int8 (\<Sum>(l, r) \<leftarrow> rows. case r of None \<Rightarrow> 0 | Some x \<Rightarrow> ob_size x)) (\<lambda>s.
         Inr \<lparr>db_b_id = bk_id b, db_b_name = bk_name b, db_b_date_created = bk_created b,
              db_b_size = n, db_b_space_used = s\<rparr>)))"

text \<open>The view \<open>bucket_contents\<close>, as the pairs of rows it joins, and its columns.\<close>

definition bucket_contents :: "database \<Rightarrow> (link_row \<times> object_row) list" where
  "bucket_contents db =
     inner_join (\<lambda>l r. ln_object l = ob_id r) (tb_bucket_object db) (tb_object db)"

definition contents_row :: "link_row \<times> object_row \<Rightarrow> db_object" where
  "contents_row p = (case p of (l, r) \<Rightarrow>
     \<lparr>db_o_id = ob_id r, db_o_hash = ob_hash r, db_o_size = ob_size r, db_o_type = ob_type r,
      db_o_subtype = ob_subtype r, db_o_date_added = ln_added l\<rparr>)"

text \<open>A row of the view \<open>object\<close>.\<close>

definition object_view :: "object_row \<Rightarrow> db_object" where
  "object_view r =
     \<lparr>db_o_id = ob_id r, db_o_hash = ob_hash r, db_o_size = ob_size r, db_o_type = ob_type r,
      db_o_subtype = ob_subtype r, db_o_date_added = ob_added r\<rparr>"

text \<open>A row of the view \<open>object_error\<close>.\<close>

definition object_error_view :: "error_row \<Rightarrow> object_error" where
  "object_error_view e = \<lparr>oe_id = er_object e, oe_message = er_message e\<rparr>"

text \<open>The column \<open>reference_count\<close> of the view \<open>object_ref\<close>.\<close>

definition reference_count :: "database \<Rightarrow> uuid \<Rightarrow> nat" where
  "reference_count db x = length (filter (\<lambda>l. ln_object l = x) (tb_bucket_object db))"

lemma reference_count_zero_iff:
  "reference_count db x = 0 \<longleftrightarrow> x \<notin> ln_object ` set (tb_bucket_object db)"
  by (auto simp: reference_count_def filter_empty_conv)

lemma contents_row_simps [simp]:
  "db_o_id (contents_row (l, r)) = ob_id r" "db_o_hash (contents_row (l, r)) = ob_hash r"
  "db_o_size (contents_row (l, r)) = ob_size r" "db_o_type (contents_row (l, r)) = ob_type r"
  "db_o_subtype (contents_row (l, r)) = ob_subtype r"
  "db_o_date_added (contents_row (l, r)) = ln_added l"
  by (simp_all add: contents_row_def)

lemma object_view_simps [simp]:
  "db_o_id (object_view r) = ob_id r" "db_o_hash (object_view r) = ob_hash r"
  "db_o_size (object_view r) = ob_size r"
  by (simp_all add: object_view_def)

section \<open>Stored functions that add\<close>

definition sql_create_object ::
  "uuid \<Rightarrow> string \<Rightarrow> int64 \<Rightarrow> string \<Rightarrow> string \<Rightarrow> time_point \<Rightarrow> database \<Rightarrow> uuid option \<times> database" where
  "sql_create_object i h sz ty sub now db =
     (let db' = insert_object \<lparr>ob_id = i, ob_hash = h, ob_size = sz, ob_type = ty,
        ob_subtype = sub, ob_added = now\<rparr> db
      in (case filter (\<lambda>r. ob_hash r = h) (tb_object db') of
            [] \<Rightarrow> None
          | r # _ \<Rightarrow> Some (ob_id r), db'))"

definition sql_add_object ::
  "uuid \<Rightarrow> uuid \<Rightarrow> string \<Rightarrow> int64 \<Rightarrow> string \<Rightarrow> string \<Rightarrow> time_point \<Rightarrow> database \<Rightarrow>
   sqlstate + db_object list \<times> database" where
  "sql_add_object b i h sz ty sub now db =
     (case sql_create_object i h sz ty sub now db of (obj, db1) \<Rightarrow>
      bind_sum (insert_link b obj now db1) (\<lambda>db2.
        Inr (map contents_row (filter (\<lambda>(l, r). ln_bucket l = b \<and> ob_hash r = h)
               (bucket_contents db2)), db2)))"

definition sql_fetch_bucket :: "string \<Rightarrow> database \<Rightarrow> sqlstate + db_bucket list" where
  "sql_fetch_bucket n db = traverse (bucket_view db) (filter (\<lambda>b. bk_name b = n) (tb_bucket db))"

definition sql_create_bucket ::
  "uuid \<Rightarrow> time_point \<Rightarrow> string \<Rightarrow> database \<Rightarrow> sqlstate + db_bucket list \<times> database" where
  "sql_create_bucket new_id now n db =
     bind_sum (insert_bucket new_id now n db) (\<lambda>db'.
     bind_sum (sql_fetch_bucket n db') (\<lambda>rows. Inr (rows, db')))"

section \<open>Stored functions that read\<close>

text \<open>\<open>unnest(a_names) WITH ordinality JOIN bucket USING (name) ORDER BY ordinality\<close>.\<close>

definition sql_fetch_buckets :: "string list \<Rightarrow> database \<Rightarrow> sqlstate + db_bucket list" where
  "sql_fetch_buckets names db =
     traverse (bucket_view db) (map snd (inner_join (\<lambda>n b. n = bk_name b) names (tb_bucket db)))"

definition sql_fetch_buckets_all :: "database \<Rightarrow> sqlstate + db_bucket list" where
  "sql_fetch_buckets_all db = traverse (bucket_view db) (tb_bucket db)"

definition sql_fetch_store_totals :: "database \<Rightarrow> sqlstate + db_store_totals list" where
  "sql_fetch_store_totals db =
     bind_sum (int8 (int (length (tb_bucket db)))) (\<lambda>bs.
     bind_sum (int8 (int (length (tb_object db)))) (\<lambda>os.
     bind_sum (int8 (\<Sum>r \<leftarrow> tb_object db. ob_size r)) (\<lambda>sp.
     Inr [\<lparr>db_st_buckets = bs, db_st_objects = os, db_st_space_used = sp\<rparr>])))"

definition sql_get_errors :: "database \<Rightarrow> object_error list" where
  "sql_get_errors db = map object_error_view (tb_object_error db)"

definition sql_get_object :: "uuid \<Rightarrow> uuid \<Rightarrow> database \<Rightarrow> db_object list" where
  "sql_get_object b x db = map contents_row
     (filter (\<lambda>(l, r). ln_bucket l = b \<and> ob_id r = x) (bucket_contents db))"

definition sql_get_objects :: "database \<Rightarrow> db_object list" where
  "sql_get_objects db = map object_view (sort_key ob_id (tb_object db))"

section \<open>Stored functions that remove or change\<close>

definition sql_remove_bucket :: "uuid \<Rightarrow> database \<Rightarrow> database" where
  "sql_remove_bucket b db = delete_buckets (\<lambda>r. bk_id r = b) db"

definition sql_remove_object :: "uuid \<Rightarrow> uuid \<Rightarrow> database \<Rightarrow> db_object list \<times> database" where
  "sql_remove_object b x db =
     (let P = (\<lambda>l. ln_bucket l = b \<and> ln_object l = x);
          deleted = filter P (tb_bucket_object db)
      in (map contents_row (inner_join (\<lambda>l r. ln_object l = ob_id r) deleted (tb_object db)),
          delete_links P db))"

definition sql_remove_objects ::
  "uuid \<Rightarrow> uuid list \<Rightarrow> database \<Rightarrow> sqlstate + db_remove_result list \<times> database" where
  "sql_remove_objects b xs db =
     (let P = (\<lambda>l. ln_bucket l = b \<and> ln_object l \<in> set xs);
          deleted = filter P (tb_bucket_object db);
          rows = inner_join (\<lambda>l r. ln_object l = ob_id r) deleted (tb_object db)
      in bind_sum (int8 (int (length rows))) (\<lambda>n.
         bind_sum (int8 (\<Sum>(l, r) \<leftarrow> rows. ob_size r)) (\<lambda>s.
         Inr ([\<lparr>db_rr_objects_removed = n, db_rr_space_freed = s\<rparr>], delete_links P db))))"

definition sql_remove_orphan_objects :: "database \<Rightarrow> db_object list \<times> database" where
  "sql_remove_orphan_objects db =
     (let P = (\<lambda>r. reference_count db (ob_id r) = 0)
      in (map object_view (filter P (tb_object db)), delete_objects P db))"

definition sql_rename_bucket :: "uuid \<Rightarrow> string \<Rightarrow> database \<Rightarrow> sqlstate + database" where
  "sql_rename_bucket b n db = update_bucket_name b n db"

definition sql_update_object_errors :: "object_error list \<Rightarrow> database \<Rightarrow> sqlstate + database" where
  "sql_update_object_errors records db =
     (let cleared = oe_id ` {e \<in> set records. oe_message e = []};
          entries = map (\<lambda>e. \<lparr>er_object = oe_id e, er_message = oe_message e\<rparr>)
                      (filter (\<lambda>e. oe_message e \<noteq> []) records)
      in upsert_errors entries (delete_errors (\<lambda>e. er_object e \<in> cleared) db))"

end
