(* ===== verification/Data_Laws.thy ===== *)
theory Data_Laws
  imports Data_Api
begin

text \<open>
  What the stored functions do, under the constraints \<open>db_inv\<close>.  \<open>entry db b x\<close> is the reference
  reading of a bucket's contents (the object \<open>x\<close> as bucket \<open>b\<close> lists it); every function is
  characterised by its effect on entries, objects, buckets and messages, errors included.
\<close>

section \<open>Reading a bucket's contents\<close>

definition object_of :: "database \<Rightarrow> uuid \<Rightarrow> object_row" where
  "object_of db x = the (row_map ob_id (tb_object db) x)"

definition entry :: "database \<Rightarrow> uuid \<Rightarrow> uuid \<Rightarrow> db_object option" where
  "entry db b x = map_option (\<lambda>l. contents_row (l, object_of db x))
     (row_map link_key (tb_bucket_object db) (b, x))"

definition option_list :: "'a option \<Rightarrow> 'a list" where
  "option_list z = (case z of None \<Rightarrow> [] | Some x \<Rightarrow> [x])"

lemma option_list_simps [simp]:
  "option_list None = []" "option_list (Some x) = [x]"
  by (simp_all add: option_list_def)

lemma option_list_eq_simps [simp]:
  "option_list z = [] \<longleftrightarrow> z = None" "option_list z = [x] \<longleftrightarrow> z = Some x"
  "set (option_list z) = set_option z" "length (option_list z) = (if z = None then 0 else 1)"
  by (cases z; simp)+

lemma object_of_ref:
  assumes "db_inv db" and "x \<in> ob_id ` set (tb_object db)"
  shows "object_of db x \<in> set (tb_object db)" "ob_id (object_of db x) = x"
    "row_map ob_id (tb_object db) x = Some (object_of db x)"
proof -
  from assms obtain r where r: "row_map ob_id (tb_object db) x = Some r"
    by (cases "row_map ob_id (tb_object db) x") (auto simp: row_map_None_iff)
  then show "row_map ob_id (tb_object db) x = Some (object_of db x)"
    by (simp add: object_of_def)
  from row_map_SomeD [OF r] r show "object_of db x \<in> set (tb_object db)" "ob_id (object_of db x) = x"
    by (simp_all add: object_of_def)
qed

lemma object_of_eq: "db_inv db \<Longrightarrow> r \<in> set (tb_object db) \<Longrightarrow> object_of db (ob_id r) = r"
  by (simp add: object_of_def row_map_Some_iff [THEN iffD2] db_invD)

lemma object_of_link:
  "db_inv db \<Longrightarrow> l \<in> set (tb_bucket_object db) \<Longrightarrow> ob_id (object_of db (ln_object l)) = ln_object l"
  "db_inv db \<Longrightarrow> l \<in> set (tb_bucket_object db) \<Longrightarrow> object_of db (ln_object l) \<in> set (tb_object db)"
  using db_inv_link_object object_of_eq by metis+

lemma bucket_contents_eq:
  assumes "db_inv db"
  shows "bucket_contents db = map (\<lambda>l. (l, object_of db (ln_object l))) (tb_bucket_object db)"
  using assms unfolding bucket_contents_def object_of_def
  by (intro inner_join_refs) (auto simp: db_inv_defs)

lemma links_of_pair:
  "db_inv db \<Longrightarrow> filter (\<lambda>l. ln_bucket l = b \<and> ln_object l = x) (tb_bucket_object db) =
     option_list (row_map link_key (tb_bucket_object db) (b, x))"
  using filter_key_eq [OF db_invD(5), of db "(b, x)"] by (simp add: option_list_def)

lemma sql_get_object_eq:
  assumes inv: "db_inv db"
  shows "sql_get_object b x db = option_list (entry db b x)"
proof -
  let ?f = "\<lambda>l. (l, object_of db (ln_object l))"
  have "filter (\<lambda>(l, r). ln_bucket l = b \<and> ob_id r = x) (bucket_contents db) =
      map ?f (filter (\<lambda>l. ln_bucket l = b \<and> ln_object l = x) (tb_bucket_object db))"
    by (simp add: bucket_contents_eq [OF inv] filter_map comp_def object_of_link [OF inv]
        cong: filter_cong)
  also have "\<dots> = map ?f (option_list (row_map link_key (tb_bucket_object db) (b, x)))"
    by (simp add: links_of_pair [OF inv])
  finally show ?thesis
    using row_map_SomeD [of link_key "tb_bucket_object db" "(b, x)"]
    by (cases "row_map link_key (tb_bucket_object db) (b, x)") (simp_all add: sql_get_object_def entry_def)
qed

lemma entry_SomeD:
  assumes "db_inv db" and "entry db b x = Some e"
  shows "db_o_id e = x" and "b \<in> bk_id ` set (tb_bucket db)" and "x \<in> ob_id ` set (tb_object db)"
    and "db_o_hash e = ob_hash (object_of db x)" and "db_o_size e = ob_size (object_of db x)"
proof -
  obtain l where l: "l \<in> set (tb_bucket_object db)" "link_key l = (b, x)"
    and e: "e = contents_row (l, object_of db x)"
    using assms(2) by (auto simp: entry_def dest: row_map_SomeD)
  show "db_o_id e = x" "b \<in> bk_id ` set (tb_bucket db)" "x \<in> ob_id ` set (tb_object db)"
    using l e assms(1) object_of_link [OF assms(1), of l] db_inv_link_bucket [OF assms(1), of l]
      db_inv_link_object [OF assms(1), of l]
    by auto
  show "db_o_hash e = ob_hash (object_of db x)" "db_o_size e = ob_size (object_of db x)"
    using e by simp_all
qed

lemma entry_None_iff: "entry db b x = None \<longleftrightarrow> (b, x) \<notin> link_key ` set (tb_bucket_object db)"
  by (simp add: entry_def row_map_None_iff)

section \<open>Adding an object\<close>

text \<open>
  \<open>create_object\<close> is deduplication by content: a known hash yields the object that has it; an
  unknown hash with a fresh id yields a new object; an unknown hash with a taken id yields \<open>NULL\<close>.
\<close>

lemma create_object_known:
  assumes inv: "db_inv db" and r: "r \<in> set (tb_object db)" "ob_hash r = h"
  shows "sql_create_object i h sz ty sub now db = (Some (ob_id r), db)"
proof -
  have "filter (\<lambda>q. ob_hash q = h) (tb_object db) = [r]"
    using r filter_singletonI [OF db_invD(4) [OF inv] r(1)] by simp
  moreover have "h \<in> ob_hash ` set (tb_object db)" using r by auto
  ultimately show ?thesis by (simp add: sql_create_object_def insert_object_def)
qed

lemma create_object_new:
  assumes "h \<notin> ob_hash ` set (tb_object db)" and "i \<notin> ob_id ` set (tb_object db)"
  shows "sql_create_object i h sz ty sub now db =
    (Some i, db\<lparr>tb_object := tb_object db @ [\<lparr>ob_id = i, ob_hash = h, ob_size = sz, ob_type = ty,
       ob_subtype = sub, ob_added = now\<rparr>]\<rparr>)"
proof -
  have "filter (\<lambda>r. ob_hash r = h) (tb_object db) = []"
    using assms(1) by (auto simp: filter_empty_conv)
  with assms show ?thesis by (simp add: sql_create_object_def insert_object_def)
qed

lemma create_object_clash:
  assumes "h \<notin> ob_hash ` set (tb_object db)" and "i \<in> ob_id ` set (tb_object db)"
  shows "sql_create_object i h sz ty sub now db = (None, db)"
proof -
  have "filter (\<lambda>r. ob_hash r = h) (tb_object db) = []"
    using assms(1) by (auto simp: filter_empty_conv)
  with assms show ?thesis by (simp add: sql_create_object_def insert_object_def)
qed

lemma create_object_cases [consumes 1, case_names known new clash]:
  assumes "db_inv db"
  obtains (known) r where "r \<in> set (tb_object db)" "ob_hash r = h"
      "sql_create_object i h sz ty sub now db = (Some (ob_id r), db)"
  | (new) "h \<notin> ob_hash ` set (tb_object db)" "i \<notin> ob_id ` set (tb_object db)"
      "sql_create_object i h sz ty sub now db = (Some i, db\<lparr>tb_object := tb_object db @
        [\<lparr>ob_id = i, ob_hash = h, ob_size = sz, ob_type = ty, ob_subtype = sub, ob_added = now\<rparr>]\<rparr>)"
  | (clash) "h \<notin> ob_hash ` set (tb_object db)" "i \<in> ob_id ` set (tb_object db)"
      "sql_create_object i h sz ty sub now db = (None, db)"
proof (cases "h \<in> ob_hash ` set (tb_object db)")
  case True
  then obtain r where "r \<in> set (tb_object db)" "ob_hash r = h" by auto
  then show ?thesis using create_object_known [OF assms] known by blast
next
  case False
  then show ?thesis
    using new clash create_object_new create_object_clash by (cases "i \<in> ob_id ` set (tb_object db)") auto
qed

lemma create_object_inv:
  "db_inv db \<Longrightarrow> is_int64 sz \<Longrightarrow> db_inv (snd (sql_create_object i h sz ty sub now db))"
  by (simp add: sql_create_object_def Let_def insert_object_inv)

lemma create_object_frame [simp]:
  "tb_bucket (snd (sql_create_object i h sz ty sub now db)) = tb_bucket db"
  "tb_bucket_object (snd (sql_create_object i h sz ty sub now db)) = tb_bucket_object db"
  "tb_object_error (snd (sql_create_object i h sz ty sub now db)) = tb_object_error db"
  by (simp_all add: sql_create_object_def Let_def)

lemma create_object_Some:
  assumes inv: "db_inv db" and c: "sql_create_object i h sz ty sub now db = (Some x, db1)"
  shows "\<exists>r \<in> set (tb_object db1). ob_id r = x \<and> ob_hash r = h" and "set (tb_object db) \<subseteq> set (tb_object db1)"
  using create_object_cases [OF inv, where h = h and i = i and sz = sz and ty = ty and sub = sub and now = now] c
  by (cases; force)+

lemma insert_link_Inr:
  assumes inv: "db_inv db" and ok: "insert_link b (Some x) now db = Inr db'"
  shows "b \<in> bk_id ` set (tb_bucket db)" "x \<in> ob_id ` set (tb_object db)"
    "entry db' = (entry db)(b := (entry db b)(x := Some (case entry db b x of Some e \<Rightarrow> e
       | None \<Rightarrow> contents_row (\<lparr>ln_bucket = b, ln_object = x, ln_added = now\<rparr>, object_of db x))))"
    "(b, x) \<in> link_key ` set (tb_bucket_object db')"
proof -
  have cases: "((b, x) \<in> link_key ` set (tb_bucket_object db) \<and> db' = db) \<or>
    ((b, x) \<notin> link_key ` set (tb_bucket_object db) \<and> b \<in> bk_id ` set (tb_bucket db) \<and>
      x \<in> ob_id ` set (tb_object db) \<and>
      db' = db\<lparr>tb_bucket_object := tb_bucket_object db @
        [\<lparr>ln_bucket = b, ln_object = x, ln_added = now\<rparr>]\<rparr>)"
    using ok by (auto simp: insert_link_def split: if_splits)
  then show "b \<in> bk_id ` set (tb_bucket db)" "x \<in> ob_id ` set (tb_object db)"
    using db_inv_link_bucket [OF inv] db_inv_link_object [OF inv] by force+
  show "(b, x) \<in> link_key ` set (tb_bucket_object db')"
    using cases by force
  from cases show "entry db' = (entry db)(b := (entry db b)(x := Some (case entry db b x of Some e \<Rightarrow> e
       | None \<Rightarrow> contents_row (\<lparr>ln_bucket = b, ln_object = x, ln_added = now\<rparr>, object_of db x))))"
  proof
    assume old: "(b, x) \<in> link_key ` set (tb_bucket_object db) \<and> db' = db"
    then have "entry db b x \<noteq> None" unfolding entry_None_iff by blast
    then obtain e where "entry db b x = Some e" by blast
    with old show ?thesis by (simp add: fun_upd_idem)
  next
    assume new: "(b, x) \<notin> link_key ` set (tb_bucket_object db) \<and> b \<in> bk_id ` set (tb_bucket db) \<and>
      x \<in> ob_id ` set (tb_object db) \<and> db' = db\<lparr>tb_bucket_object := tb_bucket_object db @
        [\<lparr>ln_bucket = b, ln_object = x, ln_added = now\<rparr>]\<rparr>"
    then have "entry db b x = None" by (simp add: entry_None_iff)
    moreover have "row_map link_key (tb_bucket_object db') =
        (row_map link_key (tb_bucket_object db))
          ((b, x) \<mapsto> \<lparr>ln_bucket = b, ln_object = x, ln_added = now\<rparr>)"
      using new by (simp add: row_map_append_new)
    moreover have "object_of db' = object_of db"
      using new by (simp add: object_of_def fun_eq_iff)
    ultimately show ?thesis
      by (simp add: fun_eq_iff entry_def)
  qed
qed

lemma entry_cong:
  assumes inv: "db_inv db" and links: "tb_bucket_object db1 = tb_bucket_object db"
    and objs: "\<And>x. x \<in> ob_id ` set (tb_object db) \<Longrightarrow> object_of db1 x = object_of db x"
  shows "entry db1 = entry db"
proof (intro ext)
  fix b x
  show "entry db1 b x = entry db b x"
  proof (cases "row_map link_key (tb_bucket_object db) (b, x)")
    case (Some l)
    then have "x \<in> ob_id ` set (tb_object db)"
      using row_map_SomeD [OF Some] db_inv_link_object [OF inv, of l] by auto
    with Some links objs show ?thesis by (simp add: entry_def)
  qed (simp add: entry_def links)
qed

lemma create_object_entry:
  assumes inv: "db_inv db"
  shows "entry (snd (sql_create_object i h sz ty sub now db)) = entry db"
proof (rule create_object_cases [OF inv, where h = h and i = i and sz = sz and ty = ty and sub = sub
      and now = now])
  assume new: "h \<notin> ob_hash ` set (tb_object db)" "i \<notin> ob_id ` set (tb_object db)"
  show ?thesis
  proof (rule entry_cong [OF inv])
    fix x assume "x \<in> ob_id ` set (tb_object db)"
    with new show "object_of (snd (sql_create_object i h sz ty sub now db)) x = object_of db x"
      by (auto simp: create_object_new object_of_def row_map_append_new)
  qed simp
qed simp_all

text \<open>The row \<open>add_object\<close> returns is the entry of the bucket for the object of that hash.\<close>

lemma contents_of_hash:
  assumes inv: "db_inv db" and r: "r \<in> set (tb_object db)" "ob_hash r = h" "ob_id r = x"
  shows "map contents_row (filter (\<lambda>(l, r). ln_bucket l = b \<and> ob_hash r = h) (bucket_contents db)) =
    option_list (entry db b x)"
proof -
  have "(l, q) \<in> set (bucket_contents db) \<Longrightarrow> ob_hash q = h \<longleftrightarrow> ob_id q = x" for l q
    using inv r object_of_link(2) [OF inv] db_invD(3,4) [OF inv]
    by (auto simp: bucket_contents_eq [OF inv] distinct_map dest: inj_onD)
  then have "filter (\<lambda>(l, r). ln_bucket l = b \<and> ob_hash r = h) (bucket_contents db) =
      filter (\<lambda>(l, r). ln_bucket l = b \<and> ob_id r = x) (bucket_contents db)"
    by (intro filter_cong) (auto split: prod.splits)
  then show ?thesis using sql_get_object_eq [OF inv] by (simp add: sql_get_object_def)
qed

lemma sql_add_object_Inr:
  assumes inv: "db_inv db" and sz: "is_int64 sz"
    and ok: "sql_add_object b i h sz ty sub now db = Inr (rows, db')"
  obtains x db1 e where "sql_create_object i h sz ty sub now db = (Some x, db1)"
    "insert_link b (Some x) now db1 = Inr db'" "rows = [e]" "entry db' b x = Some e"
    "db_o_hash e = h" "db_o_id e = x" "db_inv db'"
proof -
  obtain obj db1 where c: "sql_create_object i h sz ty sub now db = (obj, db1)" by fastforce
  have inv1: "db_inv db1" using create_object_inv [OF inv sz, of i h ty sub now] c by simp
  from ok c have link: "insert_link b obj now db1 = Inr db'"
    and rows: "rows = map contents_row
      (filter (\<lambda>(l, r). ln_bucket l = b \<and> ob_hash r = h) (bucket_contents db'))"
    by (auto simp: sql_add_object_def bind_sum_Inr_iff)
  obtain x where x: "obj = Some x" using link by (cases obj) (auto simp: insert_link_def)
  have inv': "db_inv db'" using insert_link_inv [OF inv1 link] .
  obtain r where r: "r \<in> set (tb_object db')" "ob_id r = x" "ob_hash r = h"
    using create_object_Some(1) [OF inv c [unfolded x]] insert_link_frame(2) [OF link] by auto
  obtain e where e: "entry db' b x = Some e"
    using insert_link_Inr(3) [OF inv1 link [unfolded x]] by simp
  have "rows = [e]"
    using contents_of_hash [OF inv' r(1,3,2), of b] e rows by simp
  moreover have "db_o_hash e = h" "db_o_id e = x"
    using entry_SomeD [OF inv' e] object_of_eq [OF inv' r(1)] r by auto
  ultimately show thesis using that c link x e inv' by blast
qed

lemma sql_add_object_inv [inv_intros]:
  "db_inv db \<Longrightarrow> is_int64 sz \<Longrightarrow> sql_add_object b i h sz ty sub now db = Inr (rows, db') \<Longrightarrow> db_inv db'"
  by (rule sql_add_object_Inr)

lemma sql_add_object_entry:
  assumes "db_inv db" "is_int64 sz" "sql_add_object b i h sz ty sub now db = Inr ([e], db')"
    and "(b', x') \<noteq> (b, db_o_id e)"
  shows "entry db' b' x' = entry db b' x'"
proof (rule sql_add_object_Inr [OF assms(1-3)])
  fix x db1 e'
  assume c: "sql_create_object i h sz ty sub now db = (Some x, db1)"
    and l: "insert_link b (Some x) now db1 = Inr db'" and e: "[e] = [e']" "db_o_id e' = x"
  have "db_inv db1" using create_object_inv [OF assms(1,2), of i h ty sub now] c by simp
  then have "entry db' b' x' = entry db1 b' x'"
    using insert_link_Inr(3) [OF _ l] assms(4) e by auto
  then show ?thesis using create_object_entry [OF assms(1), of i h sz ty sub now] c by simp
qed

lemma sql_add_object_objects:
  assumes inv: "db_inv db" and ok: "sql_add_object b i h sz ty sub now db = Inr (rows, db')"
  shows "tb_object db' = (if h \<in> ob_hash ` set (tb_object db) then tb_object db
    else tb_object db @ [\<lparr>ob_id = i, ob_hash = h, ob_size = sz, ob_type = ty, ob_subtype = sub,
      ob_added = now\<rparr>])"
    and "tb_bucket db' = tb_bucket db" and "tb_object_error db' = tb_object_error db"
proof -
  obtain obj db1 where c: "sql_create_object i h sz ty sub now db = (obj, db1)"
    and link: "insert_link b obj now db1 = Inr db'"
    using ok by (cases "sql_create_object i h sz ty sub now db") (auto simp: sql_add_object_def bind_sum_Inr_iff)
  have frame: "tb_bucket db1 = tb_bucket db" "tb_object_error db1 = tb_object_error db"
    using create_object_frame(1,3) [of i h sz ty sub now db] c by simp_all
  then show "tb_bucket db' = tb_bucket db" "tb_object_error db' = tb_object_error db"
    using insert_link_frame [OF link] by simp_all
  show "tb_object db' = (if h \<in> ob_hash ` set (tb_object db) then tb_object db
    else tb_object db @ [\<lparr>ob_id = i, ob_hash = h, ob_size = sz, ob_type = ty, ob_subtype = sub,
      ob_added = now\<rparr>])"
    unfolding insert_link_frame(2) [OF link]
    using create_object_cases [OF inv, where h = h and i = i and sz = sz and ty = ty and sub = sub
        and now = now] c link
    by (cases; force simp: insert_link_def)
qed

text \<open>When \<open>add_object\<close> fails: an unknown bucket, or a taken id with an unknown hash.\<close>

lemma sql_add_object_Inl_iff:
  assumes inv: "db_inv db" and sz: "is_int64 sz"
  shows "sql_add_object b i h sz ty sub now db = Inl err \<longleftrightarrow>
    (err = Not_null_violation \<and> h \<notin> ob_hash ` set (tb_object db) \<and> i \<in> ob_id ` set (tb_object db)) \<or>
    (err = Foreign_key_violation \<and> b \<notin> bk_id ` set (tb_bucket db) \<and>
      (h \<in> ob_hash ` set (tb_object db) \<or> i \<notin> ob_id ` set (tb_object db)))"
  using inv
proof (cases rule: create_object_cases [where h = h and i = i and sz = sz and ty = ty
      and sub = sub and now = now])
  case (known r)
  have "(b, ob_id r) \<in> link_key ` set (tb_bucket_object db) \<Longrightarrow> b \<in> bk_id ` set (tb_bucket db)"
    using db_inv_link_bucket [OF inv] by force
  with known show ?thesis
    by (auto simp: sql_add_object_def bind_sum_Inl_iff insert_link_def)
next
  case new
  have "(b, i) \<notin> link_key ` set (tb_bucket_object db)"
    using db_inv_link_object [OF inv] new(2) by force
  with new show ?thesis
    by (auto simp: sql_add_object_def bind_sum_Inl_iff insert_link_def)
next
  case clash
  then show ?thesis by (auto simp: sql_add_object_def bind_sum_Inl_iff insert_link_def)
qed

end
