(* ===== verification/Data_Changes.thy ===== *)
theory Data_Changes
  imports Data_Laws
begin

text \<open>
  The effect of the stored functions that remove or change rows, read through \<open>entry\<close>,
  \<open>members\<close> (the objects of a bucket), \<open>total_size\<close> and \<open>message\<close> (the recorded check result).
\<close>

section \<open>Removing from a bucket\<close>

lemma delete_links_entry:
  "entry (delete_links (\<lambda>l. P (ln_bucket l) (ln_object l)) db) b x =
     (if P b x then None else entry db b x)"
proof -
  let ?Q = "\<lambda>k. \<not> P (fst k) (snd k)"
  have "row_map link_key (filter (\<lambda>l. ?Q (link_key l)) (tb_bucket_object db)) =
      row_map link_key (tb_bucket_object db) |` {k. ?Q k}"
    by (rule row_map_filter_key)
  then show ?thesis
    by (simp add: entry_def delete_links_def object_of_def restrict_map_def)
qed

lemma deleted_rows:
  assumes inv: "db_inv db"
  shows "inner_join (\<lambda>l r. ln_object l = ob_id r) (filter P (tb_bucket_object db)) (tb_object db) =
    map (\<lambda>l. (l, object_of db (ln_object l))) (filter P (tb_bucket_object db))"
  unfolding object_of_def using inv
  by (intro inner_join_refs) (auto simp: db_inv_defs)

lemma sql_remove_object_eq:
  assumes inv: "db_inv db"
  shows "fst (sql_remove_object b x db) = option_list (entry db b x)"
    and "entry (snd (sql_remove_object b x db)) =
      (entry db)(b := (entry db b)(x := None))"
proof -
  show "fst (sql_remove_object b x db) = option_list (entry db b x)"
    using row_map_SomeD [of link_key "tb_bucket_object db" "(b, x)"]
    by (cases "row_map link_key (tb_bucket_object db) (b, x)")
       (simp_all add: sql_remove_object_def Let_def deleted_rows [OF inv] links_of_pair [OF inv] entry_def)
  show "entry (snd (sql_remove_object b x db)) = (entry db)(b := (entry db b)(x := None))"
    by (intro ext) (simp add: sql_remove_object_def Let_def
        delete_links_entry [where P = "\<lambda>b' x'. b' = b \<and> x' = x"])
qed

lemma sql_remove_object_frame [simp]:
  "tb_bucket (snd (sql_remove_object b x db)) = tb_bucket db"
  "tb_object (snd (sql_remove_object b x db)) = tb_object db"
  "tb_object_error (snd (sql_remove_object b x db)) = tb_object_error db"
  by (simp_all add: sql_remove_object_def Let_def)

lemma sql_remove_object_inv [inv_intros]: "db_inv db \<Longrightarrow> db_inv (snd (sql_remove_object b x db))"
  by (simp add: sql_remove_object_def Let_def delete_links_inv)

text \<open>The objects of a bucket, and their total size.\<close>

definition members :: "database \<Rightarrow> uuid \<Rightarrow> uuid set" where
  "members db b = {x. entry db b x \<noteq> None}"

definition total_size :: "database \<Rightarrow> uuid set \<Rightarrow> int" where
  "total_size db X = (\<Sum>x \<in> X. ob_size (object_of db x))"

lemma members_eq: "members db b = ln_object ` set (bucket_links db b)"
  by (force simp: members_def entry_None_iff bucket_links_def)

lemma finite_members [simp]: "finite (members db b)"
  by (simp add: members_eq)

lemma distinct_second_of_pairs:
  "distinct (map (\<lambda>l. (f l, g l)) xs) \<Longrightarrow> distinct (map g (filter (\<lambda>l. f l = b) xs))"
  by (induction xs) (auto simp: rev_image_eqI)

lemma bucket_links_distinct: "db_inv db \<Longrightarrow> distinct (map ln_object (bucket_links db b))"
  unfolding bucket_links_def by (intro distinct_second_of_pairs db_invD(5))

lemma links_in_members:
  assumes inv: "db_inv db"
  shows "length (filter (\<lambda>l. ln_bucket l = b \<and> Q (ln_object l)) (tb_bucket_object db)) =
      card {x \<in> members db b. Q x}"
    and "(\<Sum>l \<leftarrow> filter (\<lambda>l. ln_bucket l = b \<and> Q (ln_object l)) (tb_bucket_object db).
        ob_size (object_of db (ln_object l))) = total_size db {x \<in> members db b. Q x}"
proof -
  let ?ls = "filter (\<lambda>l. ln_bucket l = b \<and> Q (ln_object l)) (tb_bucket_object db)"
  have ls: "?ls = filter (\<lambda>l. Q (ln_object l)) (bucket_links db b)"
    by (simp add: bucket_links_def conj_commute)
  have dist: "distinct (map ln_object ?ls)"
    unfolding ls by (intro distinct_map_filterI bucket_links_distinct inv)
  have set: "set (map ln_object ?ls) = {x \<in> members db b. Q x}"
    by (auto simp: ls members_eq)
  show "length ?ls = card {x \<in> members db b. Q x}"
    using distinct_card [OF dist] set by simp
  show "(\<Sum>l \<leftarrow> ?ls. ob_size (object_of db (ln_object l))) = total_size db {x \<in> members db b. Q x}"
    using sum_list_distinct_conv_sum_set [OF dist, of "\<lambda>x. ob_size (object_of db x)"] set
    by (simp add: total_size_def comp_def)
qed

lemma sql_remove_objects_eq:
  assumes inv: "db_inv db"
  shows "sql_remove_objects b xs db =
    (let X = members db b \<inter> set xs
     in bind_sum (int8 (int (card X))) (\<lambda>n. bind_sum (int8 (total_size db X)) (\<lambda>s.
          Inr ([\<lparr>db_rr_objects_removed = n, db_rr_space_freed = s\<rparr>],
               delete_links (\<lambda>l. ln_bucket l = b \<and> ln_object l \<in> set xs) db))))"
  using links_in_members [OF inv, of b "\<lambda>x. x \<in> set xs"]
  by (simp add: sql_remove_objects_def Let_def deleted_rows [OF inv] comp_def Int_def)

lemma sql_remove_objects_inv [inv_intros]:
  "db_inv db \<Longrightarrow> sql_remove_objects b xs db = Inr (rows, db') \<Longrightarrow> db_inv db'"
  by (auto simp: sql_remove_objects_def Let_def bind_sum_Inr_iff delete_links_inv)

lemma sql_remove_objects_entry:
  "sql_remove_objects b xs db = Inr (rows, db') \<Longrightarrow>
     entry db' b' x = (if b' = b \<and> x \<in> set xs then None else entry db b' x)"
  by (auto simp: sql_remove_objects_def Let_def bind_sum_Inr_iff
      delete_links_entry [where P = "\<lambda>b' x'. b' = b \<and> x' \<in> set xs"])

lemma sql_remove_objects_frame:
  assumes "sql_remove_objects b xs db = Inr (rows, db')"
  shows "tb_bucket db' = tb_bucket db" "tb_object db' = tb_object db"
    "tb_object_error db' = tb_object_error db"
  using assms by (auto simp: sql_remove_objects_def Let_def bind_sum_Inr_iff)

section \<open>Buckets\<close>

lemma bucket_view_eq:
  assumes inv: "db_inv db"
  shows "bucket_view db r =
    (let X = members db (bk_id r)
     in bind_sum (int8 (int (card X))) (\<lambda>n. bind_sum (int8 (total_size db X)) (\<lambda>s.
          Inr \<lparr>db_b_id = bk_id r, db_b_name = bk_name r, db_b_date_created = bk_created r,
               db_b_size = n, db_b_space_used = s\<rparr>)))"
proof -
  have "left_join (\<lambda>l q. ln_object l = ob_id q) (bucket_links db (bk_id r)) (tb_object db) =
      map (\<lambda>l. (l, row_map ob_id (tb_object db) (ln_object l))) (bucket_links db (bk_id r))"
    using inv by (intro left_join_refs) (auto simp: db_inv_defs bucket_links_def)
  also have "\<dots> = map (\<lambda>l. (l, Some (object_of db (ln_object l)))) (bucket_links db (bk_id r))"
    using inv object_of_ref(3) [OF inv]
    by (intro map_cong) (auto simp: bucket_links_def db_inv_defs)
  finally show ?thesis
    using links_in_members [OF inv, of "bk_id r" "\<lambda>x. True"]
    by (simp add: bucket_view_def Let_def comp_def bucket_links_def)
qed

lemma bucket_view_id:
  "bucket_view db r = Inr v \<Longrightarrow> db_b_id v = bk_id r \<and> db_b_name v = bk_name r \<and>
     db_b_date_created v = bk_created r"
  by (auto simp: bucket_view_def Let_def bind_sum_Inr_iff)

lemma sql_fetch_bucket_eq:
  assumes inv: "db_inv db"
  shows "sql_fetch_bucket n db = traverse (bucket_view db) (option_list (row_map bk_name (tb_bucket db) n))"
  using filter_key_eq [OF db_invD(2) [OF inv], of n]
  by (simp add: sql_fetch_bucket_def option_list_def)

lemma sql_create_bucket_Inr:
  assumes inv: "db_inv db" and ok: "sql_create_bucket i now n db = Inr (rows, db')"
  shows "rows = [\<lparr>db_b_id = i, db_b_name = n, db_b_date_created = now, db_b_size = 0, db_b_space_used = 0\<rparr>]"
    and "db' = db\<lparr>tb_bucket := tb_bucket db @ [\<lparr>bk_id = i, bk_name = n, bk_created = now\<rparr>]\<rparr>"
    and "i \<notin> bk_id ` set (tb_bucket db)" and "n \<notin> bk_name ` set (tb_bucket db)" and "db_inv db'"
proof -
  let ?r = "\<lparr>bk_id = i, bk_name = n, bk_created = now\<rparr>"
  have ins: "insert_bucket i now n db = Inr db'" and fetch: "sql_fetch_bucket n db' = Inr rows"
    using ok by (auto simp: sql_create_bucket_def bind_sum_Inr_iff)
  show db': "db' = db\<lparr>tb_bucket := tb_bucket db @ [?r]\<rparr>"
    and i: "i \<notin> bk_id ` set (tb_bucket db)" and n: "n \<notin> bk_name ` set (tb_bucket db)"
    using ins by (auto simp: insert_bucket_def split: if_splits)
  show inv': "db_inv db'" using insert_bucket_inv [OF inv ins] .
  have "bucket_links db' i = []"
    using i db_inv_link_bucket [OF inv] by (force simp: db' bucket_links_def filter_empty_conv)
  then have "members db' i = {}" by (simp add: members_eq)
  then have "bucket_view db' ?r = Inr \<lparr>db_b_id = i, db_b_name = n, db_b_date_created = now,
      db_b_size = 0, db_b_space_used = 0\<rparr>"
    by (simp add: bucket_view_eq [OF inv'] total_size_def)
  moreover have "row_map bk_name (tb_bucket db') n = Some ?r"
    using n by (simp add: db' row_map_append_new)
  ultimately show "rows = [\<lparr>db_b_id = i, db_b_name = n, db_b_date_created = now, db_b_size = 0,
      db_b_space_used = 0\<rparr>]"
    using fetch by (simp add: sql_fetch_bucket_eq [OF inv'])
qed

lemma sql_create_bucket_Inl_iff:
  assumes inv: "db_inv db"
  shows "sql_create_bucket i now n db = Inl e \<longleftrightarrow> e = Unique_violation \<and>
    (i \<in> bk_id ` set (tb_bucket db) \<or> n \<in> bk_name ` set (tb_bucket db))"
proof (cases "i \<in> bk_id ` set (tb_bucket db) \<or> n \<in> bk_name ` set (tb_bucket db)")
  case True
  then show ?thesis by (auto simp: sql_create_bucket_def insert_bucket_def)
next
  case False
  let ?db' = "db\<lparr>tb_bucket := tb_bucket db @ [\<lparr>bk_id = i, bk_name = n, bk_created = now\<rparr>]\<rparr>"
  have ins: "insert_bucket i now n db = Inr ?db'" using False by (simp add: insert_bucket_def)
  have inv': "db_inv ?db'" using insert_bucket_inv [OF inv ins] .
  have "bucket_links ?db' i = []"
    using False db_inv_link_bucket [OF inv] by (force simp: bucket_links_def filter_empty_conv)
  then have "members ?db' i = {}" by (simp add: members_eq)
  then have "\<exists>rows. sql_fetch_bucket n ?db' = Inr rows"
    using False by (simp add: sql_fetch_bucket_eq [OF inv'] row_map_append_new
        bucket_view_eq [OF inv'] total_size_def)
  then show ?thesis using False ins by (auto simp: sql_create_bucket_def)
qed

lemma sql_remove_bucket_entry:
  assumes inv: "db_inv db"
  shows "entry (sql_remove_bucket b db) b' x = (if b' = b then None else entry db b' x)"
proof -
  have links: "filter (\<lambda>l. ln_bucket l \<notin> bk_id ` {r \<in> set (tb_bucket db). bk_id r = b}) (tb_bucket_object db) =
      filter (\<lambda>l. \<not> ln_bucket l = b) (tb_bucket_object db)"
    using db_inv_link_bucket [OF inv] by (intro filter_cong) auto
  then have "entry (sql_remove_bucket b db) b' x = entry (delete_links (\<lambda>l. ln_bucket l = b) db) b' x"
    by (simp add: sql_remove_bucket_def delete_buckets_def delete_links_def Let_def entry_def object_of_def)
  then show ?thesis
    using delete_links_entry [where P = "\<lambda>b' x. b' = b"] by simp
qed

lemma sql_remove_bucket_frame [simp]:
  "tb_object (sql_remove_bucket b db) = tb_object db"
  "tb_object_error (sql_remove_bucket b db) = tb_object_error db"
  "tb_bucket (sql_remove_bucket b db) = filter (\<lambda>r. bk_id r \<noteq> b) (tb_bucket db)"
  by (simp_all add: sql_remove_bucket_def) (simp add: delete_buckets_def Let_def)

lemma sql_remove_bucket_inv [inv_intros]: "db_inv db \<Longrightarrow> db_inv (sql_remove_bucket b db)"
  by (simp add: sql_remove_bucket_def delete_buckets_inv)

lemma sql_rename_bucket_inv [inv_intros]:
  "db_inv db \<Longrightarrow> sql_rename_bucket b n db = Inr db' \<Longrightarrow> db_inv db'"
  unfolding sql_rename_bucket_def by (rule update_bucket_name_inv)

lemma sql_rename_bucket_frame:
  assumes "sql_rename_bucket b n db = Inr db'"
  shows "tb_object db' = tb_object db" "tb_bucket_object db' = tb_bucket_object db"
    "tb_object_error db' = tb_object_error db" "tb_bucket db' = map (rename_row b n) (tb_bucket db)"
  using assms by (auto simp: sql_rename_bucket_def update_bucket_name_def split: if_splits)

section \<open>Pruning\<close>

text \<open>\<open>referenced db\<close>: the objects some bucket lists.\<close>

definition referenced :: "database \<Rightarrow> uuid set" where
  "referenced db = ln_object ` set (tb_bucket_object db)"

lemma referenced_iff: "x \<in> referenced db \<longleftrightarrow> (\<exists>b. entry db b x \<noteq> None)"
  by (force simp: referenced_def entry_None_iff)

lemma sql_prune_eq:
  "fst (sql_remove_orphan_objects db) =
     map object_view (filter (\<lambda>r. ob_id r \<notin> referenced db) (tb_object db))"
  "tb_object (snd (sql_remove_orphan_objects db)) =
     filter (\<lambda>r. ob_id r \<in> referenced db) (tb_object db)"
  "tb_bucket (snd (sql_remove_orphan_objects db)) = tb_bucket db"
  by (simp_all add: sql_remove_orphan_objects_def Let_def reference_count_zero_iff referenced_def
      delete_objects_def)

lemma sql_prune_links: "tb_bucket_object (snd (sql_remove_orphan_objects db)) = tb_bucket_object db"
  by (auto simp: sql_remove_orphan_objects_def Let_def reference_count_zero_iff delete_objects_def
      rev_image_eqI intro!: filter_True)

lemma sql_prune_inv [inv_intros]: "db_inv db \<Longrightarrow> db_inv (snd (sql_remove_orphan_objects db))"
  by (simp add: sql_remove_orphan_objects_def Let_def delete_objects_inv)

lemma sql_prune_entry:
  assumes inv: "db_inv db"
  shows "entry (snd (sql_remove_orphan_objects db)) = entry db"
proof (intro ext)
  fix b x
  let ?db' = "snd (sql_remove_orphan_objects db)"
  show "entry ?db' b x = entry db b x"
  proof (cases "row_map link_key (tb_bucket_object db) (b, x)")
    case (Some l)
    then have l: "l \<in> set (tb_bucket_object db)" "ln_object l = x"
      by (auto dest: row_map_SomeD)
    have "object_of db x \<in> set (tb_object ?db')"
      using object_of_link [OF inv l(1)] l by (auto simp: sql_prune_eq referenced_def)
    then have "object_of ?db' x = object_of db x"
      using object_of_eq [OF sql_prune_inv [OF inv]] object_of_link(1) [OF inv l(1)] l(2) by metis
    with Some show ?thesis by (simp add: entry_def sql_prune_links)
  qed (simp add: entry_def sql_prune_links)
qed

section \<open>Messages\<close>

definition message :: "database \<Rightarrow> uuid \<Rightarrow> string option" where
  "message db x = map_option er_message (row_map er_object (tb_object_error db) x)"

text \<open>The reference reading of an update: an empty text clears, another text replaces.\<close>

fun apply_records :: "object_error list \<Rightarrow> (uuid \<Rightarrow> string option) \<Rightarrow> uuid \<Rightarrow> string option" where
  "apply_records [] m = m"
| "apply_records (e # es) m =
     apply_records es (m(oe_id e := (if oe_message e = [] then None else Some (oe_message e))))"

lemma apply_records_other: "x \<notin> oe_id ` set es \<Longrightarrow> apply_records es m x = m x"
  by (induction es arbitrary: m) auto

lemma apply_records_member:
  assumes "distinct (map oe_id es)" and "e \<in> set es"
  shows "apply_records es m (oe_id e) = (if oe_message e = [] then None else Some (oe_message e))"
  using assms
proof (induction es arbitrary: m)
  case (Cons a es)
  show ?case
  proof (cases "e = a")
    case True
    then have "oe_id e \<notin> oe_id ` set es" using Cons.prems by auto
    then show ?thesis by (simp add: apply_records_other True)
  next
    case False
    then show ?thesis using Cons by auto
  qed
qed simp

lemma foldl_upsert_message:
  assumes "distinct (map er_object es)"
  shows "map_option er_message (row_map er_object (foldl upsert_error rows es) x) =
    (case row_map er_object es x of Some e \<Rightarrow> Some (er_message e)
     | None \<Rightarrow> map_option er_message (row_map er_object rows x))"
  using assms
proof (induction es arbitrary: rows)
  case (Cons e es)
  then show ?case
    by (cases "x = er_object e")
       (auto simp: upsert_error_map row_map_None_iff [THEN iffD2] split: option.splits)
qed simp

lemma delete_errors_message:
  "message (delete_errors (\<lambda>e. er_object e \<in> X) db) x = (if x \<in> X then None else message db x)"
  by (simp add: message_def delete_errors_def row_map_filter_key [where P = "\<lambda>k. k \<notin> X"]
      restrict_map_def)

definition error_entries :: "object_error list \<Rightarrow> error_row list" where
  "error_entries records = map (\<lambda>e. \<lparr>er_object = oe_id e, er_message = oe_message e\<rparr>)
     (filter (\<lambda>e. oe_message e \<noteq> []) records)"

lemma error_entries_objects:
  "map er_object (error_entries es) = map oe_id (filter (\<lambda>e. oe_message e \<noteq> []) es)"
  by (simp add: error_entries_def comp_def)

lemma error_entries_distinct:
  "distinct (map oe_id es) \<Longrightarrow> distinct (map er_object (error_entries es))"
  by (simp only: error_entries_objects distinct_map_filterI)

lemma update_errors_def2:
  "sql_update_object_errors records db = upsert_errors (error_entries records)
     (delete_errors (\<lambda>e. er_object e \<in> oe_id ` {e \<in> set records. oe_message e = []}) db)"
  by (simp add: sql_update_object_errors_def error_entries_def Let_def)

lemma update_errors_inv [inv_intros]:
  "db_inv db \<Longrightarrow> sql_update_object_errors records db = Inr db' \<Longrightarrow> db_inv db'"
  unfolding update_errors_def2 by (rule upsert_errors_inv [OF delete_errors_inv])

lemma update_errors_frame:
  assumes "sql_update_object_errors records db = Inr db'"
  shows "tb_bucket db' = tb_bucket db" "tb_object db' = tb_object db"
    "tb_bucket_object db' = tb_bucket_object db"
  using assms by (auto simp: update_errors_def2 upsert_errors_def split: if_splits)

lemma update_errors_message:
  assumes dist: "distinct (map oe_id records)"
    and ok: "sql_update_object_errors records db = Inr db'"
  shows "message db' = apply_records records (message db)"
proof
  fix x
  let ?X = "oe_id ` {e \<in> set records. oe_message e = []}"
  let ?db1 = "delete_errors (\<lambda>e. er_object e \<in> ?X) db"
  have db': "tb_object_error db' = foldl upsert_error (tb_object_error ?db1) (error_entries records)"
    using ok by (auto simp: update_errors_def2 upsert_errors_def split: if_splits)
  have eq: "message db' x = (case row_map er_object (error_entries records) x of
      Some e \<Rightarrow> Some (er_message e) | None \<Rightarrow> message ?db1 x)"
    using foldl_upsert_message [OF error_entries_distinct [OF dist], of "tb_object_error ?db1" x]
    by (simp only: message_def db')
  show "message db' x = apply_records records (message db) x"
  proof (cases "x \<in> oe_id ` set records")
    case True
    then obtain e where e: "e \<in> set records" "oe_id e = x" by auto
    show ?thesis
    proof (cases "oe_message e = []")
      case True
      then have "x \<in> ?X" using e by auto
      moreover have "row_map er_object (error_entries records) x = None"
        using e True dist by (auto simp: row_map_None_iff error_entries_def distinct_map dest: inj_onD)
      ultimately show ?thesis
        using eq apply_records_member [OF dist e(1)] True e(2) by (simp add: delete_errors_message)
    next
      case False
      have "row_map er_object (error_entries records) x = Some \<lparr>er_object = x, er_message = oe_message e\<rparr>"
        using e False
        by (simp add: row_map_Some_iff [OF error_entries_distinct [OF dist]])
           (auto simp: error_entries_def)
      then show ?thesis using eq apply_records_member [OF dist e(1)] False e(2) by simp
    qed
  next
    case False
    then have "row_map er_object (error_entries records) x = None" "x \<notin> ?X"
      by (auto simp: row_map_None_iff error_entries_def)
    then show ?thesis using eq False by (simp add: delete_errors_message apply_records_other)
  qed
qed

text \<open>The two ways an update fails.\<close>

lemma update_errors_Inl_iff:
  assumes "distinct (map oe_id records)"
  shows "sql_update_object_errors records db = Inl err \<longleftrightarrow>
    err = Foreign_key_violation \<and>
    (\<exists>e \<in> set records. oe_message e \<noteq> [] \<and> oe_id e \<notin> ob_id ` set (tb_object db))"
proof -
  have "er_object ` set (error_entries records) = oe_id ` {e \<in> set records. oe_message e \<noteq> []}"
    by (auto simp: error_entries_def image_iff)
  then show ?thesis
    using error_entries_distinct [OF assms]
    by (auto simp: update_errors_def2 upsert_errors_def image_subset_iff)
qed

section \<open>The listing of all objects\<close>

lemma get_objects_ids: "map db_o_id (sql_get_objects db) = map ob_id (sort_key ob_id (tb_object db))"
  by (simp add: sql_get_objects_def comp_def)

lemma get_objects_sorted: "sorted (map db_o_id (sql_get_objects db))"
  unfolding get_objects_ids by (rule sorted_sort_key)

lemma get_objects_distinct: "db_inv db \<Longrightarrow> distinct (map db_o_id (sql_get_objects db))"
  unfolding get_objects_ids
  using db_invD(3) [of db] by (simp add: distinct_map)

lemma get_objects_set: "set (sql_get_objects db) = object_view ` set (tb_object db)"
  by (simp add: sql_get_objects_def)

lemma get_objects_length: "length (sql_get_objects db) = length (tb_object db)"
  by (simp add: sql_get_objects_def)

end
