(* ===== verification/Connection.thy ===== *)
theory Connection
  imports Data_Changes
begin

text \<open>
  \<open>src/libcore/db\<close>: the pool's provider prepares the stored functions on every new client, and a
  \<open>connection\<close> calls them by name and turns some database errors into the program's exceptions.
  A call returns the result or the exception with the database it leaves; a statement that raises
  leaves the database as it was.  The interface the object store relies on is the locale
  \<open>object_catalog\<close>, interpreted on the connection in \<open>Connection_Laws\<close>.
\<close>

section \<open>Prepared statements\<close>

record client =
  prepared :: "string list"

definition prepare_fn :: "client \<Rightarrow> string \<Rightarrow> client" where
  "prepare_fn c name = c\<lparr>prepared := prepared c @ [name]\<rparr>"

text \<open>\<open>provider::provide\<close>: connect, then prepare one statement after the other.\<close>

definition provide :: client where
  "provide = foldl prepare_fn \<lparr>prepared = []\<rparr>
     [''add_object'', ''create_bucket'', ''fetch_bucket'', ''fetch_buckets'', ''fetch_buckets_all'',
      ''fetch_store_totals'', ''get_errors'', ''get_object'', ''get_objects'', ''remove_bucket'',
      ''remove_object'', ''remove_objects'', ''remove_orphan_objects'', ''rename_bucket'',
      ''update_object_errors'']"

lemma prepared_provide:
  "prepared provide = [''add_object'', ''create_bucket'', ''fetch_bucket'', ''fetch_buckets'',
      ''fetch_buckets_all'', ''fetch_store_totals'', ''get_errors'', ''get_object'', ''get_objects'',
      ''remove_bucket'', ''remove_object'', ''remove_objects'', ''remove_orphan_objects'',
      ''rename_bucket'', ''update_object_errors'']"
  by (simp add: provide_def prepare_fn_def)

text \<open>
  Executing a prepared statement by name.  \<open>fetch_rows_prepared\<close> returns all rows,
  \<open>fetch_prepared\<close> the row pg++ picks, \<open>query_prepared\<close> nothing.
\<close>

definition execute ::
  "client \<Rightarrow> string \<Rightarrow> (database \<Rightarrow> sqlstate + 'a \<times> database) \<Rightarrow> database \<Rightarrow> (error, 'a, database) outcome" where
  "execute c name f db =
     (if name \<notin> set (prepared c) then (Inl (Sql_error Invalid_sql_statement_name), db)
      else case f db of Inl e \<Rightarrow> (Inl (Sql_error e), db) | Inr (x, db') \<Rightarrow> (Inr x, db'))"

definition fetch_rows_prepared ::
  "client \<Rightarrow> string \<Rightarrow> (database \<Rightarrow> sqlstate + 'a list \<times> database) \<Rightarrow> database \<Rightarrow>
   (error, 'a list, database) outcome" where
  "fetch_rows_prepared c name f db = execute c name f db"

definition fetch_prepared ::
  "libs \<Rightarrow> client \<Rightarrow> string \<Rightarrow> (database \<Rightarrow> sqlstate + 'a list \<times> database) \<Rightarrow> database \<Rightarrow>
   (error, 'a, database) outcome" where
  "fetch_prepared L c name f db =
     and_then (execute c name f db) (\<lambda>rows db'.
       case fetch_row L (length rows) of
         None \<Rightarrow> (Inl Unexpected_data, db')
       | Some i \<Rightarrow> if i < length rows then (Inr (rows ! i), db') else (Inl Unexpected_data, db'))"

definition query_prepared ::
  "client \<Rightarrow> string \<Rightarrow> (database \<Rightarrow> sqlstate + database) \<Rightarrow> database \<Rightarrow> (error, unit, database) outcome" where
  "query_prepared c name f db =
     execute c name (\<lambda>db. bind_sum (f db) (\<lambda>db'. Inr ((), db'))) db"

text \<open>A function that only reads.\<close>

definition reading :: "(database \<Rightarrow> sqlstate + 'a) \<Rightarrow> database \<Rightarrow> sqlstate + 'a \<times> database" where
  "reading f db = bind_sum (f db) (\<lambda>x. Inr (x, db))"

text \<open>A \<open>catch\<close> clause that throws another exception.\<close>

definition rethrow :: "(error \<Rightarrow> error) \<Rightarrow> (error, 'a, 's) outcome \<Rightarrow> (error, 'a, 's) outcome" where
  "rethrow h r = (case r of (Inl e, s) \<Rightarrow> (Inl (h e), s) | (Inr x, s) \<Rightarrow> (Inr x, s))"

lemma rethrow_simps [simp]:
  "rethrow h (Inl e, s) = (Inl (h e), s)" "rethrow h (Inr x, s) = (Inr x, s)"
  by (simp_all add: rethrow_def)

lemma rethrow_snd [simp]: "snd (rethrow h r) = snd r"
  by (cases r; cases "fst r") auto

lemma rethrow_Inr_iff: "rethrow h r = (Inr x, s) \<longleftrightarrow> r = (Inr x, s)"
  by (cases r; cases "fst r") auto

fun unique_to_bucket_violation :: "string \<Rightarrow> error \<Rightarrow> error" where
  "unique_to_bucket_violation name (Sql_error Unique_violation) = Unique_bucket_violation name"
| "unique_to_bucket_violation name e = e"

fun missing_to :: "error \<Rightarrow> error \<Rightarrow> error" where
  "missing_to nf Unexpected_data = nf"
| "missing_to nf e = e"

lemma execute_provided [simp]:
  "name \<in> set (prepared c) \<Longrightarrow> f db = Inl e \<Longrightarrow> execute c name f db = (Inl (Sql_error e), db)"
  "name \<in> set (prepared c) \<Longrightarrow> f db = Inr (x, db') \<Longrightarrow> execute c name f db = (Inr x, db')"
  by (simp_all add: execute_def)

lemma execute_inv:
  assumes "P db" and "\<And>x db'. f db = Inr (x, db') \<Longrightarrow> P db'"
  shows "P (snd (execute c name f db))"
proof (cases "f db")
  case (Inl e)
  with assms(1) show ?thesis by (simp add: execute_def)
next
  case (Inr p)
  obtain x db' where p: "p = (x, db')" by fastforce
  show ?thesis
    using assms(1) assms(2) [OF Inr [unfolded p]] by (simp add: execute_def Inr p)
qed

lemma fetch_prepared_inv:
  assumes "P db" and "\<And>rows db'. f db = Inr (rows, db') \<Longrightarrow> P db'"
  shows "P (snd (fetch_prepared L c name f db))"
  unfolding fetch_prepared_def
  by (rule and_then_inv [where P = P], rule execute_inv [where P = P, OF assms])
     (simp_all split: option.split)

lemma query_prepared_inv:
  assumes "P db" and "\<And>db'. f db = Inr db' \<Longrightarrow> P db'"
  shows "P (snd (query_prepared c name f db))"
  unfolding query_prepared_def
  by (rule execute_inv [where P = P, OF assms(1)]) (auto simp: bind_sum_Inr_iff assms(2))

lemma fetch_prepared_one [step_simps]:
  "fetch_law L \<Longrightarrow> name \<in> set (prepared c) \<Longrightarrow> f db = Inr ([x], db') \<Longrightarrow>
     fetch_prepared L c name f db = (Inr x, db')"
  by (simp add: fetch_prepared_def fetch_law_def)

lemma fetch_prepared_none [step_simps]:
  "fetch_law L \<Longrightarrow> name \<in> set (prepared c) \<Longrightarrow> f db = Inr ([], db') \<Longrightarrow>
     fetch_prepared L c name f db = (Inl Unexpected_data, db')"
  by (simp add: fetch_prepared_def fetch_law_def)

lemma fetch_prepared_error [step_simps]:
  "name \<in> set (prepared c) \<Longrightarrow> f db = Inl e \<Longrightarrow> fetch_prepared L c name f db = (Inl (Sql_error e), db)"
  by (simp add: fetch_prepared_def)

lemma query_prepared_ok [step_simps]:
  "name \<in> set (prepared c) \<Longrightarrow> f db = Inr db' \<Longrightarrow> query_prepared c name f db = (Inr (), db')"
  by (simp add: query_prepared_def)

lemma query_prepared_error [step_simps]:
  "name \<in> set (prepared c) \<Longrightarrow> f db = Inl e \<Longrightarrow> query_prepared c name f db = (Inl (Sql_error e), db)"
  by (simp add: query_prepared_def)

section \<open>Methods of \<open>connection\<close>\<close>

definition quoted :: "string \<Rightarrow> string" where
  "quoted s = [CHR 0x27] @ s @ [CHR 0x27]"

definition bucket_not_found :: "string \<Rightarrow> error" where
  "bucket_not_found name = Not_found (''Bucket '' @ quoted name @ '' not found'')"

definition object_not_found :: "libs \<Rightarrow> uuid \<Rightarrow> uuid \<Rightarrow> error" where
  "object_not_found L b x = Not_found (''bucket ('' @ uuid_text L b @
     '') does not contain object ('' @ uuid_text L x @ '')'')"

definition connection_add_object ::
  "libs \<Rightarrow> client \<Rightarrow> uuid \<Rightarrow> uuid \<Rightarrow> string \<Rightarrow> int64 \<Rightarrow> string \<Rightarrow> string \<Rightarrow> time_point \<Rightarrow> database \<Rightarrow>
   (error, db_object, database) outcome" where
  "connection_add_object L c b i h sz ty sub now =
     fetch_prepared L c ''add_object'' (sql_add_object b i h sz ty sub now)"

definition connection_create_bucket ::
  "libs \<Rightarrow> client \<Rightarrow> uuid \<Rightarrow> time_point \<Rightarrow> string \<Rightarrow> database \<Rightarrow> (error, db_bucket, database) outcome" where
  "connection_create_bucket L c new_id now name db =
     rethrow (unique_to_bucket_violation name)
       (fetch_prepared L c ''create_bucket'' (sql_create_bucket new_id now name) db)"

definition connection_fetch_bucket ::
  "libs \<Rightarrow> client \<Rightarrow> string \<Rightarrow> database \<Rightarrow> (error, db_bucket, database) outcome" where
  "connection_fetch_bucket L c name db =
     rethrow (missing_to (bucket_not_found name))
       (fetch_prepared L c ''fetch_bucket'' (reading (sql_fetch_bucket name)) db)"

definition connection_fetch_buckets_all ::
  "client \<Rightarrow> database \<Rightarrow> (error, db_bucket list, database) outcome" where
  "connection_fetch_buckets_all c =
     fetch_rows_prepared c ''fetch_buckets_all'' (reading sql_fetch_buckets_all)"

definition connection_fetch_buckets ::
  "client \<Rightarrow> string list \<Rightarrow> database \<Rightarrow> (error, db_bucket list, database) outcome" where
  "connection_fetch_buckets c names =
     fetch_rows_prepared c ''fetch_buckets'' (reading (sql_fetch_buckets names))"

definition connection_fetch_store_totals ::
  "libs \<Rightarrow> client \<Rightarrow> database \<Rightarrow> (error, db_store_totals, database) outcome" where
  "connection_fetch_store_totals L c =
     fetch_prepared L c ''fetch_store_totals'' (reading sql_fetch_store_totals)"

definition connection_get_errors ::
  "client \<Rightarrow> database \<Rightarrow> (error, object_error list, database) outcome" where
  "connection_get_errors c =
     fetch_rows_prepared c ''get_errors'' (reading (\<lambda>db. Inr (sql_get_errors db)))"

definition connection_get_object ::
  "libs \<Rightarrow> client \<Rightarrow> uuid \<Rightarrow> uuid \<Rightarrow> database \<Rightarrow> (error, db_object, database) outcome" where
  "connection_get_object L c b x db =
     rethrow (missing_to (object_not_found L b x))
       (fetch_prepared L c ''get_object'' (reading (\<lambda>db. Inr (sql_get_object b x db))) db)"

definition connection_remove_bucket ::
  "client \<Rightarrow> uuid \<Rightarrow> database \<Rightarrow> (error, unit, database) outcome" where
  "connection_remove_bucket c b =
     query_prepared c ''remove_bucket'' (\<lambda>db. Inr (sql_remove_bucket b db))"

definition connection_remove_object ::
  "libs \<Rightarrow> client \<Rightarrow> uuid \<Rightarrow> uuid \<Rightarrow> database \<Rightarrow> (error, db_object, database) outcome" where
  "connection_remove_object L c b x db =
     rethrow (missing_to (object_not_found L b x))
       (fetch_prepared L c ''remove_object'' (\<lambda>db. Inr (sql_remove_object b x db)) db)"

definition connection_remove_objects ::
  "libs \<Rightarrow> client \<Rightarrow> uuid \<Rightarrow> uuid list \<Rightarrow> database \<Rightarrow> (error, db_remove_result, database) outcome" where
  "connection_remove_objects L c b xs =
     fetch_prepared L c ''remove_objects'' (sql_remove_objects b xs)"

definition connection_remove_orphan_objects ::
  "client \<Rightarrow> database \<Rightarrow> (error, db_object list, database) outcome" where
  "connection_remove_orphan_objects c =
     fetch_rows_prepared c ''remove_orphan_objects'' (\<lambda>db. Inr (sql_remove_orphan_objects db))"

definition connection_rename_bucket ::
  "client \<Rightarrow> uuid \<Rightarrow> string \<Rightarrow> database \<Rightarrow> (error, unit, database) outcome" where
  "connection_rename_bucket c b name db =
     rethrow (unique_to_bucket_violation name)
       (query_prepared c ''rename_bucket'' (sql_rename_bucket b name) db)"

definition connection_update_object_errors ::
  "client \<Rightarrow> object_error list \<Rightarrow> database \<Rightarrow> (error, unit, database) outcome" where
  "connection_update_object_errors c records =
     query_prepared c ''update_object_errors'' (sql_update_object_errors records)"

text \<open>\<open>database::connect\<close>: a connection over a client of the pool.\<close>

definition connect :: client where
  "connect = provide"

lemma prepared_connect [simp]: "prepared connect = prepared provide"
  by (simp add: connect_def)

end
