(* ===== verification/Connection_Laws.thy ===== *)
theory Connection_Laws
  imports Connection
begin

text \<open>
  What the connection's methods do on a database that satisfies the schema, over a client the pool
  has prepared.  The interface the object store relies on (a listing of objects per bucket that can
  be added to, read and removed from) is the locale \<open>object_catalog\<close>; its client lemmas are proved
  from its laws, and it is interpreted on the connection.
\<close>

section \<open>The interface\<close>

locale object_catalog =
  fixes inv :: "'s \<Rightarrow> bool"
    and listing :: "'s \<Rightarrow> uuid \<Rightarrow> uuid \<Rightarrow> 'o option"
    and ident :: "'o \<Rightarrow> uuid"
    and valid :: "'m \<Rightarrow> bool"
    and missing :: "uuid \<Rightarrow> uuid \<Rightarrow> error"
    and add :: "'m \<Rightarrow> uuid \<Rightarrow> uuid \<Rightarrow> 's \<Rightarrow> (error, 'o, 's) outcome"
    and get :: "uuid \<Rightarrow> uuid \<Rightarrow> 's \<Rightarrow> (error, 'o, 's) outcome"
    and remove :: "uuid \<Rightarrow> uuid \<Rightarrow> 's \<Rightarrow> (error, 'o, 's) outcome"
  assumes get_law: "inv s \<Longrightarrow> get b x s =
      (case listing s b x of None \<Rightarrow> (Inl (missing b x), s) | Some e \<Rightarrow> (Inr e, s))"
    and remove_law: "inv s \<Longrightarrow> fst (remove b x s) =
      (case listing s b x of None \<Rightarrow> Inl (missing b x) | Some e \<Rightarrow> Inr e)"
    and remove_inv: "inv s \<Longrightarrow> inv (snd (remove b x s))"
    and remove_listing: "inv s \<Longrightarrow>
      listing (snd (remove b x s)) = (listing s)(b := (listing s b)(x := None))"
    and add_law: "inv s \<Longrightarrow> valid m \<Longrightarrow> add m b i s = (Inr e, s') \<Longrightarrow>
      inv s' \<and> listing s' = (listing s)(b := (listing s b)(ident e \<mapsto> e))"
    and add_again: "inv s \<Longrightarrow> valid m \<Longrightarrow> add m b i s = (Inr e, s') \<Longrightarrow> add m b j s' = (Inr e, s')"
begin

lemma get_after_add:
  assumes "inv s" "valid m" "add m b i s = (Inr e, s')"
  shows "get b (ident e) s' = (Inr e, s')"
  using add_law [OF assms] by (simp add: get_law)

lemma remove_after_add:
  assumes "inv s" "valid m" "add m b i s = (Inr e, s')"
  shows "fst (remove b (ident e) s') = Inr e"
  using add_law [OF assms] by (simp add: remove_law)

lemma get_after_remove:
  assumes "inv s" shows "fst (get b x (snd (remove b x s))) = Inl (missing b x)"
  using assms by (simp add: get_law remove_inv remove_listing)

lemma remove_twice:
  assumes "inv s" shows "fst (remove b x (snd (remove b x s))) = Inl (missing b x)"
  using assms by (simp add: remove_law remove_inv remove_listing)

lemma add_remove_restores:
  assumes "inv s" "valid m" "add m b i s = (Inr e, s')" "listing s b (ident e) = None"
  shows "listing (snd (remove b (ident e) s')) = listing s"
  using add_law [OF assms(1-3)] assms(4) by (auto simp: remove_listing fun_eq_iff)

lemma add_keeps_others:
  assumes "inv s" "valid m" "add m b i s = (Inr e, s')" "(b', x) \<noteq> (b, ident e)"
  shows "fst (get b' x s') = fst (get b' x s)"
  using add_law [OF assms(1-3)] assms(1,4) by (auto simp: get_law split: option.splits)

text \<open>The life of an object in a bucket: added, added again, removed, and gone.\<close>

lemma addition_removal:
  assumes "inv s" "valid m" "add m b i s = (Inr e, s')"
  shows "add m b j s' = (Inr e, s')" and "get b (ident e) s' = (Inr e, s')"
    and "fst (remove b (ident e) s') = Inr e"
    and "fst (remove b (ident e) (snd (remove b (ident e) s'))) = Inl (missing b (ident e))"
  using add_again [OF assms] get_after_add [OF assms] remove_after_add [OF assms]
    remove_twice add_law [OF assms] by blast+

end

section \<open>The connection's methods\<close>

lemma sql_add_object_again:
  assumes inv: "db_inv db" and sz: "is_int64 sz"
    and ok: "sql_add_object b i h sz ty sub now db = Inr (rows, db')"
  shows "sql_add_object b j h sz' ty' sub' now' db' = Inr (rows, db')"
proof (rule sql_add_object_Inr [OF inv sz ok])
  fix x db1 e
  assume c: "sql_create_object i h sz ty sub now db = (Some x, db1)"
    and l: "insert_link b (Some x) now db1 = Inr db'" and rows: "rows = [e]"
    and e: "entry db' b x = Some e" and inv': "db_inv db'"
  obtain r where r: "r \<in> set (tb_object db')" "ob_id r = x" "ob_hash r = h"
    using create_object_Some(1) [OF inv c] insert_link_frame(2) [OF l] by auto
  have "sql_create_object j h sz' ty' sub' now' db' = (Some x, db')"
    using create_object_known [OF inv' r(1,3)] r(2) by simp
  moreover have "insert_link b (Some x) now' db' = Inr db'"
    using e entry_None_iff [of db' b x] by (simp add: insert_link_def)
  ultimately show ?thesis
    using contents_of_hash [OF inv' r(1,3,2), of b] e rows by (simp add: sql_add_object_def)
qed

lemma connection_add_object_cases:
  assumes law: "fetch_law L" and inv: "db_inv db" and sz: "is_int64 sz"
  shows "connection_add_object L connect b i h sz ty sub now db =
    (case sql_add_object b i h sz ty sub now db of
       Inl e \<Rightarrow> (Inl (Sql_error e), db)
     | Inr (rows, db') \<Rightarrow> (Inr (hd rows), db'))"
proof (cases "sql_add_object b i h sz ty sub now db")
  case (Inl e)
  then show ?thesis by (simp add: connection_add_object_def step_simps prepared_provide)
next
  case (Inr p)
  obtain rows db' where p: "p = (rows, db')" by fastforce
  have "\<exists>e. rows = [e]" using sql_add_object_Inr [OF inv sz Inr [unfolded p]] by metis
  then show ?thesis using law Inr p by (auto simp: connection_add_object_def step_simps prepared_provide)
qed

lemma connection_get_object_eq [step_simps]:
  assumes "fetch_law L" and "db_inv db"
  shows "connection_get_object L connect b x db =
    (case entry db b x of None \<Rightarrow> (Inl (object_not_found L b x), db) | Some e \<Rightarrow> (Inr e, db))"
  using assms
  by (cases "entry db b x")
     (simp_all add: connection_get_object_def step_simps prepared_provide reading_def sql_get_object_eq)

lemma connection_remove_object_eq [step_simps]:
  assumes "fetch_law L" and "db_inv db"
  shows "connection_remove_object L connect b x db =
    (case entry db b x of None \<Rightarrow> Inl (object_not_found L b x) | Some e \<Rightarrow> Inr e,
     snd (sql_remove_object b x db))"
proof -
  obtain rows db' where p: "sql_remove_object b x db = (rows, db')" by fastforce
  then have "rows = option_list (entry db b x)" using sql_remove_object_eq(1) [OF assms(2)] by (metis fst_conv)
  with p assms(1) show ?thesis
    by (cases "entry db b x")
       (simp_all add: connection_remove_object_def step_simps prepared_provide)
qed

type_synonym add_args = "string \<times> int64 \<times> string \<times> string \<times> time_point"

definition catalog_inv :: "libs \<Rightarrow> database \<Rightarrow> bool" where
  "catalog_inv L db \<longleftrightarrow> fetch_law L \<and> db_inv db"

definition catalog_add ::
  "libs \<Rightarrow> add_args \<Rightarrow> uuid \<Rightarrow> uuid \<Rightarrow> database \<Rightarrow> (error, db_object, database) outcome" where
  "catalog_add L m b i = (case m of (h, sz, ty, sub, now) \<Rightarrow>
     connection_add_object L connect b i h sz ty sub now)"

interpretation catalog: object_catalog "catalog_inv L" entry db_o_id "\<lambda>(h, sz, r). is_int64 sz"
    "object_not_found L" "catalog_add L" "connection_get_object L connect" "connection_remove_object L connect"
  for L
proof (unfold_locales, goal_cases)
  case (5 s m b i e s')
  obtain h sz ty sub now where m: "m = (h, sz, ty, sub, now)" by (metis prod_cases5)
  have inv: "fetch_law L" "db_inv s" "is_int64 sz" using 5 m by (auto simp: catalog_inv_def)
  obtain rows where ok: "sql_add_object b i h sz ty sub now s = Inr (rows, s')" and e: "e = hd rows"
    using 5(3) m inv by (auto simp: catalog_add_def connection_add_object_cases split: sum.splits)
  obtain x where x: "rows = [e]" "db_o_id e = x" "entry s' b x = Some e" "db_inv s'"
    using sql_add_object_Inr [OF inv(2,3) ok] e by (metis list.sel(1))
  have "entry s' b' x' = ((entry s)(b := (entry s b)(db_o_id e \<mapsto> e))) b' x'" for b' x'
    using sql_add_object_entry [OF inv(2,3), of b i h ty sub now e s' b' x'] ok x by auto
  with x inv show ?case by (simp add: catalog_inv_def fun_eq_iff)
next
  case (6 s m b i e s' j)
  obtain h sz ty sub now where m: "m = (h, sz, ty, sub, now)" by (metis prod_cases5)
  have inv: "fetch_law L" "db_inv s" "is_int64 sz" using 6 m by (auto simp: catalog_inv_def)
  obtain rows where ok: "sql_add_object b i h sz ty sub now s = Inr (rows, s')" and e: "e = hd rows"
    using 6(3) m inv by (auto simp: catalog_add_def connection_add_object_cases split: sum.splits)
  have "db_inv s'" using sql_add_object_inv [OF inv(2,3) ok] .
  then show ?case
    using sql_add_object_again [OF inv(2,3) ok] inv m e
    by (simp add: catalog_add_def connection_add_object_cases)
qed (auto simp: catalog_inv_def step_simps sql_remove_object_eq sql_remove_object_inv
     split: option.splits)

section \<open>Every method preserves the schema's constraints\<close>

lemma reading_Inr: "reading f db = Inr (x, db') \<longleftrightarrow> f db = Inr x \<and> db' = db"
  by (auto simp: reading_def bind_sum_Inr_iff)

lemma connection_reads [frame_simps, simp]:
  "snd (connection_fetch_bucket L c n db) = db"
  "snd (connection_fetch_buckets_all c db) = db"
  "snd (connection_fetch_buckets c ns db) = db"
  "snd (connection_fetch_store_totals L c db) = db"
  "snd (connection_get_errors c db) = db"
  "snd (connection_get_object L c b x db) = db"
  unfolding connection_fetch_bucket_def connection_fetch_buckets_all_def connection_fetch_buckets_def
    connection_fetch_store_totals_def connection_get_errors_def connection_get_object_def
    fetch_rows_prepared_def rethrow_snd
  by (rule fetch_prepared_inv [where P = "\<lambda>s. s = db"] execute_inv [where P = "\<lambda>s. s = db"];
      auto simp: reading_Inr)+

lemma connection_inv [inv_intros]:
  assumes inv: "db_inv db"
  shows "is_int64 sz \<Longrightarrow> db_inv (snd (connection_add_object L c b i h sz ty sub now db))"
    and "db_inv (snd (connection_create_bucket L c i now n db))"
    and "db_inv (snd (connection_remove_bucket c b db))"
    and "db_inv (snd (connection_remove_object L c b x db))"
    and "db_inv (snd (connection_remove_objects L c b xs db))"
    and "db_inv (snd (connection_remove_orphan_objects c db))"
    and "db_inv (snd (connection_rename_bucket c b n db))"
    and "db_inv (snd (connection_update_object_errors c es db))"
proof -
  show "is_int64 sz \<Longrightarrow> db_inv (snd (connection_add_object L c b i h sz ty sub now db))"
    unfolding connection_add_object_def
    by (rule fetch_prepared_inv [where P = db_inv, OF inv]) (rule sql_add_object_inv [OF inv])
  show "db_inv (snd (connection_create_bucket L c i now n db))"
    unfolding connection_create_bucket_def rethrow_snd
    by (rule fetch_prepared_inv [where P = db_inv, OF inv]) (rule sql_create_bucket_Inr(5) [OF inv])
  show "db_inv (snd (connection_remove_bucket c b db))"
    unfolding connection_remove_bucket_def
    by (rule query_prepared_inv [where P = db_inv, OF inv]) (auto simp: sql_remove_bucket_inv inv)
  show "db_inv (snd (connection_remove_object L c b x db))"
    unfolding connection_remove_object_def rethrow_snd
    by (rule fetch_prepared_inv [where P = db_inv, OF inv]) (use sql_remove_object_inv [OF inv, of b x] in auto)
  show "db_inv (snd (connection_remove_objects L c b xs db))"
    unfolding connection_remove_objects_def
    by (rule fetch_prepared_inv [where P = db_inv, OF inv]) (rule sql_remove_objects_inv [OF inv])
  show "db_inv (snd (connection_remove_orphan_objects c db))"
    unfolding connection_remove_orphan_objects_def fetch_rows_prepared_def
    by (rule execute_inv [where P = db_inv, OF inv]) (use sql_prune_inv [OF inv] in auto)
  show "db_inv (snd (connection_rename_bucket c b n db))"
    unfolding connection_rename_bucket_def rethrow_snd
    by (rule query_prepared_inv [where P = db_inv, OF inv]) (rule sql_rename_bucket_inv [OF inv])
  show "db_inv (snd (connection_update_object_errors c es db))"
    unfolding connection_update_object_errors_def
    by (rule query_prepared_inv [where P = db_inv, OF inv]) (rule update_errors_inv [OF inv])
qed

end
