(* ===== verification/Filesystem.thy ===== *)
theory Filesystem
  imports Model_Types
begin

text \<open>
  \<open>src/libcore/fs\<close>: where parts and objects are kept on disk.  A path is the sequence of its
  elements, a disk the files and directories it has; the calls of \<open>std::filesystem\<close> the code makes
  are modelled for regular files and directories (no links, no input/output faults), with the
  errors that follow from the disk's contents.  What the object store relies on is the locale
  \<open>blob_store\<close>, interpreted in \<open>Filesystem_Laws\<close>.
\<close>

unbundle bit_operations_syntax

section \<open>Disk\<close>

type_synonym path = "string list"
type_synonym mode = "32 word"
type_synonym blob = "byte list"

record disk_file =
  f_content :: blob
  f_mode :: mode

record disk =
  d_files :: "path \<rightharpoonup> disk_file"
  d_dirs :: "path set"
  d_umask :: mode

definition path_div :: "path \<Rightarrow> string \<Rightarrow> path" where
  "path_div p s = p @ [s]"

definition is_file :: "disk \<Rightarrow> path \<Rightarrow> bool" where
  "is_file d p \<longleftrightarrow> d_files d p \<noteq> None"

definition exists_path :: "disk \<Rightarrow> path \<Rightarrow> bool" where
  "exists_path d p \<longleftrightarrow> is_file d p \<or> p \<in> d_dirs d"

text \<open>\<open>std::filesystem::create_directories\<close>: the path and all its parents; \<open>true\<close> if it was missing.\<close>

definition std_create_directories :: "path \<Rightarrow> disk \<Rightarrow> (error, bool, disk) outcome" where
  "std_create_directories p d =
     (if \<exists>q \<in> set (prefixes p). is_file d q then (Inl (File_error Not_a_directory), d)
      else (Inr (p \<notin> d_dirs d), d\<lparr>d_dirs := d_dirs d \<union> set (prefixes p)\<rparr>))"

text \<open>\<open>std::filesystem::rename\<close> of a file; it replaces a file at the destination.\<close>

definition std_rename :: "path \<Rightarrow> path \<Rightarrow> disk \<Rightarrow> (error, unit, disk) outcome" where
  "std_rename src dst d =
     (case d_files d src of
        None \<Rightarrow> (Inl (File_error No_such_file), d)
      | Some f \<Rightarrow>
          if dst \<in> d_dirs d then (Inl (File_error Is_a_directory), d)
          else if butlast dst \<notin> d_dirs d then (Inl (File_error No_such_file), d)
          else (Inr (), d\<lparr>d_files := (d_files d)(src := None, dst \<mapsto> f)\<rparr>))"

text \<open>\<open>std::filesystem::copy_file\<close> with \<open>skip_existing\<close>: \<open>false\<close> if the destination is there.\<close>

definition std_copy_file :: "path \<Rightarrow> path \<Rightarrow> disk \<Rightarrow> (error, bool, disk) outcome" where
  "std_copy_file src dst d =
     (case d_files d src of
        None \<Rightarrow> (Inl (File_error No_such_file), d)
      | Some f \<Rightarrow>
          if dst \<in> d_dirs d then (Inl (File_error Is_a_directory), d)
          else if is_file d dst then (Inr False, d)
          else if butlast dst \<notin> d_dirs d then (Inl (File_error No_such_file), d)
          else (Inr True, d\<lparr>d_files := (d_files d)(dst \<mapsto> f)\<rparr>))"

text \<open>\<open>std::filesystem::permissions\<close>, which replaces the mode.\<close>

definition std_permissions :: "path \<Rightarrow> mode \<Rightarrow> disk \<Rightarrow> (error, unit, disk) outcome" where
  "std_permissions p m d =
     (case d_files d p of
        None \<Rightarrow> (Inl (File_error No_such_file), d)
      | Some f \<Rightarrow> (Inr (), d\<lparr>d_files := (d_files d)(p \<mapsto> f\<lparr>f_mode := m\<rparr>)\<rparr>))"

text \<open>\<open>std::filesystem::remove\<close> of a file; \<open>false\<close> if there is nothing.\<close>

definition std_remove :: "path \<Rightarrow> disk \<Rightarrow> (error, bool, disk) outcome" where
  "std_remove p d =
     (if is_file d p then (Inr True, d\<lparr>d_files := (d_files d)(p := None)\<rparr>)
      else if p \<in> d_dirs d then (Inl (File_error Is_a_directory), d)
      else (Inr False, d))"

text \<open>\<open>std::string_view::substr\<close> with positions and counts of type \<open>std::size_t\<close>.\<close>

definition substr :: "string \<Rightarrow> uint64 \<Rightarrow> uint64 \<Rightarrow> error + string" where
  "substr s pos n =
     (if length s < unat pos then Inl Out_of_range else Inr (take (unat n) (drop (unat pos) s)))"

definition npos :: uint64 where
  "npos = - 1"

text \<open>\<open>std::string::find\<close> of one character.\<close>

fun find_index :: "char \<Rightarrow> string \<Rightarrow> nat option" where
  "find_index c [] = None"
| "find_index c (x # xs) = (if x = c then Some 0 else map_option Suc (find_index c xs))"

definition find_char :: "string \<Rightarrow> char \<Rightarrow> uint64" where
  "find_char s c = (case find_index c s of None \<Rightarrow> npos | Some i \<Rightarrow> of_nat i)"

section \<open>The class \<open>filesystem\<close>\<close>

record filesystem =
  fs_objects :: path
  fs_parts :: path

record mime =
  m_type :: string
  m_subtype :: string

definition object_permissions :: mode where
  "object_permissions = 0x100 OR 0x80 OR 0x20"

definition create_directories :: "path \<Rightarrow> disk \<Rightarrow> (error, unit, disk) outcome" where
  "create_directories p d = and_then (std_create_directories p d) (\<lambda>_ d. (Inr (), d))"

text \<open>The constructor: both directories under the home directory.\<close>

definition filesystem_new :: "path \<Rightarrow> disk \<Rightarrow> (error, filesystem, disk) outcome" where
  "filesystem_new home d =
     (let fs = \<lparr>fs_objects = path_div home ''objects'', fs_parts = path_div home ''parts''\<rparr>
      in and_then (create_directories (fs_objects fs) d) (\<lambda>_ d.
         and_then (create_directories (fs_parts fs) d) (\<lambda>_ d. (Inr fs, d))))"

definition object_path :: "filesystem \<Rightarrow> string \<Rightarrow> error + path" where
  "object_path fs i =
     bind_sum (substr i 0 2) (\<lambda>a. bind_sum (substr i 2 2) (\<lambda>b.
       Inr (path_div (path_div (path_div (fs_objects fs) a) b) i)))"

definition part_path :: "filesystem \<Rightarrow> string \<Rightarrow> path" where
  "part_path fs i = path_div (fs_parts fs) i"

text \<open>The private \<open>make_object\<close> with an action that puts the file in place.\<close>

definition make_object_with ::
  "filesystem \<Rightarrow> string \<Rightarrow> (path \<Rightarrow> disk \<Rightarrow> (error, unit, disk) outcome) \<Rightarrow> disk \<Rightarrow>
   (error, unit, disk) outcome" where
  "make_object_with fs i action d =
     (case object_path fs i of
        Inl e \<Rightarrow> (Inl e, d)
      | Inr p \<Rightarrow>
          and_then (create_directories (butlast p) d) (\<lambda>_ d.
          and_then (action p d) (\<lambda>_ d. std_permissions p object_permissions d)))"

definition make_object :: "filesystem \<Rightarrow> string \<Rightarrow> disk \<Rightarrow> (error, unit, disk) outcome" where
  "make_object fs i = make_object_with fs i (\<lambda>dest. std_rename (part_path fs i) dest)"

definition copy_object :: "filesystem \<Rightarrow> path \<Rightarrow> string \<Rightarrow> disk \<Rightarrow> (error, unit, disk) outcome" where
  "copy_object fs src i = make_object_with fs i (\<lambda>dest d.
     and_then (std_copy_file src dest d) (\<lambda>_ d. (Inr (), d)))"

definition tolower :: "char \<Rightarrow> char" where
  "tolower c = (if CHR ''A'' \<le> c \<and> c \<le> CHR ''Z'' then char_of (of_char c + 32 :: nat) else c)"

text \<open>\<open>crypto::sha256sum\<close>: CryptoPP's upper-case digits, in lower case.\<close>

definition sha256sum :: "libs \<Rightarrow> blob \<Rightarrow> string" where
  "sha256sum L buffer = map tolower (hex_sha256 L buffer)"

text \<open>Reading a file that is not there throws, and so does reading a directory.\<close>

definition read_file :: "disk \<Rightarrow> path \<Rightarrow> error + disk_file" where
  "read_file d p =
     (case d_files d p of
        Some f \<Rightarrow> Inr f
      | None \<Rightarrow> Inl (File_error (if p \<in> d_dirs d then Is_a_directory else No_such_file)))"

definition hash_buffer :: "libs \<Rightarrow> blob \<Rightarrow> string" where
  "hash_buffer L buffer = sha256sum L buffer"

definition hash_file :: "libs \<Rightarrow> disk \<Rightarrow> path \<Rightarrow> error + string" where
  "hash_file L d p = bind_sum (read_file d p) (\<lambda>f. Inr (sha256sum L (f_content f)))"

text \<open>Splitting the MIME type at the first slash; without one, \<open>index + 1\<close> wraps around to 0.\<close>

definition split_mime :: "string \<Rightarrow> error + mime" where
  "split_mime ty =
     (let index = find_char ty CHR ''/''
      in bind_sum (substr ty 0 index) (\<lambda>a. bind_sum (substr ty (index + 1) npos) (\<lambda>b.
           Inr \<lparr>m_type = a, m_subtype = b\<rparr>)))"

definition file_mime_type :: "libs \<Rightarrow> disk \<Rightarrow> path \<Rightarrow> error + mime" where
  "file_mime_type L d p = bind_sum (read_file d p) (\<lambda>f. split_mime (magic_file L (f_content f)))"

definition file_size :: "disk \<Rightarrow> path \<Rightarrow> error + uint64" where
  "file_size d p = bind_sum (read_file d p) (\<lambda>f. Inr (of_nat (length (f_content f))))"

text \<open>An open descriptor, as the content it reads.\<close>

definition open_object :: "filesystem \<Rightarrow> string \<Rightarrow> disk \<Rightarrow> error + blob" where
  "open_object fs i d =
     bind_sum (object_path fs i) (\<lambda>p. bind_sum (read_file d p) (\<lambda>f. Inr (f_content f)))"

definition remove_object_file :: "filesystem \<Rightarrow> string \<Rightarrow> disk \<Rightarrow> (error, unit, disk) outcome" where
  "remove_object_file fs i d =
     (case object_path fs i of
        Inl e \<Rightarrow> (Inl e, d)
      | Inr p \<Rightarrow> and_then (std_remove p d) (\<lambda>_ d. (Inr (), d)))"

definition remove_part :: "filesystem \<Rightarrow> string \<Rightarrow> disk \<Rightarrow> (error, unit, disk) outcome" where
  "remove_part fs i d = and_then (std_remove (part_path fs i) d) (\<lambda>_ d. (Inr (), d))"

section \<open>Parts\<close>

text \<open>
  \<open>get_part\<close> opens an \<open>std::ofstream\<close> for appending, which creates the file; a stream that could
  not be opened ignores writes.  The stream buffers: what has been written is in the file once the
  stream is closed (its destructor).  Here a stream knows its file by its path; \<open>Inodes\<close> has streams that keep
  their file when the path is taken from it, and \<open>Disk_Full\<close> streams that cannot write all they hold.
\<close>

record part =
  pt_id :: uuid
  pt_path :: path
  pt_good :: bool
  pt_buffer :: blob

definition open_append :: "path \<Rightarrow> disk \<Rightarrow> bool \<times> disk" where
  "open_append p d =
     (if is_file d p then (True, d)
      else if p \<in> d_dirs d \<or> butlast p \<notin> d_dirs d then (False, d)
      else (True, d\<lparr>d_files := (d_files d)(p \<mapsto>
              \<lparr>f_content = [], f_mode = 0x1B6 AND NOT (d_umask d)\<rparr>)\<rparr>))"

definition get_part :: "libs \<Rightarrow> filesystem \<Rightarrow> uuid \<Rightarrow> disk \<Rightarrow> part \<times> disk" where
  "get_part L fs i d =
     (let p = part_path fs (uuid_text L i)
      in case open_append p d of (ok, d') \<Rightarrow>
           (\<lparr>pt_id = i, pt_path = p, pt_good = ok, pt_buffer = []\<rparr>, d'))"

definition part_write :: "part \<Rightarrow> blob \<Rightarrow> part" where
  "part_write p data = (if pt_good p then p\<lparr>pt_buffer := pt_buffer p @ data\<rparr> else p)"

definition part_close :: "part \<Rightarrow> disk \<Rightarrow> disk" where
  "part_close p d =
     (if \<not> pt_good p then d
      else case d_files d (pt_path p) of
             None \<Rightarrow> d
           | Some f \<Rightarrow> d\<lparr>d_files := (d_files d)(pt_path p \<mapsto>
                f\<lparr>f_content := f_content f @ pt_buffer p\<rparr>)\<rparr>)"

section \<open>Synchronising\<close>

text \<open>How a child process ended, as \<open>ext::wait_exec\<close> reports it.\<close>

record exit_info =
  ex_code :: int
  ex_status :: int

definition CLD_EXITED :: int where
  "CLD_EXITED = 1"

definition show_int :: "int \<Rightarrow> string" where
  "show_int i = (if i < 0 then ''-'' else '''') @ show_nat (nat \<bar>i\<bar>)"

definition sync_options :: "string list" where
  "sync_options = [''--archive'', ''--delete'']"

definition check_exit :: "string \<Rightarrow> exit_info \<Rightarrow> error + unit" where
  "check_exit program e =
     (if ex_code e \<noteq> CLD_EXITED then Inl (Runtime_error (program @ '' did not exit properly''))
      else if ex_status e \<noteq> 0
      then Inl (Runtime_error (program @ '' exited with code '' @ show_int (ex_status e)))
      else Inr ())"

definition sync_args :: "string \<Rightarrow> string list \<Rightarrow> string \<Rightarrow> string list" where
  "sync_args src options dest = sync_options @ options @ [src] @ [dest]"

definition sync ::
  "(string \<Rightarrow> string list \<Rightarrow> exit_info) \<Rightarrow> string \<Rightarrow> string \<Rightarrow> string list \<Rightarrow> string \<Rightarrow> error + unit" where
  "sync wait_exec src program options dest =
     check_exit program (wait_exec program (sync_args src options dest))"

end
