(* ===== verification/Filesystem_Laws.thy ===== *)
theory Filesystem_Laws
  imports Filesystem
begin

text \<open>
  The layout of the store's directories (\<open>disk_inv\<close>), what each filesystem operation does on it,
  and the interface the object store relies on: the locale \<open>blob_store\<close> keeps contents under
  uuids, staged (a part) or stored (an object).  It is interpreted on the filesystem.
\<close>

section \<open>The interface\<close>

locale blob_store =
  fixes inv :: "'d \<Rightarrow> bool"
    and stored :: "'d \<Rightarrow> uuid \<Rightarrow> blob option"
    and staged :: "'d \<Rightarrow> uuid \<Rightarrow> blob option"
    and commit :: "uuid \<Rightarrow> 'd \<Rightarrow> (error, unit, 'd) outcome"
    and drop_part :: "uuid \<Rightarrow> 'd \<Rightarrow> (error, unit, 'd) outcome"
    and erase :: "uuid \<Rightarrow> 'd \<Rightarrow> (error, unit, 'd) outcome"
    and stage :: "uuid \<Rightarrow> blob list \<Rightarrow> 'd \<Rightarrow> 'd"
  assumes commit_hit: "inv d \<Longrightarrow> staged d i = Some c \<Longrightarrow> \<exists>d'. commit i d = (Inr (), d') \<and> inv d' \<and>
      stored d' = (stored d)(i \<mapsto> c) \<and> staged d' = (staged d)(i := None)"
    and commit_miss: "inv d \<Longrightarrow> staged d i = None \<Longrightarrow> \<exists>e d'. commit i d = (Inl e, d') \<and> inv d' \<and>
      stored d' = stored d \<and> staged d' = staged d"
    and drop_law: "inv d \<Longrightarrow> \<exists>d'. drop_part i d = (Inr (), d') \<and> inv d' \<and>
      stored d' = stored d \<and> staged d' = (staged d)(i := None)"
    and erase_law: "inv d \<Longrightarrow> \<exists>d'. erase i d = (Inr (), d') \<and> inv d' \<and>
      stored d' = (stored d)(i := None) \<and> staged d' = staged d"
    and stage_law: "inv d \<Longrightarrow> inv (stage i cs d) \<and> stored (stage i cs d) = stored d \<and>
      staged (stage i cs d) = (staged d)(i \<mapsto> (case staged d i of None \<Rightarrow> [] | Some c \<Rightarrow> c) @ concat cs)"
begin

lemma commit_inv: "inv d \<Longrightarrow> inv (snd (commit i d))"
  using commit_hit [of d i] commit_miss [of d i] by (cases "staged d i") fastforce+

text \<open>What is staged in pieces and committed is stored as the concatenation of the pieces.\<close>

lemma stage_commit:
  assumes "inv d" and "staged d i = None"
  shows "\<exists>d'. commit i (stage i cs d) = (Inr (), d') \<and> inv d' \<and>
    stored d' = (stored d)(i \<mapsto> concat cs) \<and> staged d' = staged d"
  using stage_law [OF assms(1), of i cs] commit_hit [of "stage i cs d" i "concat cs"] assms(2)
  by (auto simp: fun_upd_idem)

text \<open>A part left behind is continued: staging twice appends.\<close>

lemma stage_twice:
  assumes "inv d"
  shows "staged (stage i cs' (stage i cs d)) i = staged (stage i (cs @ cs') d) i"
  using stage_law [OF assms, of i cs] stage_law [of "stage i cs d" i cs'] stage_law [OF assms, of i "cs @ cs'"]
  by simp

lemma commit_other_stored:
  assumes "inv d" and "j \<noteq> i" shows "stored (snd (commit i d)) j = stored d j"
  using commit_hit [OF assms(1), of i] commit_miss [OF assms(1), of i] assms(2)
  by (cases "staged d i") fastforce+

end

section \<open>Layout of the directories\<close>

definition object_at :: "libs \<Rightarrow> filesystem \<Rightarrow> uuid \<Rightarrow> path" where
  "object_at L fs u = (let t = uuid_text L u in fs_objects fs @ [take 2 t, take 2 (drop 2 t), t])"

definition part_at :: "libs \<Rightarrow> filesystem \<Rightarrow> uuid \<Rightarrow> path" where
  "part_at L fs u = fs_parts fs @ [uuid_text L u]"

definition dirs_inv :: "filesystem \<Rightarrow> disk \<Rightarrow> bool" where
  "dirs_inv fs d \<longleftrightarrow> fs_objects fs \<in> d_dirs d \<and> fs_parts fs \<in> d_dirs d \<and>
     (\<forall>p \<in> d_dirs d. \<forall>q. prefix q p \<longrightarrow> q \<in> d_dirs d) \<and>
     (\<forall>p \<in> d_dirs d. prefix (fs_objects fs) p \<longrightarrow> length p \<le> length (fs_objects fs) + 2) \<and>
     (\<forall>p \<in> d_dirs d. prefix (fs_parts fs) p \<longrightarrow> p = fs_parts fs)"

definition files_inv :: "filesystem \<Rightarrow> disk \<Rightarrow> bool" where
  "files_inv fs d \<longleftrightarrow>
     (\<forall>p. is_file d p \<longrightarrow> p \<notin> d_dirs d \<and>
        (prefix (fs_objects fs) p \<longrightarrow> length p = length (fs_objects fs) + 3))"

definition disk_inv :: "filesystem \<Rightarrow> disk \<Rightarrow> bool" where
  "disk_inv fs d \<longleftrightarrow> dirs_inv fs d \<and> files_inv fs d \<and>
     \<not> prefix (fs_objects fs) (fs_parts fs) \<and> \<not> prefix (fs_parts fs) (fs_objects fs)"

lemma object_path_uuid [step_simps]:
  assumes "uuid_law L"
  shows "object_path fs (uuid_text L u) = Inr (object_at L fs u)"
proof -
  have "length (uuid_text L u) = 36" using assms by (simp add: uuid_law_def)
  then show ?thesis
    by (simp add: object_path_def object_at_def substr_def path_div_def Let_def)
qed

lemma part_path_uuid [step_simps]: "part_path fs (uuid_text L u) = part_at L fs u"
  by (simp add: part_path_def part_at_def path_div_def)

lemma object_at_inj: "uuid_law L \<Longrightarrow> object_at L fs u = object_at L fs v \<longleftrightarrow> u = v"
  by (auto simp: object_at_def Let_def uuid_law_def inj_eq)

lemma part_at_inj: "uuid_law L \<Longrightarrow> part_at L fs u = part_at L fs v \<longleftrightarrow> u = v"
  by (auto simp: part_at_def uuid_law_def inj_eq)

lemma prefix_object_at [simp]: "prefix (fs_objects fs) (object_at L fs u)"
  by (simp add: object_at_def Let_def)

lemma prefix_part_at [simp]: "prefix (fs_parts fs) (part_at L fs u)"
  by (simp add: part_at_def)

lemma length_object_at [simp]: "length (object_at L fs u) = length (fs_objects fs) + 3"
  by (simp add: object_at_def Let_def)

lemma disjoint_trees:
  assumes "disk_inv fs d" and "prefix (fs_objects fs) p" shows "\<not> prefix (fs_parts fs) p"
  using assms prefix_same_cases unfolding disk_inv_def by blast

lemma object_at_not_part:
  "disk_inv fs d \<Longrightarrow> object_at L fs u \<noteq> part_at L fs v"
  using disjoint_trees prefix_object_at prefix_part_at by metis

lemma object_at_not_dir:
  assumes "disk_inv fs d" shows "object_at L fs u \<notin> d_dirs d"
proof
  assume "object_at L fs u \<in> d_dirs d"
  then have "length (object_at L fs u) \<le> length (fs_objects fs) + 2"
    using assms prefix_object_at by (auto simp: disk_inv_def dirs_inv_def)
  then show False by simp
qed

lemma part_at_not_dir:
  assumes "disk_inv fs d" shows "part_at L fs u \<notin> d_dirs d"
proof
  assume "part_at L fs u \<in> d_dirs d"
  then have "part_at L fs u = fs_parts fs"
    using assms prefix_part_at by (auto simp: disk_inv_def dirs_inv_def)
  then show False by (simp add: part_at_def)
qed

lemma butlast_part_at [simp]: "butlast (part_at L fs u) = fs_parts fs"
  by (simp add: part_at_def)

definition shard :: "libs \<Rightarrow> filesystem \<Rightarrow> uuid \<Rightarrow> path" where
  "shard L fs u = butlast (object_at L fs u)"

lemma butlast_object_at [simp]: "butlast (object_at L fs u) = shard L fs u"
  by (simp add: shard_def)

lemma shard_props:
  "prefix (fs_objects fs) (shard L fs u)" "length (shard L fs u) = length (fs_objects fs) + 2"
  by (simp_all add: shard_def object_at_def Let_def butlast_append)

text \<open>The directories of an object can always be created, and that is all that changes.\<close>

lemma shard_prefix_not_file:
  assumes inv: "disk_inv fs d" and q: "prefix q (shard L fs u)"
  shows "\<not> is_file d q"
proof
  assume isf: "is_file d q"
  show False
  proof (cases "prefix (fs_objects fs) q")
    case True
    then have "length q = length (fs_objects fs) + 3"
      using inv isf by (auto simp: disk_inv_def files_inv_def)
    then show False using prefix_length_le [OF q] shard_props(2) [of L fs u] by simp
  next
    case False
    then have "prefix q (fs_objects fs)"
      using prefix_same_cases [OF q shard_props(1)] by auto
    then show False using inv isf by (auto simp: disk_inv_def dirs_inv_def files_inv_def)
  qed
qed

definition with_shard :: "libs \<Rightarrow> filesystem \<Rightarrow> uuid \<Rightarrow> disk \<Rightarrow> disk" where
  "with_shard L fs u d = d\<lparr>d_dirs := d_dirs d \<union> set (prefixes (shard L fs u))\<rparr>"

lemma create_shard [step_simps]:
  "disk_inv fs d \<Longrightarrow>
     create_directories (shard L fs u) d = (Inr (), with_shard L fs u d)"
  using shard_prefix_not_file
  by (auto simp: create_directories_def std_create_directories_def with_shard_def)

lemma with_shard_simps [simp]:
  "d_files (with_shard L fs u d) = d_files d" "shard L fs u \<in> d_dirs (with_shard L fs u d)"
  "is_file (with_shard L fs u d) p = is_file d p"
  by (simp_all add: with_shard_def is_file_def)

lemma with_shard_inv [inv_intros]:
  assumes inv: "disk_inv fs d" shows "disk_inv fs (with_shard L fs u d)"
proof -
  have sub: "q \<in> d_dirs (with_shard L fs u d) \<longleftrightarrow> q \<in> d_dirs d \<or> prefix q (shard L fs u)" for q
    by (auto simp: with_shard_def)
  have len: "prefix q (shard L fs u) \<Longrightarrow> length q \<le> length (fs_objects fs) + 2" for q
    using prefix_length_le shard_props(2) by metis
  have parts: "prefix q (shard L fs u) \<Longrightarrow> prefix (fs_parts fs) q \<Longrightarrow> q = fs_parts fs" for q
    using disjoint_trees [OF inv shard_props(1)] prefix_order.trans by blast
  have old: "fs_objects fs \<in> d_dirs d" "fs_parts fs \<in> d_dirs d"
    "\<And>p q. p \<in> d_dirs d \<Longrightarrow> prefix q p \<Longrightarrow> q \<in> d_dirs d"
    "\<And>p. p \<in> d_dirs d \<Longrightarrow> prefix (fs_objects fs) p \<Longrightarrow> length p \<le> length (fs_objects fs) + 2"
    "\<And>p. p \<in> d_dirs d \<Longrightarrow> prefix (fs_parts fs) p \<Longrightarrow> p = fs_parts fs"
    using inv unfolding disk_inv_def dirs_inv_def by blast+
  have "dirs_inv fs (with_shard L fs u d)"
    unfolding dirs_inv_def
  proof (intro conjI ballI allI impI)
    fix p q assume "p \<in> d_dirs (with_shard L fs u d)" "prefix q p"
    then show "q \<in> d_dirs (with_shard L fs u d)"
      unfolding sub using old(3) prefix_order.trans by blast
  next
    fix p assume "p \<in> d_dirs (with_shard L fs u d)" "prefix (fs_objects fs) p"
    then show "length p \<le> length (fs_objects fs) + 2" unfolding sub using old(4) len by blast
  next
    fix p assume "p \<in> d_dirs (with_shard L fs u d)" "prefix (fs_parts fs) p"
    then show "p = fs_parts fs" unfolding sub using old(5) parts by blast
  qed (simp_all add: sub old(1,2))
  moreover have "files_inv fs (with_shard L fs u d)"
    using inv shard_prefix_not_file [OF inv] unfolding disk_inv_def files_inv_def sub
    by auto
  ultimately show ?thesis using inv by (simp add: disk_inv_def)
qed

text \<open>Changing files keeps the layout when the new files are objects or outside the objects tree.\<close>

lemma files_change_inv:
  assumes inv: "disk_inv fs d" and dirs: "d_dirs d' = d_dirs d"
    and new: "\<And>p. is_file d' p \<Longrightarrow> is_file d p \<or> p \<in> range (object_at L fs) \<or> p \<in> range (part_at L fs)"
  shows "disk_inv fs d'"
proof -
  have "files_inv fs d'"
    unfolding files_inv_def
  proof (intro allI impI)
    fix p assume "is_file d' p"
    with new consider "is_file d p" | u where "p = object_at L fs u" | u where "p = part_at L fs u"
      by blast
    then show "p \<notin> d_dirs d' \<and> (prefix (fs_objects fs) p \<longrightarrow> length p = length (fs_objects fs) + 3)"
    proof cases
      case 1
      then show ?thesis using inv by (simp add: dirs disk_inv_def files_inv_def)
    next
      case 2
      then show ?thesis using object_at_not_dir [OF inv] by (simp add: dirs)
    next
      case 3
      then show ?thesis
        using part_at_not_dir [OF inv] disjoint_trees [OF inv, of p] prefix_part_at [of fs L u]
        by (auto simp: dirs)
    qed
  qed
  then show ?thesis using inv by (simp add: disk_inv_def dirs_inv_def dirs)
qed

section \<open>The operations on the layout\<close>

definition stored :: "libs \<Rightarrow> filesystem \<Rightarrow> disk \<Rightarrow> uuid \<Rightarrow> blob option" where
  "stored L fs d u = map_option f_content (d_files d (object_at L fs u))"

definition staged :: "libs \<Rightarrow> filesystem \<Rightarrow> disk \<Rightarrow> uuid \<Rightarrow> blob option" where
  "staged L fs d u = map_option f_content (d_files d (part_at L fs u))"

definition stored_mode :: "libs \<Rightarrow> filesystem \<Rightarrow> disk \<Rightarrow> uuid \<Rightarrow> mode option" where
  "stored_mode L fs d u = map_option f_mode (d_files d (object_at L fs u))"

lemma make_object_hit:
  assumes law: "uuid_law L" and inv: "disk_inv fs d" and f: "d_files d (part_at L fs i) = Some f"
  shows "make_object fs (uuid_text L i) d =
    (Inr (), (with_shard L fs i d)\<lparr>d_files := (d_files d)(part_at L fs i := None,
       object_at L fs i \<mapsto> f\<lparr>f_mode := object_permissions\<rparr>)\<rparr>)"
  using law inv f object_at_not_dir [OF with_shard_inv [OF inv, of L i], of L i]
    object_at_not_part [OF inv, of L i i]
  by (simp add: make_object_def make_object_with_def step_simps std_rename_def std_permissions_def
      fun_upd_twist)

lemma make_object_miss:
  assumes law: "uuid_law L" and inv: "disk_inv fs d" and f: "d_files d (part_at L fs i) = None"
  shows "make_object fs (uuid_text L i) d =
    (Inl (File_error No_such_file), with_shard L fs i d)"
  using law inv f
  by (simp add: make_object_def make_object_with_def step_simps std_rename_def)

lemma remove_part_eq:
  assumes inv: "disk_inv fs d"
  shows "remove_part fs (uuid_text L i) d = (Inr (), d\<lparr>d_files := (d_files d)(part_at L fs i := None)\<rparr>)"
  using part_at_not_dir [OF inv, of L i]
  by (cases d) (auto simp: remove_part_def std_remove_def step_simps is_file_def fun_upd_idem)

lemma remove_object_file_eq:
  assumes law: "uuid_law L" and inv: "disk_inv fs d"
  shows "remove_object_file fs (uuid_text L i) d =
    (Inr (), d\<lparr>d_files := (d_files d)(object_at L fs i := None)\<rparr>)"
  using law object_at_not_dir [OF inv, of L i]
  by (cases d) (auto simp: remove_object_file_def std_remove_def step_simps is_file_def fun_upd_idem)

lemma open_object_eq:
  assumes law: "uuid_law L" and inv: "disk_inv fs d"
  shows "open_object fs (uuid_text L i) d =
    (case stored L fs d i of None \<Rightarrow> Inl (File_error No_such_file) | Some c \<Rightarrow> Inr c)"
  using law object_at_not_dir [OF inv, of L i]
  by (auto simp: open_object_def read_file_def step_simps stored_def split: option.splits)

text \<open>Writing a part and closing it appends to its file, in the order of the writes.\<close>

definition write_part :: "libs \<Rightarrow> filesystem \<Rightarrow> uuid \<Rightarrow> blob list \<Rightarrow> disk \<Rightarrow> disk" where
  "write_part L fs i chunks d =
     (case get_part L fs i d of (p, d1) \<Rightarrow> part_close (foldl part_write p chunks) d1)"

lemma part_writes:
  "pt_good p \<Longrightarrow> foldl part_write p chunks = p\<lparr>pt_buffer := pt_buffer p @ concat chunks\<rparr>"
  by (induction chunks arbitrary: p) (simp_all add: part_write_def)

lemma part_writes_bad: "\<not> pt_good p \<Longrightarrow> foldl part_write p chunks = p"
  by (induction chunks) (simp_all add: part_write_def)

definition new_part :: "disk \<Rightarrow> disk_file" where
  "new_part d = \<lparr>f_content = [], f_mode = 0x1B6 AND NOT (d_umask d)\<rparr>"

lemma part_dir: "disk_inv fs d \<Longrightarrow> fs_parts fs \<in> d_dirs d"
  by (simp add: disk_inv_def dirs_inv_def)

lemma write_part_eq:
  assumes inv: "disk_inv fs d"
  shows "write_part L fs i chunks d = d\<lparr>d_files := (d_files d)(part_at L fs i \<mapsto>
    (let f = (case d_files d (part_at L fs i) of None \<Rightarrow> new_part d | Some f \<Rightarrow> f)
     in f\<lparr>f_content := f_content f @ concat chunks\<rparr>))\<rparr>"
  using part_at_not_dir [OF inv, of L i] part_dir [OF inv]
  by (auto simp: write_part_def get_part_def open_append_def step_simps is_file_def part_writes
      part_close_def new_part_def Let_def split: option.splits)

lemma stage_disk:
  assumes inv: "disk_inv fs d"
  shows "disk_inv fs (write_part L fs i chunks d)"
    and "stored L fs (write_part L fs i chunks d) = stored L fs d"
    and "uuid_law L \<Longrightarrow> staged L fs (write_part L fs i chunks d) =
      (staged L fs d)(i \<mapsto> (case staged L fs d i of None \<Rightarrow> [] | Some c \<Rightarrow> c) @ concat chunks)"
proof -
  show "disk_inv fs (write_part L fs i chunks d)"
    unfolding write_part_eq [OF inv]
    by (rule files_change_inv [OF inv]) (auto simp: is_file_def split: if_splits)
  show "stored L fs (write_part L fs i chunks d) = stored L fs d"
    using object_at_not_part [OF inv] by (simp add: stored_def write_part_eq [OF inv] fun_eq_iff)
  show "uuid_law L \<Longrightarrow> staged L fs (write_part L fs i chunks d) =
      (staged L fs d)(i \<mapsto> (case staged L fs d i of None \<Rightarrow> [] | Some c \<Rightarrow> c) @ concat chunks)"
    by (simp add: staged_def write_part_eq [OF inv] fun_eq_iff part_at_inj Let_def new_part_def
        split: option.splits)
qed

lemma commit_disk:
  assumes law: "uuid_law L" and inv: "disk_inv fs d" and c: "staged L fs d i = Some c"
  shows "\<exists>d'. make_object fs (uuid_text L i) d = (Inr (), d') \<and> disk_inv fs d' \<and>
    stored L fs d' = (stored L fs d)(i \<mapsto> c) \<and> staged L fs d' = (staged L fs d)(i := None) \<and>
    stored_mode L fs d' = (stored_mode L fs d)(i \<mapsto> object_permissions)"
proof -
  obtain f where f: "d_files d (part_at L fs i) = Some f" "c = f_content f"
    using c by (auto simp: staged_def)
  have "disk_inv fs ((with_shard L fs i d)\<lparr>d_files := (d_files d)(part_at L fs i := None,
       object_at L fs i \<mapsto> f\<lparr>f_mode := object_permissions\<rparr>)\<rparr>)"
    by (rule files_change_inv [OF with_shard_inv [OF inv, of L i]])
       (auto simp: is_file_def with_shard_def split: if_splits)
  then show ?thesis
    using make_object_hit [OF law inv f(1)] f(2) object_at_not_part [OF inv] object_at_not_part [OF inv, symmetric]
    by (simp add: stored_def staged_def stored_mode_def fun_eq_iff object_at_inj [OF law] part_at_inj [OF law])
qed

lemma commit_miss_disk:
  assumes law: "uuid_law L" and inv: "disk_inv fs d" and c: "staged L fs d i = None"
  shows "\<exists>d'. make_object fs (uuid_text L i) d = (Inl (File_error No_such_file), d') \<and> disk_inv fs d' \<and>
    d_files d' = d_files d"
  using make_object_miss [OF law inv, of i] c with_shard_inv [OF inv]
  by (simp add: staged_def)

lemma drop_disk:
  assumes inv: "disk_inv fs d"
  shows "\<exists>d'. remove_part fs (uuid_text L i) d = (Inr (), d') \<and> disk_inv fs d' \<and>
    stored L fs d' = stored L fs d \<and> stored_mode L fs d' = stored_mode L fs d \<and>
    (uuid_law L \<longrightarrow> staged L fs d' = (staged L fs d)(i := None))"
proof -
  have "disk_inv fs (d\<lparr>d_files := (d_files d)(part_at L fs i := None)\<rparr>)"
    by (rule files_change_inv [OF inv]) (auto simp: is_file_def split: if_splits)
  then show ?thesis
    using remove_part_eq [OF inv, of L i] object_at_not_part [OF inv]
    by (simp add: stored_def staged_def stored_mode_def fun_eq_iff part_at_inj)
qed

lemma erase_disk:
  assumes law: "uuid_law L" and inv: "disk_inv fs d"
  shows "\<exists>d'. remove_object_file fs (uuid_text L i) d = (Inr (), d') \<and> disk_inv fs d' \<and>
    stored L fs d' = (stored L fs d)(i := None) \<and> staged L fs d' = staged L fs d \<and>
    stored_mode L fs d' = (stored_mode L fs d)(i := None)"
proof -
  have "disk_inv fs (d\<lparr>d_files := (d_files d)(object_at L fs i := None)\<rparr>)"
    by (rule files_change_inv [OF inv]) (auto simp: is_file_def split: if_splits)
  then show ?thesis
    using remove_object_file_eq [OF law inv, of i] object_at_not_part [OF inv, symmetric]
    by (simp add: stored_def staged_def stored_mode_def fun_eq_iff object_at_inj [OF law])
qed

section \<open>The interface is met\<close>

definition layout :: "libs \<Rightarrow> filesystem \<Rightarrow> disk \<Rightarrow> bool" where
  "layout L fs d \<longleftrightarrow> uuid_law L \<and> disk_inv fs d"

interpretation blobs: blob_store "layout L fs" "stored L fs" "staged L fs"
    "\<lambda>i. make_object fs (uuid_text L i)" "\<lambda>i. remove_part fs (uuid_text L i)"
    "\<lambda>i. remove_object_file fs (uuid_text L i)" "write_part L fs"
  for L fs
proof (unfold_locales, goal_cases)
  case (1 d i c)
  then show ?case using commit_disk [of L fs d i c] by (auto simp: layout_def)
next
  case (2 d i)
  then show ?case
    using commit_miss_disk [of L fs d i] by (auto simp: layout_def stored_def staged_def fun_eq_iff)
next
  case (3 d i)
  then show ?case using drop_disk [of fs d L i] by (auto simp: layout_def)
next
  case (4 d i)
  then show ?case using erase_disk [of L fs d i] by (auto simp: layout_def)
next
  case (5 d i cs)
  then show ?case using stage_disk [of fs d L i cs] by (simp add: layout_def)
qed

section \<open>Starting the filesystem\<close>

definition blank_disk :: "path \<Rightarrow> mode \<Rightarrow> disk" where
  "blank_disk home m = \<lparr>d_files = Map.empty, d_dirs = set (prefixes home), d_umask = m\<rparr>"

definition home_fs :: "path \<Rightarrow> filesystem" where
  "home_fs home = \<lparr>fs_objects = home @ [''objects''], fs_parts = home @ [''parts'']\<rparr>"

lemma home_fs_simps [simp]:
  "fs_objects (home_fs home) = home @ [''objects'']" "fs_parts (home_fs home) = home @ [''parts'']"
  by (simp_all add: home_fs_def)

text \<open>The constructor on a blank disk makes the two directories and nothing else.\<close>

lemma filesystem_new_blank:
  "\<exists>d. filesystem_new home (blank_disk home m) = (Inr (home_fs home), d) \<and> disk_inv (home_fs home) d \<and>
     d_files d = Map.empty \<and> d_umask d = m"
proof -
  let ?d = "\<lparr>d_files = Map.empty,
    d_dirs = set (prefixes home) \<union> set (prefixes (home @ [''objects''])) \<union> set (prefixes (home @ [''parts''])),
    d_umask = m\<rparr>"
  have "filesystem_new home (blank_disk home m) = (Inr (home_fs home), ?d)"
    by (simp add: filesystem_new_def blank_disk_def create_directories_def std_create_directories_def
        path_div_def is_file_def home_fs_def Let_def)
  moreover have "disk_inv (home_fs home) ?d"
    by (auto simp: disk_inv_def dirs_inv_def files_inv_def is_file_def dest: prefix_order.trans
        prefix_length_le)
  ultimately show ?thesis by simp
qed

text \<open>On a disk that already has the layout it changes nothing: what is stored survives a restart.\<close>

lemma filesystem_new_again:
  assumes inv: "disk_inv (home_fs home) d"
  shows "filesystem_new home d = (Inr (home_fs home), d)"
proof -
  have sub: "set (prefixes p) \<subseteq> d_dirs d" if "p \<in> d_dirs d" for p
    using inv that by (auto simp: disk_inv_def dirs_inv_def)
  have "create_directories p d = (Inr (), d)" if p: "p \<in> d_dirs d" for p
  proof -
    have "\<not> is_file d q" if "q \<in> set (prefixes p)" for q
      using inv sub [OF p] that by (auto simp: disk_inv_def files_inv_def)
    then show ?thesis
      using sub [OF p]
      by (cases d) (auto simp: create_directories_def std_create_directories_def Un_absorb2)
  qed
  moreover have "home @ [''objects''] \<in> d_dirs d" "home @ [''parts''] \<in> d_dirs d"
    using inv by (simp_all add: disk_inv_def dirs_inv_def)
  ultimately show ?thesis
    by (simp add: filesystem_new_def path_div_def home_fs_def)
qed

section \<open>MIME types\<close>

lemma find_index_None: "find_index c s = None \<longleftrightarrow> c \<notin> set s"
  by (induction s) auto

lemma find_index_append: "c \<notin> set a \<Longrightarrow> find_index c (a @ c # b) = Some (length a)"
  by (induction a) auto

lemma unat_of_nat64: "n < 2 ^ 64 \<Longrightarrow> unat (of_nat n :: uint64) = n"
  by (simp add: unsigned_of_nat take_bit_nat_eq_self)

lemma unat_npos: "unat npos = 2 ^ 64 - 1"
  by (simp add: npos_def unsigned_minus_1_eq_mask mask_eq_exp_minus_1)

text \<open>A type with a slash is split at the first one, and \<open>mime_type\<close> puts it together again.\<close>

lemma split_mime_slash:
  assumes "CHR ''/'' \<notin> set a" and "length a + length b < 2 ^ 63"
  shows "split_mime (a @ CHR ''/'' # b) = Inr \<lparr>m_type = a, m_subtype = b\<rparr>"
proof -
  have n: "unat (of_nat (length a) :: uint64) = length a"
    using assms(2) by (simp add: unat_of_nat64)
  have "unat (of_nat (length a) + 1 :: uint64) = unat (of_nat (length a + 1) :: uint64)"
    by (simp add: add.commute)
  also have "\<dots> = length a + 1" using assms(2) by (intro unat_of_nat64) simp
  finally have n1: "unat (of_nat (length a) + 1 :: uint64) = length a + 1" .
  have b: "length b \<le> unat npos" using assms(2) by (simp add: unat_npos)
  show ?thesis
    using b by (simp add: split_mime_def find_char_def find_index_append [OF assms(1)] substr_def n n1)
qed

lemma split_mime_slashless:
  assumes "CHR ''/'' \<notin> set a" and "length a < 2 ^ 63"
  shows "split_mime a = Inr \<lparr>m_type = a, m_subtype = a\<rparr>"
proof -
  have l: "length a \<le> unat npos" using assms(2) by (simp add: unat_npos)
  have i: "find_char a CHR ''/'' = npos" using assms(1) by (simp add: find_char_def find_index_None [THEN iffD2])
  have z: "npos + 1 = 0" by (simp add: npos_def)
  show ?thesis using l by (simp add: split_mime_def i z substr_def Let_def)
qed

lemma split_mime_total: "length ty < 2 ^ 63 \<Longrightarrow> \<exists>m. split_mime ty = Inr m"
  using split_mime_slashless [of ty] split_list_first [of "CHR ''/''" ty] split_mime_slash
  by fastforce

end
