(* ===== verification/Object_Store.thy ===== *)
theory Object_Store
  imports Connection_Laws Filesystem_Laws
begin

text \<open>
  \<open>src/libcore/object_store.cpp\<close>: the operations of the object store over its database and its
  filesystem.  An operation takes the world (database and disk) and returns its result or the
  exception with the world it leaves.  What the program takes from outside is an argument: the
  third-party functions \<open>L\<close>, the directories \<open>fs\<close>, the time \<open>NOW()\<close> and fresh uuids.
  \<open>check\<close> is in the theory \<open>Check\<close>.
\<close>

section \<open>The world\<close>

record world =
  w_db :: database
  w_disk :: disk

definition on_db :: "(database \<Rightarrow> (error, 'a, database) outcome) \<Rightarrow> world \<Rightarrow> (error, 'a, world) outcome" where
  "on_db f w = (case f (w_db w) of (r, db) \<Rightarrow> (r, w\<lparr>w_db := db\<rparr>))"

definition on_disk :: "(disk \<Rightarrow> (error, 'a, disk) outcome) \<Rightarrow> world \<Rightarrow> (error, 'a, world) outcome" where
  "on_disk f w = (case f (w_disk w) of (r, d) \<Rightarrow> (r, w\<lparr>w_disk := d\<rparr>))"

text \<open>A computation that only reads the disk.\<close>

definition from_disk :: "(disk \<Rightarrow> error + 'a) \<Rightarrow> world \<Rightarrow> (error, 'a, world) outcome" where
  "from_disk f w = (f (w_disk w), w)"

definition returning :: "('a \<Rightarrow> 'b) \<Rightarrow> (error, 'a, world) outcome \<Rightarrow> (error, 'b, world) outcome" where
  "returning g r = and_then r (\<lambda>x w. (Inr (g x), w))"

section \<open>Operations\<close>

definition process_bucket_name :: "libs \<Rightarrow> string \<Rightarrow> error + string" where
  "process_bucket_name L name =
     (let trimmed = ext_trim L name
      in if trimmed = [] then Inl (Invalid_data ''bucket name cannot be empty'') else Inr trimmed)"

definition commit_part ::
  "libs \<Rightarrow> filesystem \<Rightarrow> time_point \<Rightarrow> uuid \<Rightarrow> uuid \<Rightarrow> world \<Rightarrow> (error, object, world) outcome" where
  "commit_part L fs now b i w =
     (let part = part_path fs (uuid_text L i)
      in and_then (from_disk (\<lambda>d. file_mime_type L d part) w) (\<lambda>mime w.
         and_then (from_disk (\<lambda>d. hash_file L d part) w) (\<lambda>hash w.
         and_then (from_disk (\<lambda>d. file_size d part) w) (\<lambda>size w.
         and_then (on_db (connection_add_object L connect b i hash (sint size) (m_type mime)
                            (m_subtype mime) now) w) (\<lambda>obj w.
         and_then (if db_o_id obj \<noteq> i then on_disk (remove_part fs (uuid_text L i)) w
                   else on_disk (make_object fs (uuid_text L i)) w) (\<lambda>_ w.
         (Inr (to_object obj), w)))))))"

definition store_create_bucket ::
  "libs \<Rightarrow> uuid \<Rightarrow> time_point \<Rightarrow> string \<Rightarrow> world \<Rightarrow> (error, bucket, world) outcome" where
  "store_create_bucket L new_id now name w =
     (case process_bucket_name L name of
        Inl e \<Rightarrow> (Inl e, w)
      | Inr n \<Rightarrow> returning to_bucket (on_db (connection_create_bucket L connect new_id now n) w))"

definition store_fetch_bucket :: "libs \<Rightarrow> string \<Rightarrow> world \<Rightarrow> (error, bucket, world) outcome" where
  "store_fetch_bucket L name w =
     returning to_bucket (on_db (connection_fetch_bucket L connect name) w)"

definition store_fetch_buckets_all :: "world \<Rightarrow> (error, bucket list, world) outcome" where
  "store_fetch_buckets_all w =
     returning (map to_bucket) (on_db (connection_fetch_buckets_all connect) w)"

definition store_fetch_buckets :: "string list \<Rightarrow> world \<Rightarrow> (error, bucket list, world) outcome" where
  "store_fetch_buckets names w =
     returning (map to_bucket) (on_db (connection_fetch_buckets connect names) w)"

definition store_fetch_totals :: "libs \<Rightarrow> world \<Rightarrow> (error, store_totals, world) outcome" where
  "store_fetch_totals L w =
     returning to_store_totals (on_db (connection_fetch_store_totals L connect) w)"

definition store_get_errors :: "world \<Rightarrow> (error, object_error list, world) outcome" where
  "store_get_errors w = on_db (connection_get_errors connect) w"

definition get_object_metadata ::
  "libs \<Rightarrow> uuid \<Rightarrow> uuid \<Rightarrow> world \<Rightarrow> (error, object, world) outcome" where
  "get_object_metadata L b x w =
     returning to_object (on_db (connection_get_object L connect b x) w)"

text \<open>The result is the \<open>file\<close> struct: the metadata and the open descriptor.\<close>

definition get_object ::
  "libs \<Rightarrow> filesystem \<Rightarrow> uuid \<Rightarrow> uuid \<Rightarrow> world \<Rightarrow> (error, object \<times> blob, world) outcome" where
  "get_object L fs b x w =
     and_then (get_object_metadata L b x w) (\<lambda>meta w.
     and_then (from_disk (open_object fs (uuid_text L x)) w) (\<lambda>fd w. (Inr (meta, fd), w)))"

text \<open>\<open>generated\<close> is what the uuid generator returns; it is called in any case.\<close>

definition store_get_part ::
  "libs \<Rightarrow> filesystem \<Rightarrow> uuid \<Rightarrow> uuid option \<Rightarrow> world \<Rightarrow> part \<times> world" where
  "store_get_part L fs generated part_id w =
     (let i = (case part_id of Some u \<Rightarrow> u | None \<Rightarrow> generated)
      in case get_part L fs i (w_disk w) of (p, d) \<Rightarrow> (p, w\<lparr>w_disk := d\<rparr>))"

fun remove_files ::
  "libs \<Rightarrow> filesystem \<Rightarrow> db_object list \<Rightarrow> disk \<Rightarrow> (error, unit, disk) outcome" where
  "remove_files L fs [] d = (Inr (), d)"
| "remove_files L fs (x # xs) d =
     and_then (remove_object_file fs (uuid_text L (db_o_id x)) d) (\<lambda>_ d. remove_files L fs xs d)"

definition prune :: "libs \<Rightarrow> filesystem \<Rightarrow> world \<Rightarrow> (error, object list, world) outcome" where
  "prune L fs w =
     and_then (on_db (connection_remove_orphan_objects connect) w) (\<lambda>orphans w.
     and_then (on_disk (remove_files L fs orphans) w) (\<lambda>_ w.
     (Inr (map to_object orphans), w)))"

definition store_remove_bucket :: "uuid \<Rightarrow> world \<Rightarrow> (error, unit, world) outcome" where
  "store_remove_bucket b w = on_db (connection_remove_bucket connect b) w"

definition store_remove_object ::
  "libs \<Rightarrow> uuid \<Rightarrow> uuid \<Rightarrow> world \<Rightarrow> (error, object, world) outcome" where
  "store_remove_object L b x w =
     returning to_object (on_db (connection_remove_object L connect b x) w)"

definition store_remove_objects ::
  "libs \<Rightarrow> uuid \<Rightarrow> uuid list \<Rightarrow> world \<Rightarrow> (error, remove_result, world) outcome" where
  "store_remove_objects L b xs w =
     returning to_remove_result (on_db (connection_remove_objects L connect b xs) w)"

definition store_rename_bucket ::
  "libs \<Rightarrow> uuid \<Rightarrow> string \<Rightarrow> world \<Rightarrow> (error, unit, world) outcome" where
  "store_rename_bucket L b name w =
     (case process_bucket_name L name of
        Inl e \<Rightarrow> (Inl e, w)
      | Inr n \<Rightarrow> on_db (connection_rename_bucket connect b n) w)"

section \<open>Executing\<close>

lemma world_same [simp]: "w\<lparr>w_db := w_db w\<rparr> = w" "w\<lparr>w_disk := w_disk w\<rparr> = w"
  by (cases w; simp)+

lemma on_db_simps [step_simps]:
  "f (w_db w) = (r, db) \<Longrightarrow> on_db f w = (r, w\<lparr>w_db := db\<rparr>)"
  by (simp add: on_db_def)

lemma on_disk_simps [step_simps]:
  "f (w_disk w) = (r, d) \<Longrightarrow> on_disk f w = (r, w\<lparr>w_disk := d\<rparr>)"
  by (simp add: on_disk_def)

lemma from_disk_simps [step_simps]:
  "f (w_disk w) = r \<Longrightarrow> from_disk f w = (r, w)"
  by (simp add: from_disk_def)

lemma returning_simps [step_simps, simp]:
  "returning g (Inl e, w) = (Inl e, w)" "returning g (Inr x, w) = (Inr (g x), w)"
  by (simp_all add: returning_def)

lemma on_db_snd [simp]: "w_disk (snd (on_db f w)) = w_disk w" "w_db (snd (on_db f w)) = snd (f (w_db w))"
  by (simp_all add: on_db_def split: prod.split)

lemma on_db_fst [simp]: "fst (on_db f w) = fst (f (w_db w))"
  by (simp add: on_db_def split: prod.split)

lemma on_disk_snd [simp]:
  "w_db (snd (on_disk f w)) = w_db w" "w_disk (snd (on_disk f w)) = snd (f (w_disk w))"
  by (simp_all add: on_disk_def split: prod.split)

lemma returning_snd [simp]: "snd (returning g r) = snd r"
  by (cases r; cases "fst r") auto

lemma returning_Inr_iff: "returning g r = (Inr y, w) \<longleftrightarrow> (\<exists>x. r = (Inr x, w) \<and> y = g x)"
  by (cases r; cases "fst r") auto

lemma returning_Inl_iff [simp]: "returning g r = (Inl e, w) \<longleftrightarrow> r = (Inl e, w)"
  by (cases r; cases "fst r") auto

end
