(* ===== verification/Store_Laws.thy ===== *)
theory Store_Laws
  imports Object_Store
begin

text \<open>
  The invariant of the object store: the database satisfies its schema, the disk its layout, and
  the files under \<open>objects\<close> are exactly the catalogue's objects, each with the content its row's
  hash describes and the permissions of an object.  Every operation is executed once and for all
  (\<open>commit_part_ok\<close>, \<open>prune_eq\<close>, ...), and every operation preserves the invariant.
\<close>

section \<open>The invariant\<close>

definition laws :: "libs \<Rightarrow> bool" where
  "laws L \<longleftrightarrow> uuid_law L \<and> fetch_law L"

definition agree :: "libs \<Rightarrow> object_row list \<Rightarrow> (uuid \<Rightarrow> blob option) \<Rightarrow> (uuid \<Rightarrow> mode option) \<Rightarrow> bool" where
  "agree L rows st md \<longleftrightarrow> dom st = ob_id ` set rows \<and>
     (\<forall>r \<in> set rows. map_option (sha256sum L) (st (ob_id r)) = Some (ob_hash r) \<and>
        md (ob_id r) = Some object_permissions)"

definition store_inv :: "libs \<Rightarrow> filesystem \<Rightarrow> world \<Rightarrow> bool" where
  "store_inv L fs w \<longleftrightarrow> laws L \<and> db_inv (w_db w) \<and> disk_inv fs (w_disk w) \<and>
     agree L (tb_object (w_db w)) (stored L fs (w_disk w)) (stored_mode L fs (w_disk w))"

lemma store_invD:
  assumes "store_inv L fs w"
  shows "laws L" "uuid_law L" "fetch_law L" "db_inv (w_db w)" "disk_inv fs (w_disk w)"
    "agree L (tb_object (w_db w)) (stored L fs (w_disk w)) (stored_mode L fs (w_disk w))"
  using assms by (simp_all add: store_inv_def laws_def)

lemma agree_stored:
  assumes "agree L rows st md" and "r \<in> set rows"
  obtains c where "st (ob_id r) = Some c" "sha256sum L c = ob_hash r"
  using assms by (auto simp: agree_def)

lemma agree_new:
  assumes "agree L rows st md" and "ob_id r \<notin> ob_id ` set rows" and "sha256sum L c = ob_hash r"
  shows "agree L (rows @ [r]) (st(ob_id r \<mapsto> c)) (md(ob_id r \<mapsto> object_permissions))"
proof -
  have "ob_id q \<noteq> ob_id r" if "q \<in> set rows" for q using assms(2) that by (metis imageI)
  with assms show ?thesis by (auto simp: agree_def)
qed

lemma agree_replace:
  assumes "agree L rows st md" and "distinct (map ob_id rows)" and "r \<in> set rows"
    and "sha256sum L c = ob_hash r"
  shows "agree L rows (st(ob_id r \<mapsto> c)) (md(ob_id r \<mapsto> object_permissions))"
proof -
  have "q = r" if "q \<in> set rows" "ob_id q = ob_id r" for q
    using assms(2,3) that by (auto dest: inj_onD simp: distinct_map)
  with assms show ?thesis by (auto simp: agree_def)
qed

lemma agree_filter:
  assumes "agree L rows st md" and "distinct (map ob_id rows)"
    and st: "st' = (\<lambda>x. if x \<in> ob_id ` {r \<in> set rows. \<not> P r} then None else st x)"
    and md: "md' = (\<lambda>x. if x \<in> ob_id ` {r \<in> set rows. \<not> P r} then None else md x)"
  shows "agree L (filter P rows) st' md'"
proof -
  have in_iff: "ob_id r \<in> ob_id ` {r \<in> set rows. \<not> P r} \<longleftrightarrow> \<not> P r" if "r \<in> set rows" for r
    using assms(2) that by (auto simp: distinct_map dest: inj_onD)
  have "dom st' = ob_id ` set (filter P rows)"
  proof (rule set_eqI)
    fix x
    show "x \<in> dom st' \<longleftrightarrow> x \<in> ob_id ` set (filter P rows)"
    proof (cases "x \<in> ob_id ` set rows")
      case True
      then obtain r where r: "r \<in> set rows" "x = ob_id r" by auto
      have "x \<in> ob_id ` set (filter P rows) \<longleftrightarrow> P r"
        using assms(2) r by (auto simp: distinct_map dest: inj_onD)
      then show ?thesis using in_iff [OF r(1)] r assms(1) by (auto simp: st agree_def dom_def)
    next
      case False
      then show ?thesis using assms(1) by (auto simp: st agree_def dom_def)
    qed
  qed
  then show ?thesis using assms(1) in_iff by (auto simp: agree_def st md)
qed

section \<open>Operations on the database only\<close>

lemma store_inv_on_db:
  assumes "store_inv L fs w" and "db_inv (snd (f (w_db w)))"
    and "tb_object (snd (f (w_db w))) = tb_object (w_db w)"
  shows "store_inv L fs (snd (on_db f w))"
  using assms by (simp add: store_inv_def)

lemma on_db_read [simp]:
  "snd (f (w_db w)) = w_db w \<Longrightarrow> snd (on_db f w) = w"
  by (cases w; cases "f (w_db w)") (simp add: on_db_def)

lemma connection_objects [frame_simps]:
  "tb_object (snd (connection_create_bucket L c i now n db)) = tb_object db"
  "tb_object (snd (connection_remove_bucket c b db)) = tb_object db"
  "tb_object (snd (connection_remove_object L c b x db)) = tb_object db"
  "tb_object (snd (connection_remove_objects L c b xs db)) = tb_object db"
  "tb_object (snd (connection_rename_bucket c b n db)) = tb_object db"
  "tb_object (snd (connection_update_object_errors c es db)) = tb_object db"
proof -
  let ?P = "\<lambda>s. tb_object s = tb_object db"
  show "tb_object (snd (connection_create_bucket L c i now n db)) = tb_object db"
    unfolding connection_create_bucket_def rethrow_snd
    by (rule fetch_prepared_inv [where P = ?P])
       (auto simp: sql_create_bucket_def insert_bucket_def bind_sum_Inr_iff split: if_splits)
  show "tb_object (snd (connection_remove_bucket c b db)) = tb_object db"
    unfolding connection_remove_bucket_def by (rule query_prepared_inv [where P = ?P]) auto
  show "tb_object (snd (connection_remove_object L c b x db)) = tb_object db"
    unfolding connection_remove_object_def rethrow_snd
    by (rule fetch_prepared_inv [where P = ?P])
       (use sql_remove_object_frame(2) [of b x db] in auto)
  show "tb_object (snd (connection_remove_objects L c b xs db)) = tb_object db"
    unfolding connection_remove_objects_def
    by (rule fetch_prepared_inv [where P = ?P]) (auto simp: sql_remove_objects_frame)
  show "tb_object (snd (connection_rename_bucket c b n db)) = tb_object db"
    unfolding connection_rename_bucket_def rethrow_snd
    by (rule query_prepared_inv [where P = ?P]) (auto simp: sql_rename_bucket_frame)
  show "tb_object (snd (connection_update_object_errors c es db)) = tb_object db"
    unfolding connection_update_object_errors_def
    by (rule query_prepared_inv [where P = ?P]) (auto simp: update_errors_frame)
qed

lemma store_reads [frame_simps, simp]:
  "snd (store_fetch_bucket L n w) = w" "snd (store_fetch_buckets_all w) = w"
  "snd (store_fetch_buckets ns w) = w" "snd (store_fetch_totals L w) = w"
  "snd (store_get_errors w) = w" "snd (get_object_metadata L b x w) = w"
  by (simp_all add: store_fetch_bucket_def store_fetch_buckets_all_def store_fetch_buckets_def
      store_fetch_totals_def store_get_errors_def get_object_metadata_def)

lemma from_disk_snd [simp]: "snd (from_disk f w) = w"
  by (simp add: from_disk_def)

lemma get_object_read [frame_simps, simp]: "snd (get_object L fs b x w) = w"
  unfolding get_object_def
  by (rule and_then_inv [where P = "\<lambda>s. s = w"], simp) (rule and_then_inv [where P = "\<lambda>s. s = w"]; simp)

lemma store_changes_inv [inv_intros]:
  assumes inv: "store_inv L fs w"
  shows "store_inv L fs (snd (store_create_bucket L i now n w))"
    and "store_inv L fs (snd (store_remove_bucket b w))"
    and "store_inv L fs (snd (store_remove_object L b x w))"
    and "store_inv L fs (snd (store_remove_objects L b xs w))"
    and "store_inv L fs (snd (store_rename_bucket L b n w))"
    and "store_inv L fs (snd (on_db (connection_update_object_errors connect es) w))"
  using store_invD(4) [OF inv] inv
  by (auto simp: store_create_bucket_def store_remove_bucket_def store_remove_object_def
      store_remove_objects_def store_rename_bucket_def connection_objects connection_inv
      intro!: store_inv_on_db split: sum.split)

section \<open>Committing a part\<close>

lemma sha256sum_size: "sint (of_nat n :: uint64) = i \<Longrightarrow> is_int64 i"
  by auto

lemma read_part:
  assumes "disk_inv fs d"
  shows "read_file d (part_at L fs i) =
    (case d_files d (part_at L fs i) of None \<Rightarrow> Inl (File_error No_such_file) | Some f \<Rightarrow> Inr f)"
  using part_at_not_dir [OF assms, of L i] by (simp add: read_file_def split: option.split)

text \<open>The size a commit records: the length of the content, as \<open>uintmax_t\<close> read as \<open>int64_t\<close>.\<close>

definition recorded_size :: "blob \<Rightarrow> int64" where
  "recorded_size c = sint (of_nat (length c) :: uint64)"

lemma recorded_size_int64 [simp]: "is_int64 (recorded_size c)"
  by (simp add: recorded_size_def)

lemma recorded_size_eq: "length c < 2 ^ 63 \<Longrightarrow> recorded_size c = int (length c)"
proof -
  assume "length c < 2 ^ 63"
  then have "is_int64 (int (length c))" by (simp add: is_int64_def)
  then show ?thesis using sint_word_of_int64 [of "int (length c)"] by (simp add: recorded_size_def)
qed

text \<open>
  \<open>commit_part\<close> in two halves: up to the row it gets from the database, and what it then does with the
  part.
\<close>

definition commit_record ::
  "libs \<Rightarrow> filesystem \<Rightarrow> time_point \<Rightarrow> uuid \<Rightarrow> uuid \<Rightarrow> world \<Rightarrow> (error, db_object, world) outcome" where
  "commit_record L fs now b i w =
     (let part = part_path fs (uuid_text L i)
      in and_then (from_disk (\<lambda>d. file_mime_type L d part) w) (\<lambda>mime w.
         and_then (from_disk (\<lambda>d. hash_file L d part) w) (\<lambda>hash w.
         and_then (from_disk (\<lambda>d. file_size d part) w) (\<lambda>size w.
         on_db (connection_add_object L connect b i hash (sint size) (m_type mime) (m_subtype mime) now) w))))"

definition settle :: "libs \<Rightarrow> filesystem \<Rightarrow> uuid \<Rightarrow> db_object \<Rightarrow> world \<Rightarrow> (error, object, world) outcome" where
  "settle L fs i obj w =
     and_then (if db_o_id obj \<noteq> i then on_disk (remove_part fs (uuid_text L i)) w
               else on_disk (make_object fs (uuid_text L i)) w) (\<lambda>_ w. (Inr (to_object obj), w))"

lemma commit_part_halves: "commit_part L fs now b i w = and_then (commit_record L fs now b i w) (settle L fs i)"
  by (simp add: commit_part_def commit_record_def settle_def [abs_def] and_then_assoc Let_def)

lemma commit_record_miss:
  assumes "disk_inv fs (w_disk w)" and "staged L fs (w_disk w) i = None"
  shows "commit_record L fs now b i w = (Inl (File_error No_such_file), w)"
  using assms by (simp add: commit_record_def step_simps from_disk_def file_mime_type_def read_part staged_def)

lemma commit_part_miss:
  assumes "disk_inv fs (w_disk w)" and "staged L fs (w_disk w) i = None"
  shows "commit_part L fs now b i w = (Inl (File_error No_such_file), w)"
  using commit_record_miss [OF assms] by (simp add: commit_part_halves)

lemma commit_record_hit:
  assumes laws: "laws L" and inv: "db_inv (w_db w)" "disk_inv fs (w_disk w)"
    and c: "staged L fs (w_disk w) i = Some c"
  shows "commit_record L fs now b i w = (case split_mime (magic_file L c) of
      Inl e \<Rightarrow> (Inl e, w)
    | Inr m \<Rightarrow> (case sql_add_object b i (sha256sum L c) (recorded_size c) (m_type m) (m_subtype m) now (w_db w) of
         Inl e \<Rightarrow> (Inl (Sql_error e), w)
       | Inr (rows, db') \<Rightarrow> (Inr (hd rows), w\<lparr>w_db := db'\<rparr>)))"
proof -
  obtain f where f: "d_files (w_disk w) (part_at L fs i) = Some f" "f_content f = c"
    using c by (auto simp: staged_def)
  have law: "fetch_law L" using laws by (simp add: laws_def)
  let ?p = "part_at L fs i"
  have reads: "file_mime_type L (w_disk w) ?p = split_mime (magic_file L c)"
    "hash_file L (w_disk w) ?p = Inr (sha256sum L c)" "file_size (w_disk w) ?p = Inr (of_nat (length c))"
    using f by (simp_all add: file_mime_type_def hash_file_def file_size_def read_part [OF inv(2)])
  have "on_db (connection_add_object L connect b i (sha256sum L c) (recorded_size c) (m_type m)
      (m_subtype m) now) w = (case sql_add_object b i (sha256sum L c) (recorded_size c) (m_type m) (m_subtype m) now (w_db w) of
       Inl e \<Rightarrow> (Inl (Sql_error e), w) | Inr (rows, db') \<Rightarrow> (Inr (hd rows), w\<lparr>w_db := db'\<rparr>))" for m
    by (simp add: on_db_def connection_add_object_cases [OF law inv(1)] split: sum.split prod.split)
  then show ?thesis
    using reads by (cases "split_mime (magic_file L c)")
      (simp_all add: commit_record_def part_path_uuid from_disk_def Let_def recorded_size_def)
qed

lemma commit_part_hit:
  assumes "laws L" and "db_inv (w_db w)" "disk_inv fs (w_disk w)" and "staged L fs (w_disk w) i = Some c"
  shows "commit_part L fs now b i w = (case split_mime (magic_file L c) of
      Inl e \<Rightarrow> (Inl e, w)
    | Inr m \<Rightarrow> (case sql_add_object b i (sha256sum L c) (recorded_size c) (m_type m) (m_subtype m) now (w_db w) of
         Inl e \<Rightarrow> (Inl (Sql_error e), w)
       | Inr (rows, db') \<Rightarrow> settle L fs i (hd rows) (w\<lparr>w_db := db'\<rparr>)))"
  unfolding commit_part_halves commit_record_hit [OF assms] by (simp split: sum.split prod.split)

lemma settle_eq:
  assumes law: "uuid_law L" and inv: "disk_inv fs (w_disk w)"
    and c: "staged L fs (w_disk w) i = Some c"
  obtains d' where "settle L fs i obj w = (Inr (to_object obj), w\<lparr>w_disk := d'\<rparr>)" "disk_inv fs d'"
    "staged L fs d' = (staged L fs (w_disk w))(i := None)"
    "stored L fs d' = (if db_o_id obj = i then (stored L fs (w_disk w))(i \<mapsto> c) else stored L fs (w_disk w))"
    "stored_mode L fs d' = (if db_o_id obj = i then (stored_mode L fs (w_disk w))(i \<mapsto> object_permissions)
       else stored_mode L fs (w_disk w))"
proof (cases "db_o_id obj = i")
  case True
  with commit_disk [OF law inv c] that show ?thesis
    by (auto simp: settle_def on_disk_def)
next
  case False
  with drop_disk [OF inv, of L i] law that show ?thesis
    by (auto simp: settle_def on_disk_def)
qed

lemma commit_part_error:
  assumes laws: "laws L" and inv: "db_inv (w_db w)" "disk_inv fs (w_disk w)"
    and err: "commit_part L fs now b i w = (Inl e, w')"
  shows "w' = w"
proof (cases "staged L fs (w_disk w) i")
  case None
  then show ?thesis using err commit_part_miss [OF inv(2)] by simp
next
  case (Some c)
  have law: "uuid_law L" using laws by (simp add: laws_def)
  have "\<exists>x w''. settle L fs i (hd rows) (w\<lparr>w_db := db'\<rparr>) = (Inr x, w'')" for rows db'
    by (rule settle_eq [OF law, of fs "w\<lparr>w_db := db'\<rparr>" i c "hd rows"]) (use inv Some in auto)
  then show ?thesis
    using err unfolding commit_part_hit [OF laws inv Some]
    by (auto split: sum.splits prod.splits) (metis Inl_Inr_False prod.inject)+
qed

lemma commit_part_ok:
  assumes laws: "laws L" and inv: "db_inv (w_db w)" "disk_inv fs (w_disk w)"
    and ok: "commit_part L fs now b i w = (Inr x, w')"
  obtains c m e where "staged L fs (w_disk w) i = Some c" "split_mime (magic_file L c) = Inr m"
    "sql_add_object b i (sha256sum L c) (recorded_size c) (m_type m) (m_subtype m) now (w_db w) =
       Inr ([e], w_db w')"
    "x = to_object e" "db_inv (w_db w')" "entry (w_db w') b (db_o_id e) = Some e"
    "db_o_hash e = sha256sum L c" "disk_inv fs (w_disk w')"
    "staged L fs (w_disk w') = (staged L fs (w_disk w))(i := None)"
    "stored L fs (w_disk w') =
       (if db_o_id e = i then (stored L fs (w_disk w))(i \<mapsto> c) else stored L fs (w_disk w))"
    "stored_mode L fs (w_disk w') =
       (if db_o_id e = i then (stored_mode L fs (w_disk w))(i \<mapsto> object_permissions)
        else stored_mode L fs (w_disk w))"
proof -
  obtain c where c: "staged L fs (w_disk w) i = Some c"
    using ok commit_part_miss [OF inv(2)] by (cases "staged L fs (w_disk w) i") auto
  have law: "uuid_law L" using laws by (simp add: laws_def)
  obtain m rows db' where m: "split_mime (magic_file L c) = Inr m"
    and add: "sql_add_object b i (sha256sum L c) (recorded_size c) (m_type m) (m_subtype m) now (w_db w) = Inr (rows, db')"
    and st: "settle L fs i (hd rows) (w\<lparr>w_db := db'\<rparr>) = (Inr x, w')"
    using ok unfolding commit_part_hit [OF laws inv c] by (auto split: sum.splits prod.splits)
  obtain e where e: "rows = [e]" "entry db' b (db_o_id e) = Some e" "db_o_hash e = sha256sum L c" "db_inv db'"
    using sql_add_object_Inr [OF inv(1) recorded_size_int64 add] by metis
  show ?thesis
  proof (rule settle_eq [OF law, of fs "w\<lparr>w_db := db'\<rparr>" i c "hd rows"])
    fix d' assume d': "settle L fs i (hd rows) (w\<lparr>w_db := db'\<rparr>) =
        (Inr (to_object (hd rows)), w\<lparr>w_db := db', w_disk := d'\<rparr>)"
    then have w': "w' = w\<lparr>w_db := db', w_disk := d'\<rparr>" "x = to_object e" using st e by auto
    assume "disk_inv fs d'"
      "staged L fs d' = (staged L fs (w_disk (w\<lparr>w_db := db'\<rparr>)))(i := None)"
      "stored L fs d' = (if db_o_id (hd rows) = i then (stored L fs (w_disk (w\<lparr>w_db := db'\<rparr>)))(i \<mapsto> c)
         else stored L fs (w_disk (w\<lparr>w_db := db'\<rparr>)))"
      "stored_mode L fs d' = (if db_o_id (hd rows) = i
         then (stored_mode L fs (w_disk (w\<lparr>w_db := db'\<rparr>)))(i \<mapsto> object_permissions)
         else stored_mode L fs (w_disk (w\<lparr>w_db := db'\<rparr>)))"
    with c m add w' e show ?thesis by (intro that [of c m e]) simp_all
  qed (use inv c in auto)
qed

lemma commit_part_result:
  assumes laws: "laws L" and inv: "db_inv (w_db w)" "disk_inv fs (w_disk w)"
    and c: "staged L fs (w_disk w) i = Some c" and m: "split_mime (magic_file L c) = Inr m"
    and add: "sql_add_object b i (sha256sum L c) (recorded_size c) (m_type m) (m_subtype m) now (w_db w) =
      Inr ([e], db')"
  shows "fst (commit_part L fs now b i w) = Inr (to_object e)"
    and "w_db (snd (commit_part L fs now b i w)) = db'"
proof -
  have law: "uuid_law L" using laws by (simp add: laws_def)
  obtain d' where "settle L fs i e (w\<lparr>w_db := db'\<rparr>) = (Inr (to_object e), w\<lparr>w_db := db', w_disk := d'\<rparr>)"
    by (rule settle_eq [OF law, of fs "w\<lparr>w_db := db'\<rparr>" i c e]) (use inv c in auto)
  then show "fst (commit_part L fs now b i w) = Inr (to_object e)"
    and "w_db (snd (commit_part L fs now b i w)) = db'"
    using m add by (simp_all add: commit_part_hit [OF laws inv c])
qed

lemma commit_part_inv [inv_intros]:
  assumes inv: "store_inv L fs w" shows "store_inv L fs (snd (commit_part L fs now b i w))"
proof (cases "commit_part L fs now b i w")
  case (Pair r w')
  note D = store_invD [OF inv]
  show ?thesis
  proof (cases r)
    case (Inl e)
    then have "w' = w" using commit_part_error [OF D(1,4,5), of now b i e w'] Pair by simp
    then show ?thesis using Pair inv by simp
  next
    case (Inr x)
    from Pair Inr have ok: "commit_part L fs now b i w = (Inr x, w')" by simp
    show ?thesis
    proof (rule commit_part_ok [OF D(1,4,5) ok])
      fix c m e
      let ?h = "sha256sum L c" and ?db = "w_db w"
      assume add: "sql_add_object b i ?h (recorded_size c) (m_type m) (m_subtype m) now ?db = Inr ([e], w_db w')"
        and db': "db_inv (w_db w')" "entry (w_db w') b (db_o_id e) = Some e" "db_o_hash e = ?h"
        and d': "disk_inv fs (w_disk w')"
        and st: "stored L fs (w_disk w') = (if db_o_id e = i then (stored L fs (w_disk w))(i \<mapsto> c)
           else stored L fs (w_disk w))"
        and md: "stored_mode L fs (w_disk w') = (if db_o_id e = i
           then (stored_mode L fs (w_disk w))(i \<mapsto> object_permissions) else stored_mode L fs (w_disk w))"
      have row: "object_of (w_db w') (db_o_id e) \<in> set (tb_object (w_db w'))"
          "ob_id (object_of (w_db w') (db_o_id e)) = db_o_id e" "ob_hash (object_of (w_db w') (db_o_id e)) = ?h"
        using entry_SomeD(3,4) [OF db'(1,2)] object_of_ref [OF db'(1)] db'(3) by auto
      have "agree L (tb_object (w_db w')) (stored L fs (w_disk w')) (stored_mode L fs (w_disk w'))"
      proof (cases "?h \<in> ob_hash ` set (tb_object ?db)")
        case True
        then have same: "tb_object (w_db w') = tb_object ?db" using sql_add_object_objects(1) [OF D(4) add] by simp
        show ?thesis
        proof (cases "db_o_id e = i")
          case True
          with agree_replace [OF D(6) db_invD(3) [OF D(4)] row(1) [unfolded same], of c] row(2,3) same st md
          show ?thesis by simp
        next
          case False
          with D(6) same st md show ?thesis by simp
        qed
      next
        case False
        let ?r = "\<lparr>ob_id = i, ob_hash = ?h, ob_size = recorded_size c, ob_type = m_type m,
          ob_subtype = m_subtype m, ob_added = now\<rparr>"
        have objs: "tb_object (w_db w') = tb_object ?db @ [?r]"
          using False sql_add_object_objects(1) [OF D(4) add] by simp
        have "i \<notin> ob_id ` set (tb_object ?db)" using db_invD(3) [OF db'(1)] objs by auto
        moreover have "db_o_id e = i"
        proof -
          have "object_of (w_db w') (db_o_id e) \<notin> set (tb_object ?db)"
            using row(3) False by (metis imageI)
          then have "object_of (w_db w') (db_o_id e) = ?r" using row(1) objs by simp
          then show ?thesis using row(2) by simp
        qed
        ultimately show ?thesis using agree_new [OF D(6), of ?r c] objs st md by simp
      qed
      with D(1) db'(1) d' show ?thesis using Pair by (simp add: store_inv_def)
    qed
  qed
qed

section \<open>Pruning\<close>

lemma remove_files_eq:
  assumes law: "uuid_law L" and inv: "disk_inv fs d"
  shows "\<exists>d'. remove_files L fs xs d = (Inr (), d') \<and> disk_inv fs d' \<and>
    stored L fs d' = (\<lambda>u. if u \<in> db_o_id ` set xs then None else stored L fs d u) \<and>
    stored_mode L fs d' = (\<lambda>u. if u \<in> db_o_id ` set xs then None else stored_mode L fs d u) \<and>
    staged L fs d' = staged L fs d"
  using inv
proof (induction xs arbitrary: d)
  case (Cons x xs)
  obtain d1 where d1: "remove_object_file fs (uuid_text L (db_o_id x)) d = (Inr (), d1)" "disk_inv fs d1"
    "stored L fs d1 = (stored L fs d)(db_o_id x := None)" "staged L fs d1 = staged L fs d"
    "stored_mode L fs d1 = (stored_mode L fs d)(db_o_id x := None)"
    using erase_disk [OF law Cons.prems] by blast
  obtain d2 where d2: "remove_files L fs xs d1 = (Inr (), d2)" "disk_inv fs d2"
    "stored L fs d2 = (\<lambda>u. if u \<in> db_o_id ` set xs then None else stored L fs d1 u)"
    "stored_mode L fs d2 = (\<lambda>u. if u \<in> db_o_id ` set xs then None else stored_mode L fs d1 u)"
    "staged L fs d2 = staged L fs d1"
    using Cons.IH [OF d1(2)] by blast
  show ?case
    by (rule exI [of _ d2]) (simp add: d1 d2 fun_eq_iff)
qed simp

lemma prune_eq:
  assumes inv: "store_inv L fs w"
  defines "orphans \<equiv> filter (\<lambda>r. ob_id r \<notin> referenced (w_db w)) (tb_object (w_db w))"
  obtains d' where "prune L fs w = (Inr (map (to_object \<circ> object_view) orphans),
      \<lparr>w_db = snd (sql_remove_orphan_objects (w_db w)), w_disk = d'\<rparr>)"
    "disk_inv fs d'" "staged L fs d' = staged L fs (w_disk w)"
    "stored L fs d' = (\<lambda>u. if u \<in> ob_id ` set orphans then None else stored L fs (w_disk w) u)"
    "stored_mode L fs d' = (\<lambda>u. if u \<in> ob_id ` set orphans then None else stored_mode L fs (w_disk w) u)"
proof -
  note D = store_invD [OF inv]
  obtain rows db' where p: "sql_remove_orphan_objects (w_db w) = (rows, db')" by fastforce
  have rows: "rows = map object_view orphans"
    using sql_prune_eq(1) [of "w_db w"] p by (simp add: orphans_def)
  have "connection_remove_orphan_objects connect (w_db w) = (Inr rows, db')"
    using p by (simp add: connection_remove_orphan_objects_def fetch_rows_prepared_def prepared_provide)
  moreover obtain d' where d': "remove_files L fs rows (w_disk w) = (Inr (), d')" "disk_inv fs d'"
    "stored L fs d' = (\<lambda>u. if u \<in> db_o_id ` set rows then None else stored L fs (w_disk w) u)"
    "stored_mode L fs d' = (\<lambda>u. if u \<in> db_o_id ` set rows then None else stored_mode L fs (w_disk w) u)"
    "staged L fs d' = staged L fs (w_disk w)"
    using remove_files_eq [OF D(2,5)] by blast
  moreover have "db_o_id ` set rows = ob_id ` set orphans" by (simp add: rows image_image)
  ultimately show ?thesis
    by (intro that [of d']) (simp_all add: prune_def on_db_def on_disk_def p, cases w, simp add: rows)
qed

lemma prune_inv [inv_intros]:
  assumes inv: "store_inv L fs w" shows "store_inv L fs (snd (prune L fs w))"
proof (rule prune_eq [OF inv])
  note D = store_invD [OF inv]
  fix d'
  let ?P = "\<lambda>r. ob_id r \<in> referenced (w_db w)"
  assume p: "prune L fs w = (Inr (map (to_object \<circ> object_view)
      (filter (\<lambda>r. ob_id r \<notin> referenced (w_db w)) (tb_object (w_db w)))),
      \<lparr>w_db = snd (sql_remove_orphan_objects (w_db w)), w_disk = d'\<rparr>)"
    and d': "disk_inv fs d'"
      "stored L fs d' = (\<lambda>u. if u \<in> ob_id ` set (filter (\<lambda>r. ob_id r \<notin> referenced (w_db w)) (tb_object (w_db w)))
         then None else stored L fs (w_disk w) u)"
      "stored_mode L fs d' = (\<lambda>u. if u \<in> ob_id ` set (filter (\<lambda>r. ob_id r \<notin> referenced (w_db w)) (tb_object (w_db w)))
         then None else stored_mode L fs (w_disk w) u)"
  have "agree L (filter ?P (tb_object (w_db w))) (stored L fs d') (stored_mode L fs d')"
    by (rule agree_filter [OF D(6) db_invD(3) [OF D(4)]]) (simp_all add: d'(2,3))
  then show ?thesis
    using D(1) d'(1) sql_prune_inv [OF D(4)] by (simp add: p store_inv_def sql_prune_eq)
qed

section \<open>Writing parts\<close>

text \<open>A client's upload: get the part, write the chunks, close it.\<close>

definition upload_part :: "libs \<Rightarrow> filesystem \<Rightarrow> uuid \<Rightarrow> uuid option \<Rightarrow> blob list \<Rightarrow> world \<Rightarrow> uuid \<times> world" where
  "upload_part L fs generated part_id chunks w =
     (case store_get_part L fs generated part_id w of (p, w1) \<Rightarrow>
       (pt_id p, w1\<lparr>w_disk := part_close (foldl part_write p chunks) (w_disk w1)\<rparr>))"

lemma upload_part_eq:
  "upload_part L fs g (Some i) chunks w = (i, w\<lparr>w_disk := write_part L fs i chunks (w_disk w)\<rparr>)"
  "upload_part L fs g None chunks w = (g, w\<lparr>w_disk := write_part L fs g chunks (w_disk w)\<rparr>)"
  by (simp_all add: upload_part_def store_get_part_def write_part_def get_part_def Let_def split: prod.split)

lemma write_part_mode: 
  assumes inv: "disk_inv fs d"
  shows "stored_mode L fs (write_part L fs i chunks d) = stored_mode L fs d"
  using object_at_not_part [OF inv] by (simp add: stored_mode_def write_part_eq [OF inv] fun_eq_iff)

lemma write_part_store_inv [inv_intros]:
  assumes inv: "store_inv L fs w"
  shows "store_inv L fs (w\<lparr>w_disk := write_part L fs i chunks (w_disk w)\<rparr>)"
  using inv stage_disk(1,2) [of fs "w_disk w" L i chunks] write_part_mode [of fs "w_disk w" L i chunks]
  by (simp add: store_inv_def)

lemma upload_part_inv [inv_intros]:
  "store_inv L fs w \<Longrightarrow> store_inv L fs (snd (upload_part L fs g i chunks w))"
  by (cases i) (simp_all add: upload_part_eq write_part_store_inv)

section \<open>A new store\<close>

text \<open>An empty database and the directories the filesystem's constructor makes.\<close>

definition new_store :: "path \<Rightarrow> mode \<Rightarrow> world" where
  "new_store home m =
     \<lparr>w_db = empty_database, w_disk = snd (filesystem_new home (blank_disk home m))\<rparr>"

lemma new_store_inv [inv_intros]: "laws L \<Longrightarrow> store_inv L (home_fs home) (new_store home m)"
  using filesystem_new_blank [of home m]
  by (auto simp: store_inv_def new_store_def agree_def empty_database_def stored_def
      db_inv_empty [unfolded empty_database_def])

end
