(* ===== verification/Store_Behaviour.thy ===== *)
theory Store_Behaviour
  imports Store_Laws
begin

text \<open>
  What each operation of the object store returns, on every branch, in a world that satisfies the
  invariant: equations over the catalogue (\<open>entry\<close>, \<open>members\<close>, \<open>total_size\<close>) and the disk's
  contents (\<open>stored\<close>, \<open>staged\<close>).
\<close>

section \<open>Bucket names\<close>

lemma process_bucket_name_eq:
  "trim_law L \<Longrightarrow> process_bucket_name L s =
     (if \<forall>c \<in> set s. is_space c then Inl (Invalid_data ''bucket name cannot be empty'') else Inr (strip s))"
  by (simp add: process_bucket_name_def trim_law_def Let_def strip_Nil_iff)

lemma dropWhile_idem: "dropWhile P (dropWhile P xs) = dropWhile P xs"
  by (induction xs) auto

lemma hd_strip: "strip s \<noteq> [] \<Longrightarrow> \<not> is_space (hd (strip s)) \<and> \<not> is_space (last (strip s))"
proof -
  assume ne: "strip s \<noteq> []"
  let ?t = "dropWhile is_space s"
  let ?u = "dropWhile is_space (rev ?t)"
  have u: "?u \<noteq> []" using ne by (simp add: strip_def)
  have last: "last (strip s) = hd ?u" using u by (simp add: strip_def last_rev)
  have "suffix ?u (rev ?t)" by (rule suffix_dropWhile)
  then obtain v where v: "rev ?t = v @ ?u" by (auto simp: suffix_def)
  then have t: "?t = rev ?u @ rev v" by (metis rev_append rev_rev_ident)
  have eq: "strip s = rev ?u" by (simp only: strip_def)
  have "rev ?u \<noteq> []" using u by (simp only: rev_is_Nil_conv not_False_eq_True)
  then have "hd ?t = hd (rev ?u)" "?t \<noteq> []" using t by (metis hd_append2, metis append_is_Nil_conv)
  then have "\<not> is_space (hd (strip s))" unfolding eq using hd_dropWhile by metis
  then show ?thesis using hd_dropWhile u last by metis
qed

text \<open>A processed name is a fixed point: it can be processed again, as a rename to itself does.\<close>

lemma strip_strip: "strip (strip s) = strip s"
proof (cases "strip s = []")
  case True
  moreover have "strip [] = []" by (simp add: strip_def)
  ultimately show ?thesis by (simp only:)
next
  case False
  have "dropWhile is_space (strip s) = strip s"
    using hd_strip [OF False] False by (cases "strip s") auto
  moreover have "dropWhile is_space (rev (strip s)) = rev (strip s)"
    using hd_strip [OF False] False by (cases "rev (strip s)") (auto simp: last_rev hd_rev [symmetric])
  ultimately show ?thesis by (simp add: strip_def [of "strip s"])
qed

section \<open>Buckets\<close>

definition fresh_bucket :: "uuid \<Rightarrow> string \<Rightarrow> time_point \<Rightarrow> bucket" where
  "fresh_bucket i n now = \<lparr>b_id = i, b_name = n, b_date_created = now, b_size = 0, b_space_used = 0\<rparr>"

lemma store_create_bucket_eq:
  assumes inv: "store_inv L fs w" and n: "process_bucket_name L name = Inr n"
  shows "store_create_bucket L i now name w =
    (if i \<in> bk_id ` set (tb_bucket (w_db w)) \<or> n \<in> bk_name ` set (tb_bucket (w_db w))
     then (Inl (Unique_bucket_violation n), w)
     else (Inr (fresh_bucket i n now), w\<lparr>w_db := (w_db w)\<lparr>tb_bucket := tb_bucket (w_db w) @
            [\<lparr>bk_id = i, bk_name = n, bk_created = now\<rparr>]\<rparr>\<rparr>))"
proof (cases "sql_create_bucket i now n (w_db w)")
  case (Inl e)
  have "e = Unique_violation" "i \<in> bk_id ` set (tb_bucket (w_db w)) \<or> n \<in> bk_name ` set (tb_bucket (w_db w))"
    using sql_create_bucket_Inl_iff [OF store_invD(4) [OF inv]] Inl by blast+
  then show ?thesis
    using n Inl by (simp add: store_create_bucket_def on_db_def connection_create_bucket_def
        step_simps prepared_provide)
next
  case (Inr p)
  obtain rows db' where p: "p = (rows, db')" by fastforce
  note R = sql_create_bucket_Inr [OF store_invD(4) [OF inv] Inr [unfolded p]]
  have "connection_create_bucket L connect i now n (w_db w) = (Inr (hd rows), db')"
    using Inr p R(1) store_invD(3) [OF inv]
    by (simp add: connection_create_bucket_def step_simps prepared_provide)
  then show ?thesis
    using n R(1-4) by (simp add: store_create_bucket_def on_db_def fresh_bucket_def to_bucket_def)
qed

text \<open>The view of one bucket, converted: its counts when they fit in a \<open>bigint\<close>.\<close>

definition bucket_info :: "database \<Rightarrow> bucket_row \<Rightarrow> bucket" where
  "bucket_info db r = \<lparr>b_id = bk_id r, b_name = bk_name r, b_date_created = bk_created r,
     b_size = of_nat (card (members db (bk_id r))),
     b_space_used = word_of_int (total_size db (members db (bk_id r)))\<rparr>"

definition counts_fit :: "database \<Rightarrow> bool" where
  "counts_fit db \<longleftrightarrow> (\<forall>r \<in> set (tb_bucket db). is_int64 (int (card (members db (bk_id r)))) \<and>
     is_int64 (total_size db (members db (bk_id r))))"

definition bucket_named :: "database \<Rightarrow> string \<Rightarrow> bucket_row option" where
  "bucket_named db n = row_map bk_name (tb_bucket db) n"

lemma int8_fits: "is_int64 x \<Longrightarrow> int8 x = Inr x"
  by (simp add: int8_def)

lemma bucket_view_fits:
  assumes inv: "db_inv db" and fit: "counts_fit db" and r: "r \<in> set (tb_bucket db)"
  obtains v where "bucket_view db r = Inr v" "to_bucket v = bucket_info db r"
proof -
  let ?v = "\<lparr>db_b_id = bk_id r, db_b_name = bk_name r, db_b_date_created = bk_created r,
    db_b_size = int (card (members db (bk_id r))), db_b_space_used = total_size db (members db (bk_id r))\<rparr>"
  have "is_int64 (int (card (members db (bk_id r))))" "is_int64 (total_size db (members db (bk_id r)))"
    using fit r by (simp_all add: counts_fit_def)
  then have "bucket_view db r = Inr ?v" by (simp add: bucket_view_eq [OF inv] Let_def int8_fits)
  moreover have "to_bucket ?v = bucket_info db r" by (simp add: bucket_info_def to_bucket_def)
  ultimately show ?thesis by (rule that)
qed

lemma store_fetch_bucket_eq:
  assumes inv: "store_inv L fs w" and fit: "counts_fit (w_db w)"
  shows "store_fetch_bucket L n w = (case bucket_named (w_db w) n of
      None \<Rightarrow> (Inl (bucket_not_found n), w) | Some r \<Rightarrow> (Inr (bucket_info (w_db w) r), w))"
proof (cases "bucket_named (w_db w) n")
  case None
  then have "sql_fetch_bucket n (w_db w) = Inr []"
    by (simp add: sql_fetch_bucket_eq [OF store_invD(4) [OF inv]] bucket_named_def)
  then show ?thesis
    using None store_invD(3) [OF inv]
    by (simp add: store_fetch_bucket_def connection_fetch_bucket_def on_db_def reading_def step_simps
        prepared_provide)
next
  case (Some r)
  then have "r \<in> set (tb_bucket (w_db w))" by (auto simp: bucket_named_def dest: row_map_SomeD)
  then obtain v where v: "bucket_view (w_db w) r = Inr v" "to_bucket v = bucket_info (w_db w) r"
    using bucket_view_fits [OF store_invD(4) [OF inv] fit] by metis
  then have "sql_fetch_bucket n (w_db w) = Inr [v]"
    using Some by (simp add: sql_fetch_bucket_eq [OF store_invD(4) [OF inv]] bucket_named_def)
  then show ?thesis
    using Some v(2) store_invD(3) [OF inv]
    by (simp add: store_fetch_bucket_def connection_fetch_bucket_def on_db_def reading_def step_simps
        prepared_provide)
qed

lemma views_fit:
  assumes inv: "db_inv db" and fit: "counts_fit db" and rs: "set rs \<subseteq> set (tb_bucket db)"
  obtains vs where "traverse (bucket_view db) rs = Inr vs" "map to_bucket vs = map (bucket_info db) rs"
  using rs
proof (induction rs arbitrary: thesis)
  case (Cons r rs)
  obtain v where "bucket_view db r = Inr v" "to_bucket v = bucket_info db r"
    using bucket_view_fits [OF inv fit] Cons.prems by auto
  moreover obtain vs where "traverse (bucket_view db) rs = Inr vs" "map to_bucket vs = map (bucket_info db) rs"
    using Cons by auto
  ultimately show ?case using Cons.prems(1) [of "v # vs"] by simp
qed simp

lemma store_fetch_buckets_all_eq:
  assumes inv: "store_inv L fs w" and fit: "counts_fit (w_db w)"
  shows "store_fetch_buckets_all w = (Inr (map (bucket_info (w_db w)) (tb_bucket (w_db w))), w)"
proof -
  obtain vs where "traverse (bucket_view (w_db w)) (tb_bucket (w_db w)) = Inr vs"
    "map to_bucket vs = map (bucket_info (w_db w)) (tb_bucket (w_db w))"
    using views_fit [OF store_invD(4) [OF inv] fit order_refl] .
  then show ?thesis
    by (simp add: store_fetch_buckets_all_def connection_fetch_buckets_all_def on_db_def reading_def
        fetch_rows_prepared_def sql_fetch_buckets_all_def prepared_provide)
qed

text \<open>A list of names yields the named buckets in the order of the names; unknown names are skipped.\<close>

lemma names_join:
  assumes "distinct (map bk_name bs)"
  shows "map snd (inner_join (\<lambda>n b. n = bk_name b) names bs) =
    concat (map (\<lambda>n. option_list (row_map bk_name bs n)) names)"
proof (induction names)
  case (Cons n ns)
  have "filter (\<lambda>b. n = bk_name b) bs = option_list (row_map bk_name bs n)"
    using filter_key_eq [OF assms, of n] by (simp add: option_list_def eq_commute)
  with Cons show ?case by (simp add: inner_join_def comp_def)
qed (simp add: inner_join_def)

lemma store_fetch_buckets_eq:
  assumes inv: "store_inv L fs w" and fit: "counts_fit (w_db w)"
  shows "store_fetch_buckets names w =
    (Inr (map (bucket_info (w_db w)) (concat (map (\<lambda>n. option_list (bucket_named (w_db w) n)) names))), w)"
proof -
  let ?rs = "concat (map (\<lambda>n. option_list (bucket_named (w_db w) n)) names)"
  have eq: "map snd (inner_join (\<lambda>n b. n = bk_name b) names (tb_bucket (w_db w))) = ?rs"
    using names_join [OF db_invD(2) [OF store_invD(4) [OF inv]]] by (simp add: bucket_named_def)
  have "set ?rs \<subseteq> set (tb_bucket (w_db w))"
    by (auto simp: bucket_named_def dest: row_map_SomeD)
  then obtain vs where "traverse (bucket_view (w_db w)) ?rs = Inr vs"
    "map to_bucket vs = map (bucket_info (w_db w)) ?rs"
    using views_fit [OF store_invD(4) [OF inv] fit] by metis
  then show ?thesis
    by (simp add: store_fetch_buckets_def connection_fetch_buckets_def on_db_def reading_def
        fetch_rows_prepared_def sql_fetch_buckets_def prepared_provide eq)
qed

section \<open>Renaming and removing buckets\<close>

lemma store_rename_bucket_eq:
  assumes n: "process_bucket_name L name = Inr n"
  shows "store_rename_bucket L b name w = (case sql_rename_bucket b n (w_db w) of
      Inl e \<Rightarrow> (Inl (if e = Unique_violation then Unique_bucket_violation n else Sql_error e), w)
    | Inr db \<Rightarrow> (Inr (), w\<lparr>w_db := db\<rparr>))"
proof (cases "sql_rename_bucket b n (w_db w)")
  case (Inl e)
  then show ?thesis
    using n by (cases e) (simp_all add: store_rename_bucket_def on_db_def connection_rename_bucket_def
        step_simps prepared_provide)
next
  case (Inr db)
  then show ?thesis
    using n by (simp add: store_rename_bucket_def on_db_def connection_rename_bucket_def step_simps
        prepared_provide)
qed

lemma store_remove_bucket_eq:
  "store_remove_bucket b w = (Inr (), w\<lparr>w_db := sql_remove_bucket b (w_db w)\<rparr>)"
  by (simp add: store_remove_bucket_def on_db_def connection_remove_bucket_def step_simps prepared_provide)

section \<open>Objects\<close>

text \<open>What an operation needs of the world: the constraints for the catalogue, the layout for the files.\<close>

lemma metadata_on:
  "fetch_law L \<Longrightarrow> db_inv (w_db w) \<Longrightarrow> get_object_metadata L b x w = (case entry (w_db w) b x of
     None \<Rightarrow> (Inl (object_not_found L b x), w) | Some e \<Rightarrow> (Inr (to_object e), w))"
  by (simp add: get_object_metadata_def on_db_def connection_get_object_eq split: option.split)

lemma remove_on:
  "fetch_law L \<Longrightarrow> db_inv (w_db w) \<Longrightarrow> store_remove_object L b x w = (case entry (w_db w) b x of
     None \<Rightarrow> Inl (object_not_found L b x) | Some e \<Rightarrow> Inr (to_object e),
     w\<lparr>w_db := snd (sql_remove_object b x (w_db w))\<rparr>)"
  by (simp add: store_remove_object_def on_db_def connection_remove_object_eq split: option.split)

lemma get_object_on:
  assumes "laws L" and "db_inv (w_db w)" and "disk_inv fs (w_disk w)"
  shows "get_object L fs b x w = (case entry (w_db w) b x of
      None \<Rightarrow> (Inl (object_not_found L b x), w)
    | Some e \<Rightarrow> (case stored L fs (w_disk w) x of
         None \<Rightarrow> (Inl (File_error No_such_file), w)
       | Some c \<Rightarrow> (Inr (to_object e, c), w)))"
  using assms unfolding laws_def
  by (simp add: get_object_def get_object_metadata_def on_db_def connection_get_object_eq from_disk_def
      open_object_eq split: option.split)

lemma get_object_metadata_eq:
  assumes inv: "store_inv L fs w"
  shows "get_object_metadata L b x w = (case entry (w_db w) b x of
      None \<Rightarrow> (Inl (object_not_found L b x), w) | Some e \<Rightarrow> (Inr (to_object e), w))"
  by (rule metadata_on [OF store_invD(3,4) [OF inv]])

text \<open>A listed object's content is on the disk: opening it cannot fail.\<close>

lemma listed_stored:
  assumes inv: "store_inv L fs w" and e: "entry (w_db w) b x = Some e"
  obtains c where "stored L fs (w_disk w) x = Some c" "sha256sum L c = db_o_hash e"
proof -
  note D = store_invD [OF inv] and E = entry_SomeD [OF store_invD(4) [OF inv] e]
  have r: "object_of (w_db w) x \<in> set (tb_object (w_db w))" "ob_id (object_of (w_db w) x) = x"
    using object_of_ref [OF D(4) E(3)] by auto
  obtain c where "stored L fs (w_disk w) (ob_id (object_of (w_db w) x)) = Some c"
    "sha256sum L c = ob_hash (object_of (w_db w) x)"
    using agree_stored [OF D(6) r(1)] .
  with r(2) E(4) show ?thesis by (intro that) simp_all
qed

lemma get_object_eq:
  assumes inv: "store_inv L fs w"
  shows "get_object L fs b x w = (case entry (w_db w) b x of
      None \<Rightarrow> (Inl (object_not_found L b x), w)
    | Some e \<Rightarrow> (Inr (to_object e, the (stored L fs (w_disk w) x)), w))"
proof (cases "entry (w_db w) b x")
  case None
  then show ?thesis by (simp add: get_object_def get_object_metadata_eq [OF inv])
next
  case (Some e)
  then obtain c where "stored L fs (w_disk w) x = Some c" using listed_stored [OF inv] by metis
  with Some show ?thesis
    by (simp add: get_object_def get_object_metadata_eq [OF inv] from_disk_def
        open_object_eq [OF store_invD(2,5) [OF inv]])
qed

lemma store_remove_object_eq:
  assumes inv: "store_inv L fs w"
  shows "store_remove_object L b x w = (case entry (w_db w) b x of
      None \<Rightarrow> Inl (object_not_found L b x) | Some e \<Rightarrow> Inr (to_object e),
    w\<lparr>w_db := snd (sql_remove_object b x (w_db w))\<rparr>)"
  by (rule remove_on [OF store_invD(3,4) [OF inv]])

lemma store_remove_objects_eq:
  assumes inv: "store_inv L fs w"
    and fit: "is_int64 (int (card (members (w_db w) b \<inter> set xs)))"
      "is_int64 (total_size (w_db w) (members (w_db w) b \<inter> set xs))"
  shows "store_remove_objects L b xs w =
    (Inr \<lparr>rr_objects_removed = of_nat (card (members (w_db w) b \<inter> set xs)),
          rr_space_freed = word_of_int (total_size (w_db w) (members (w_db w) b \<inter> set xs))\<rparr>,
     w\<lparr>w_db := delete_links (\<lambda>l. ln_bucket l = b \<and> ln_object l \<in> set xs) (w_db w)\<rparr>)"
  using store_invD(3) [OF inv]
  by (simp add: store_remove_objects_def on_db_def connection_remove_objects_def step_simps prepared_provide
      sql_remove_objects_eq [OF store_invD(4) [OF inv]] Let_def int8_fits fit to_remove_result_def)

lemma store_fetch_totals_eq:
  assumes inv: "store_inv L fs w" and db: "db = w_db w"
    and fit: "is_int64 (int (length (tb_bucket db)))" "is_int64 (int (length (tb_object db)))"
      "is_int64 (\<Sum>r \<leftarrow> tb_object db. ob_size r)"
  shows "store_fetch_totals L w = (Inr \<lparr>st_buckets = of_nat (length (tb_bucket db)),
      st_objects = of_nat (length (tb_object db)),
      st_space_used = word_of_int (\<Sum>r \<leftarrow> tb_object db. ob_size r)\<rparr>, w)"
  using store_invD(3) [OF inv] fit
  by (simp add: store_fetch_totals_def on_db_def connection_fetch_store_totals_def reading_def step_simps
      prepared_provide sql_fetch_store_totals_def int8_fits to_store_totals_def db)

lemma store_get_errors_eq: "store_get_errors w = (Inr (map object_error_view (tb_object_error (w_db w))), w)"
  by (simp add: store_get_errors_def on_db_def connection_get_errors_def fetch_rows_prepared_def
      reading_def prepared_provide sql_get_errors_def)

section \<open>What a successful fetch tells\<close>

lemma bucket_view_Inr:
  assumes inv: "db_inv db" and v: "bucket_view db r = Inr v"
  shows "to_bucket v = bucket_info db r" and "is_int64 (int (card (members db (bk_id r))))"
    and "is_int64 (total_size db (members db (bk_id r)))"
  using v unfolding bucket_view_eq [OF inv]
  by (auto simp: Let_def bind_sum_Inr_iff int8_def to_bucket_def bucket_info_def split: if_splits)

lemma store_fetch_bucket_Inr:
  assumes inv: "store_inv L fs w" and ok: "store_fetch_bucket L n w = (Inr i, w')"
  obtains r where "w' = w" "bucket_named (w_db w) n = Some r" "i = bucket_info (w_db w) r"
    "r \<in> set (tb_bucket (w_db w))" "bk_name r = n"
proof -
  have w': "w' = w" using store_reads(1) [of L n w] ok by simp
  note D = store_invD [OF inv]
  show ?thesis
  proof (cases "bucket_named (w_db w) n")
    case None
    then have "sql_fetch_bucket n (w_db w) = Inr []"
      by (simp add: sql_fetch_bucket_eq [OF D(4)] bucket_named_def)
    then show ?thesis
      using ok D(3) by (simp add: store_fetch_bucket_def connection_fetch_bucket_def on_db_def
          reading_def step_simps prepared_provide)
  next
    case (Some r)
    have r: "r \<in> set (tb_bucket (w_db w))" "bk_name r = n"
      using row_map_SomeD Some unfolding bucket_named_def by fast+
    have sql: "sql_fetch_bucket n (w_db w) = bind_sum (bucket_view (w_db w) r) (\<lambda>v. Inr [v])"
      using Some by (simp add: sql_fetch_bucket_eq [OF D(4)] bucket_named_def)
    then obtain v where v: "bucket_view (w_db w) r = Inr v" "sql_fetch_bucket n (w_db w) = Inr [v]"
      using ok by (cases "bucket_view (w_db w) r")
        (auto simp: store_fetch_bucket_def connection_fetch_bucket_def on_db_def reading_def step_simps
          prepared_provide)
    then have "i = to_bucket v"
      using ok D(3) by (simp add: store_fetch_bucket_def connection_fetch_bucket_def on_db_def
          reading_def step_simps prepared_provide)
    with w' Some r bucket_view_Inr(1) [OF D(4) v(1)] show ?thesis by (intro that) auto
  qed
qed

section \<open>Members and their size\<close>

lemma entry_same:
  "tb_object db' = tb_object db \<Longrightarrow> tb_bucket_object db' = tb_bucket_object db \<Longrightarrow> entry db' = entry db"
  by (simp add: entry_def object_of_def fun_eq_iff)

lemma members_same:
  "tb_object db' = tb_object db \<Longrightarrow> tb_bucket_object db' = tb_bucket_object db \<Longrightarrow> members db' = members db"
  by (rule ext) (simp only: members_def entry_same [of db' db])

lemma total_size_same: "tb_object db' = tb_object db \<Longrightarrow> total_size db' X = total_size db X"
  by (simp add: total_size_def object_of_def)

lemma bucket_info_same:
  assumes "tb_object db' = tb_object db" and "tb_bucket_object db' = tb_bucket_object db"
  shows "bucket_info db' r = bucket_info db r"
  by (simp add: bucket_info_def members_same [OF assms] total_size_same [OF assms(1)])

lemma total_size_split:
  "finite X \<Longrightarrow> total_size db (X - Y) + total_size db (X \<inter> Y) = total_size db X"
  unfolding total_size_def using sum.Int_Diff [of X "\<lambda>x. ob_size (object_of db x)" Y] by linarith

lemma card_split: "finite X \<Longrightarrow> card (X - Y) + card (X \<inter> Y) = card X"
  using card_Int_Diff [of X Y] by linarith

end
