(* ===== verification/Transitions.thy ===== *)
theory Transitions
  imports Prelude
begin

text \<open>
  Processes of the program that suspend and resume are step relations.  The locale
  \<open>terminating_system\<close> collects what makes one correct: an invariant, a measure that every step
  decreases, and a step in every state that is not final.  Its lemmas give the invariant in every
  reachable state, a bound on every run, and a final state that every run can be extended to.
\<close>

text \<open>States reached by a number of steps.\<close>

inductive run :: "('s \<Rightarrow> 's \<Rightarrow> bool) \<Rightarrow> nat \<Rightarrow> 's \<Rightarrow> 's \<Rightarrow> bool" for step where
  run_done: "run step 0 s s"
| run_step: "step s t \<Longrightarrow> run step n t u \<Longrightarrow> run step (Suc n) s u"

inductive_cases run_0E: "run step 0 s u"
inductive_cases run_SucE: "run step (Suc n) s u"

lemma run_trans: "run step m s t \<Longrightarrow> run step n t u \<Longrightarrow> run step (m + n) s u"
  by (induction rule: run.induct) (auto intro: run.intros)

lemma run_snoc: "run step n s t \<Longrightarrow> step t u \<Longrightarrow> run step (Suc n) s u"
  using run_trans [of step n s t 1 u] run_step [of step t u 0 u] run_done [of step u] by simp

lemma run_rtranclp: "run step n s t \<Longrightarrow> step\<^sup>*\<^sup>* s t"
  by (induction rule: run.induct) (auto intro: converse_rtranclp_into_rtranclp)

lemma rtranclp_run: "step\<^sup>*\<^sup>* s t \<Longrightarrow> \<exists>n. run step n s t"
  by (induction rule: converse_rtranclp_induct) (auto intro: run.intros)

locale invariant_system =
  fixes step :: "'s \<Rightarrow> 's \<Rightarrow> bool"
    and inv :: "'s \<Rightarrow> bool"
  assumes inv_step: "inv s \<Longrightarrow> step s t \<Longrightarrow> inv t"
begin

lemma inv_run: "run step n s t \<Longrightarrow> inv s \<Longrightarrow> inv t"
  by (induction rule: run.induct) (auto intro: inv_step)

lemma inv_reachable: "step\<^sup>*\<^sup>* s t \<Longrightarrow> inv s \<Longrightarrow> inv t"
  by (induction rule: rtranclp_induct) (auto intro: inv_step)

end

locale terminating_system = invariant_system +
  fixes final :: "'a \<Rightarrow> bool"
    and size_of :: "'a \<Rightarrow> nat"
  assumes decreasing: "inv s \<Longrightarrow> step s t \<Longrightarrow> size_of t < size_of s"
    and live: "inv s \<Longrightarrow> \<not> final s \<Longrightarrow> \<exists>t. step s t"
begin

lemma run_bound: "run step n s t \<Longrightarrow> inv s \<Longrightarrow> n + size_of t \<le> size_of s"
proof (induction rule: run.induct)
  case (run_step s t n u)
  then show ?case using decreasing [of s t] inv_step [of s t] by fastforce
qed simp

lemma reaches_final: "inv s \<Longrightarrow> \<exists>t. step\<^sup>*\<^sup>* s t \<and> final t"
proof (induction "size_of s" arbitrary: s rule: less_induct)
  case less
  show ?case
  proof (cases "final s")
    case False
    with less.prems live obtain t where t: "step s t" by blast
    with less obtain u where "step\<^sup>*\<^sup>* t u" "final u" using decreasing inv_step by blast
    with t show ?thesis by (blast intro: converse_rtranclp_into_rtranclp)
  qed blast
qed

lemma no_infinite_run: "inv (f 0) \<Longrightarrow> \<exists>n. \<not> step (f n) (f (Suc n))"
proof (rule ccontr)
  assume inv: "inv (f 0)" and "\<nexists>n. \<not> step (f n) (f (Suc n))"
  then have step: "step (f n) (f (Suc n))" for n by blast
  have "run step n (f 0) (f n)" for n
    by (induction n) (auto intro: run_done run_snoc step)
  from run_bound [OF this [of "Suc (size_of (f 0))"] inv] show False by simp
qed

lemma stuck_final: "inv s \<Longrightarrow> (\<And>t. \<not> step s t) \<Longrightarrow> final s"
  using live by blast

end

text \<open>
  Some steps are allowed by the program and left out by those who use it.  The steps carry labels, a run is the list
  of the states it passes through with the label of the step taken there, and what the users do is a condition on
  that list.
\<close>

inductive trace :: "('s \<Rightarrow> 'l \<Rightarrow> 's \<Rightarrow> bool) \<Rightarrow> 's \<Rightarrow> ('s \<times> 'l) list \<Rightarrow> 's \<Rightarrow> bool" for step where
  trace_done: "trace step s [] s"
| trace_step: "step s l t \<Longrightarrow> trace step t tr u \<Longrightarrow> trace step s ((s, l) # tr) u"

inductive_simps trace_simps [simp]: "trace step s [] t" "trace step s (x # tr) t"

lemma trace_append: "trace step s (tr @ tr') u \<longleftrightarrow> (\<exists>t. trace step s tr t \<and> trace step t tr' u)"
  by (induction tr arbitrary: s) auto

lemma trace_snoc: "trace step s tr t \<Longrightarrow> step t l u \<Longrightarrow> trace step s (tr @ [(t, l)]) u"
  by (auto simp: trace_append)

definition allowed :: "('l \<Rightarrow> 's \<Rightarrow> bool) \<Rightarrow> ('s \<times> 'l) list \<Rightarrow> bool" where
  "allowed guard tr \<longleftrightarrow> (\<forall>(s, l) \<in> set tr. guard l s)"

lemma allowed_simps [simp]:
  "allowed guard []" "allowed guard ((s, l) # tr) \<longleftrightarrow> guard l s \<and> allowed guard tr"
  "allowed guard (tr @ tr') \<longleftrightarrow> allowed guard tr \<and> allowed guard tr'"
  by (auto simp: allowed_def)

lemma rtranclp_trace:
  "(\<lambda>s t. \<exists>l. step s l t \<and> guard l s)\<^sup>*\<^sup>* s t \<longleftrightarrow> (\<exists>tr. trace step s tr t \<and> allowed guard tr)"
proof
  assume "(\<lambda>s t. \<exists>l. step s l t \<and> guard l s)\<^sup>*\<^sup>* s t"
  then show "\<exists>tr. trace step s tr t \<and> allowed guard tr"
  proof (induction rule: rtranclp_induct)
    case base
    then show ?case by (intro exI [of _ "[]"]) simp
  next
    case (step t u)
    then obtain tr l where "trace step s tr t" "allowed guard tr" "step t l u" "guard l t" by blast
    then show ?case by (intro exI [of _ "tr @ [(t, l)]"]) (auto intro: trace_snoc)
  qed
next
  have "trace step s tr t \<Longrightarrow> allowed guard tr \<Longrightarrow> (\<lambda>s t. \<exists>l. step s l t \<and> guard l s)\<^sup>*\<^sup>* s t" for tr
    by (induction rule: trace.induct) (auto intro: converse_rtranclp_into_rtranclp)
  then show "\<exists>tr. trace step s tr t \<and> allowed guard tr \<Longrightarrow> (\<lambda>s t. \<exists>l. step s l t \<and> guard l s)\<^sup>*\<^sup>* s t"
    by blast
qed

locale guarded_system =
  fixes step :: "'s \<Rightarrow> 'l \<Rightarrow> 's \<Rightarrow> bool"
    and guard :: "'l \<Rightarrow> 's \<Rightarrow> bool"
    and inv :: "'s \<Rightarrow> bool"
  assumes guarded_step: "inv s \<Longrightarrow> step s l t \<Longrightarrow> guard l s \<Longrightarrow> inv t"
begin

lemma inv_trace: "trace step s tr t \<Longrightarrow> allowed guard tr \<Longrightarrow> inv s \<Longrightarrow> inv t"
  by (induction rule: trace.induct) (auto intro: guarded_step)

end

sublocale guarded_system \<subseteq> invariant_system "\<lambda>s t. \<exists>l. step s l t \<and> guard l s" inv
  by unfold_locales (blast intro: guarded_step)

text \<open>Steps that do not increase a measure decrease it only finitely often.\<close>

lemma finite_decreases:
  fixes g :: "nat \<Rightarrow> nat"
  assumes "\<And>n. g (Suc n) \<le> g n"
  shows "finite {n. g (Suc n) < g n}"
proof -
  have bound: "card {n. n < k \<and> g (Suc n) < g n} + g k \<le> g 0" for k
  proof (induction k)
    case (Suc k)
    have "{n. n < Suc k \<and> g (Suc n) < g n} =
        {n. n < k \<and> g (Suc n) < g n} \<union> (if g (Suc k) < g k then {k} else {})"
      by (auto simp: less_Suc_eq)
    then have "card {n. n < Suc k \<and> g (Suc n) < g n} + g (Suc k) \<le> card {n. n < k \<and> g (Suc n) < g n} + g k"
      using assms [of k] by (simp add: card_insert_if)
    with Suc show ?case by simp
  qed simp
  show ?thesis
  proof (rule ccontr)
    assume "infinite {n. g (Suc n) < g n}"
    then obtain A where A: "A \<subseteq> {n. g (Suc n) < g n}" "finite A" "card A = Suc (g 0)"
      using infinite_arbitrarily_large by metis
    have "A \<subseteq> {n. n < Suc (Max A) \<and> g (Suc n) < g n}" using A(1,2) by (auto simp: less_Suc_eq_le)
    from card_mono [OF _ this] have "Suc (g 0) \<le> card {n. n < Suc (Max A) \<and> g (Suc n) < g n}"
      using A(3) by simp
    with bound [of "Suc (Max A)"] show False by simp
  qed
qed

end
