(* ===== verification/Check.thy ===== *)
theory Check
  imports Store_Laws Transitions
begin

text \<open>
  \<open>object_store::check\<close>: the coroutine that streams the objects from the database in batches,
  starts a task for each (\<open>check_object_task\<close>, whose work a thread pool does in any order), waits
  until few enough tasks run, and writes the collected results to the database in the transaction
  it opened.  The coroutines interleave at every \<open>co_await\<close>: \<open>check_step\<close> is one resumption.
\<close>

section \<open>Progress\<close>

record check_progress =
  pg_success :: uint64
  pg_errors :: uint64
  pg_total :: uint64

definition completed :: "check_progress \<Rightarrow> uint64" where
  "completed p = pg_success p + pg_errors p"

section \<open>One object\<close>

text \<open>\<open>check_object\<close> is \<open>noexcept\<close>: an exception is the message it carries.\<close>

definition check_object :: "libs \<Rightarrow> filesystem \<Rightarrow> disk \<Rightarrow> db_object \<Rightarrow> string" where
  "check_object L fs d obj =
     (case object_path fs (uuid_text L (db_o_id obj)) of
        Inl e \<Rightarrow> what L e
      | Inr p \<Rightarrow>
          if \<not> exists_path d p then ''file missing''
          else (case hash_file L d p of
                  Inl e \<Rightarrow> what L e
                | Inr h \<Rightarrow> if h \<noteq> db_o_hash obj then ''hash mismatch'' else []))"

definition check_record :: "libs \<Rightarrow> filesystem \<Rightarrow> disk \<Rightarrow> db_object \<Rightarrow> object_error" where
  "check_record L fs d obj = \<lparr>oe_id = db_o_id obj, oe_message = check_object L fs d obj\<rparr>"

section \<open>The coroutine\<close>

text \<open>
  The program counter: about to test the portal and fetch (\<open>Fetching\<close>), in \<open>counter.await\<close>
  (\<open>Awaiting\<close>), in \<open>update_object_errors\<close> (\<open>Updating\<close>), returned after the commit, or left by an
  exception.  \<open>ck_portal\<close> holds the batches the portal has still to deliver; it converts to
  \<open>true\<close> as long as there are some.  \<open>ck_running\<close> are the tasks that have been started and have
  not finished, so its length is the value of \<open>counter\<close>.  \<open>ck_db\<close> is the database as the
  transaction sees it, \<open>ck_saved\<close> the state a rollback restores.
\<close>

datatype check_pc = Fetching | Awaiting | Updating | Returned | Threw error

record check_state =
  ck_pc :: check_pc
  ck_portal :: "db_object list list"
  ck_running :: "db_object list"
  ck_in :: "object_error list"
  ck_out :: "object_error list"
  ck_progress :: check_progress
  ck_db :: database
  ck_saved :: database

text \<open>Division of \<open>int\<close>s truncates.\<close>

definition half :: "int \<Rightarrow> int" where
  "half n = (if 0 \<le> n then n div 2 else - ((- n) div 2))"

definition task_done :: "libs \<Rightarrow> filesystem \<Rightarrow> disk \<Rightarrow> db_object \<Rightarrow> check_state \<Rightarrow> check_state" where
  "task_done L fs d obj s =
     (let r = check_record L fs d obj; p = ck_progress s
      in s\<lparr>ck_running := remove1 obj (ck_running s),
           ck_in := ck_in s @ [r],
           ck_progress := (if oe_message r = [] then p\<lparr>pg_success := pg_success p + 1\<rparr>
                           else p\<lparr>pg_errors := pg_errors p + 1\<rparr>)\<rparr>)"

definition fetch_batch :: "check_state \<Rightarrow> check_state" where
  "fetch_batch s = s\<lparr>ck_pc := Awaiting, ck_portal := tl (ck_portal s),
     ck_running := ck_running s @ hd (ck_portal s)\<rparr>"

definition await_limit :: "int \<Rightarrow> check_state \<Rightarrow> int" where
  "await_limit batch_size s = (if ck_portal s \<noteq> [] then half batch_size else 0)"

definition swap_records :: "check_state \<Rightarrow> check_state" where
  "swap_records s = s\<lparr>ck_pc := Updating, ck_in := ck_out s, ck_out := ck_in s\<rparr>"

definition update_done :: "check_state \<Rightarrow> check_state" where
  "update_done s =
     (case connection_update_object_errors connect (ck_out s) (ck_db s) of
        (Inr _, db) \<Rightarrow> s\<lparr>ck_pc := Fetching, ck_db := db, ck_out := []\<rparr>
      | (Inl e, db) \<Rightarrow> s\<lparr>ck_pc := Threw e, ck_db := ck_saved s\<rparr>)"

inductive check_step :: "libs \<Rightarrow> filesystem \<Rightarrow> disk \<Rightarrow> int \<Rightarrow> check_state \<Rightarrow> check_state \<Rightarrow> bool"
  for L fs d batch_size where
  Task: "obj \<in> set (ck_running s) \<Longrightarrow> check_step L fs d batch_size s (task_done L fs d obj s)"
| Fetch: "ck_pc s = Fetching \<Longrightarrow> ck_portal s \<noteq> [] \<Longrightarrow> check_step L fs d batch_size s (fetch_batch s)"
| Commit: "ck_pc s = Fetching \<Longrightarrow> ck_portal s = [] \<Longrightarrow>
    check_step L fs d batch_size s (s\<lparr>ck_pc := Returned\<rparr>)"
| Resume: "ck_pc s = Awaiting \<Longrightarrow> int (length (ck_running s)) \<le> await_limit batch_size s \<Longrightarrow>
    check_step L fs d batch_size s (swap_records s)"
| Update: "ck_pc s = Updating \<Longrightarrow> check_step L fs d batch_size s (update_done s)"

inductive_cases check_stepE: "check_step L fs d batch_size s t"

text \<open>
  The coroutine's start: the total from the store's totals, and the portal over \<open>get_objects\<close>,
  which pg++ and the server cut into \<open>batches\<close>.
\<close>

definition check_start :: "uint64 \<Rightarrow> db_object list list \<Rightarrow> database \<Rightarrow> check_state" where
  "check_start n batches db = \<lparr>ck_pc = Fetching, ck_portal = batches, ck_running = [],
     ck_in = [], ck_out = [], ck_progress = \<lparr>pg_success = 0, pg_errors = 0, pg_total = n\<rparr>,
     ck_db = db, ck_saved = db\<rparr>"

text \<open>
  The prologue asks for the totals before it begins its transaction and opens the portal, and suspends in between:
  \<open>before\<close> is the database at the first, \<open>w\<close> the world at the second.  It may throw: \<open>fetch_store_totals\<close> overflows, for
  example.
\<close>

definition check_total :: "libs \<Rightarrow> database \<Rightarrow> error + uint64" where
  "check_total L before =
     bind_sum (fst (connection_fetch_store_totals L connect before)) (\<lambda>t. Inr (st_objects (to_store_totals t)))"

definition check_begin :: "libs \<Rightarrow> db_object list list \<Rightarrow> database \<Rightarrow> world \<Rightarrow> error + check_state" where
  "check_begin L batches before w =
     bind_sum (check_total L before) (\<lambda>n. Inr (check_start n batches (w_db w)))"

text \<open>What a portal with a row limit delivers: the rows of the statement, in order, in batches.\<close>

definition portal_law :: "db_object list list \<Rightarrow> database \<Rightarrow> bool" where
  "portal_law batches db \<longleftrightarrow> concat batches = sql_get_objects db"

definition check_final :: "check_state \<Rightarrow> bool" where
  "check_final s \<longleftrightarrow> ck_running s = [] \<and> (ck_pc s = Returned \<or> (\<exists>e. ck_pc s = Threw e))"

end
