(* ===== verification/Check_Laws.thy ===== *)
theory Check_Laws
  imports Check "HOL-Library.Multiset"
begin

text \<open>
  The invariant of a running check (every object is in exactly one of: still to be delivered, being
  checked, recorded; the database holds what has been flushed), its interpretation as a terminating
  system, and what a finished check leaves.
\<close>

section \<open>Checking one object\<close>

lemma check_object_eq:
  assumes law: "uuid_law L" and inv: "disk_inv fs d"
  shows "check_object L fs d obj = (case stored L fs d (db_o_id obj) of
      None \<Rightarrow> ''file missing''
    | Some c \<Rightarrow> if sha256sum L c \<noteq> db_o_hash obj then ''hash mismatch'' else [])"
  using law object_at_not_dir [OF inv, of L "db_o_id obj"]
  by (auto simp: check_object_def object_path_uuid stored_def exists_path_def is_file_def hash_file_def
      read_file_def split: option.splits)

text \<open>In a consistent store every object is sound.\<close>

lemma check_object_sound:
  assumes inv: "store_inv L fs w" and r: "r \<in> set (tb_object (w_db w))"
  shows "check_object L fs (w_disk w) (object_view r) = []"
proof -
  note D = store_invD [OF inv]
  obtain c where "stored L fs (w_disk w) (ob_id r) = Some c" "sha256sum L c = ob_hash r"
    using agree_stored [OF D(6) r] .
  then show ?thesis by (simp add: check_object_eq [OF D(2,5)])
qed

section \<open>The invariant\<close>

abbreviation flawed :: "object_error \<Rightarrow> bool" where
  "flawed r \<equiv> oe_message r \<noteq> []"

definition tally :: "(object_error \<Rightarrow> bool) \<Rightarrow> object_error list \<Rightarrow> uint64" where
  "tally P rs = of_nat (length (filter P rs))"

lemma tally_simps [simp]:
  "tally P [] = 0" "tally P (rs @ [r]) = tally P rs + (if P r then 1 else 0)"
  by (simp_all add: tally_def)

lemma tally_split: "tally (\<lambda>r. \<not> P r) rs + tally P rs = of_nat (length rs)"
proof -
  have "length (filter (\<lambda>r. \<not> P r) rs) + length (filter P rs) = length rs"
    using length_filter_split [of P rs] by simp
  then show ?thesis by (simp add: tally_def flip: of_nat_add)
qed

text \<open>Every object is where the coroutine has brought it: \<open>checked\<close> lists those with a record.\<close>

definition accounted ::
  "libs \<Rightarrow> filesystem \<Rightarrow> disk \<Rightarrow> database \<Rightarrow> check_state \<Rightarrow> db_object list \<Rightarrow> object_error list \<Rightarrow> bool" where
  "accounted L fs d db0 s checked flushed \<longleftrightarrow>
     mset (sql_get_objects db0) = mset (concat (ck_portal s)) + mset (ck_running s) + mset checked \<and>
     map (check_record L fs d) checked = flushed @ ck_out s @ ck_in s \<and>
     message (ck_db s) = apply_records flushed (message db0) \<and>
     pg_success (ck_progress s) = tally (\<lambda>r. \<not> flawed r) (flushed @ ck_out s @ ck_in s) \<and>
     pg_errors (ck_progress s) = tally flawed (flushed @ ck_out s @ ck_in s)"

definition quiet :: "check_state \<Rightarrow> bool" where
  "quiet s \<longleftrightarrow> ck_running s = [] \<and> ck_in s = []"

definition control_inv :: "check_state \<Rightarrow> bool" where
  "control_inv s \<longleftrightarrow> (ck_pc s \<noteq> Updating \<longrightarrow> ck_out s = []) \<and>
     (ck_pc s \<in> {Fetching, Updating} \<and> ck_portal s = [] \<longrightarrow> quiet s) \<and>
     (ck_pc s = Returned \<longrightarrow> quiet s \<and> ck_portal s = []) \<and> (\<forall>e. ck_pc s \<noteq> Threw e)"

definition frame_inv :: "database \<Rightarrow> check_state \<Rightarrow> bool" where
  "frame_inv db0 s \<longleftrightarrow> db_inv (ck_db s) \<and> tb_object (ck_db s) = tb_object db0 \<and>
     tb_bucket (ck_db s) = tb_bucket db0 \<and> tb_bucket_object (ck_db s) = tb_bucket_object db0 \<and>
     ck_saved s = db0"

definition check_inv :: "libs \<Rightarrow> filesystem \<Rightarrow> disk \<Rightarrow> database \<Rightarrow> check_state \<Rightarrow> bool" where
  "check_inv L fs d db0 s \<longleftrightarrow> db_inv db0 \<and> control_inv s \<and> frame_inv db0 s \<and>
     (\<exists>checked flushed. accounted L fs d db0 s checked flushed)"

lemmas check_inv_defs = check_inv_def control_inv_def frame_inv_def accounted_def quiet_def

lemma check_start_inv:
  assumes "db_inv db" and "portal_law batches db"
  shows "check_inv L fs d db (check_start n batches db)"
proof -
  have "accounted L fs d db (check_start n batches db) [] []"
    using assms by (simp add: accounted_def check_start_def portal_law_def)
  then show ?thesis
    using assms(1) unfolding check_inv_def control_inv_def frame_inv_def quiet_def
    by (auto simp: check_start_def)
qed

subsection \<open>Each step preserves it\<close>

lemma apply_records_append: "apply_records (xs @ ys) m = apply_records ys (apply_records xs m)"
  by (induction xs arbitrary: m) auto

lemma task_accounted:
  assumes acc: "accounted L fs d db0 s checked flushed" and obj: "obj \<in> set (ck_running s)"
  shows "accounted L fs d db0 (task_done L fs d obj s) (checked @ [obj]) flushed"
proof -
  let ?R = "remove1 obj (ck_running s)"
  have R: "mset (ck_running s) = add_mset obj (mset ?R)"
    using obj by simp
  have "mset (sql_get_objects db0) = mset (concat (ck_portal s)) + mset (ck_running s) + mset checked"
    using acc by (simp only: accounted_def)
  then have "mset (sql_get_objects db0) = mset (concat (ck_portal s)) + mset ?R + mset (checked @ [obj])"
    unfolding R by (simp only: mset_append mset.simps union_mset_add_mset_right union_mset_add_mset_left
        add.right_neutral)
  moreover have recs: "ck_out (task_done L fs d obj s) = ck_out s" "ck_portal (task_done L fs d obj s) = ck_portal s"
    "ck_in (task_done L fs d obj s) = ck_in s @ [check_record L fs d obj]"
    "ck_running (task_done L fs d obj s) = remove1 obj (ck_running s)" "ck_db (task_done L fs d obj s) = ck_db s"
    by (simp_all add: task_done_def Let_def)
  moreover have "pg_success (ck_progress (task_done L fs d obj s)) =
      tally (\<lambda>r. \<not> flawed r) ((flushed @ ck_out s @ ck_in s) @ [check_record L fs d obj])"
    "pg_errors (ck_progress (task_done L fs d obj s)) =
      tally flawed ((flushed @ ck_out s @ ck_in s) @ [check_record L fs d obj])"
    using acc unfolding tally_simps(2) accounted_def by (simp_all add: task_done_def Let_def)
  ultimately show ?thesis
    using acc unfolding accounted_def recs by (simp del: mset_remove1)
qed

lemma records_of_checked:
  assumes acc: "accounted L fs d db0 s checked flushed" and inv: "db_inv db0"
  shows "distinct (map oe_id (flushed @ ck_out s @ ck_in s))"
    and "oe_id ` set (flushed @ ck_out s @ ck_in s) \<subseteq> ob_id ` set (tb_object db0)"
proof -
  have ids: "map oe_id (map (check_record L fs d) checked) = map db_o_id checked"
    by (simp add: check_record_def)
  have rec: "flushed @ ck_out s @ ck_in s = map (check_record L fs d) checked"
    using acc by (simp add: accounted_def)
  have "mset (map db_o_id (sql_get_objects db0)) =
      mset (map db_o_id (concat (ck_portal s) @ ck_running s @ checked))"
    using acc by (simp add: accounted_def ac_simps)
  then have "distinct (map db_o_id (concat (ck_portal s) @ ck_running s @ checked))"
    using get_objects_distinct [OF inv] mset_eq_imp_distinct_iff by blast
  then show "distinct (map oe_id (flushed @ ck_out s @ ck_in s))"
    unfolding rec ids by simp
  have "set checked \<subseteq> set (sql_get_objects db0)"
    using acc unfolding accounted_def by (metis mset_subset_eq_add_right set_mset_mono set_mset_mset)
  then have "oe_id ` set (flushed @ ck_out s @ ck_in s) \<subseteq> db_o_id ` set (sql_get_objects db0)"
    unfolding rec by (auto simp: check_record_def)
  then show "oe_id ` set (flushed @ ck_out s @ ck_in s) \<subseteq> ob_id ` set (tb_object db0)"
    by (simp add: get_objects_set image_image)
qed

text \<open>The update cannot fail: the records are of distinct objects that exist.\<close>

lemma update_succeeds:
  assumes acc: "accounted L fs d db0 s checked flushed" and inv: "db_inv db0" and fr: "frame_inv db0 s"
  obtains db' where "sql_update_object_errors (ck_out s) (ck_db s) = Inr db'"
proof (cases "sql_update_object_errors (ck_out s) (ck_db s)")
  case (Inl e)
  have dist: "distinct (map oe_id (ck_out s))" using records_of_checked(1) [OF acc inv] by simp
  have "oe_id ` set (ck_out s) \<subseteq> ob_id ` set (tb_object (ck_db s))"
    using records_of_checked(2) [OF acc inv] fr by (auto simp: frame_inv_def)
  then show ?thesis using update_errors_Inl_iff [OF dist] Inl by blast
qed (rule that)

lemma connection_update_eq:
  "sql_update_object_errors es db = Inr db' \<Longrightarrow> connection_update_object_errors connect es db = (Inr (), db')"
  by (simp add: connection_update_object_errors_def step_simps prepared_provide)

lemma check_step_inv:
  assumes inv: "check_inv L fs d db0 s" and step: "check_step L fs d bs s t"
  shows "check_inv L fs d db0 t"
proof -
  obtain checked flushed where db0: "db_inv db0" and ctl: "control_inv s" and fr: "frame_inv db0 s"
    and acc: "accounted L fs d db0 s checked flushed"
    using inv by (auto simp: check_inv_def)
  from step show ?thesis
  proof cases
    case (Task obj)
    have "control_inv t" "frame_inv db0 t"
      using ctl fr Task by (auto simp: control_inv_def frame_inv_def quiet_def task_done_def Let_def)
    with task_accounted [OF acc Task(2)] Task(1) db0 show ?thesis by (auto simp: check_inv_def)
  next
    case Fetch
    have "accounted L fs d db0 t checked flushed"
      using acc Fetch by (cases "ck_portal s") (auto simp: accounted_def fetch_batch_def ac_simps)
    moreover have "control_inv t" "frame_inv db0 t"
      using ctl fr Fetch by (auto simp: control_inv_def frame_inv_def quiet_def fetch_batch_def)
    ultimately show ?thesis using db0 by (auto simp: check_inv_def)
  next
    case Commit
    then have "accounted L fs d db0 t checked flushed" "control_inv t" "frame_inv db0 t"
      using acc ctl fr by (auto simp: accounted_def control_inv_def frame_inv_def quiet_def)
    then show ?thesis using db0 by (auto simp: check_inv_def)
  next
    case Resume
    have out: "ck_out s = []" using ctl Resume by (simp add: control_inv_def)
    have "accounted L fs d db0 t checked flushed"
      using acc out Resume by (simp add: accounted_def swap_records_def)
    moreover have "control_inv t" "frame_inv db0 t"
      using ctl fr Resume out
      by (auto simp: control_inv_def frame_inv_def quiet_def swap_records_def await_limit_def)
    ultimately show ?thesis using db0 by (auto simp: check_inv_def)
  next
    case Update
    obtain db' where ok: "sql_update_object_errors (ck_out s) (ck_db s) = Inr db'"
      using update_succeeds [OF acc db0 fr] .
    have t: "t = s\<lparr>ck_pc := Fetching, ck_db := db', ck_out := []\<rparr>"
      using Update by (simp add: update_done_def connection_update_eq [OF ok])
    have "distinct (map oe_id (ck_out s))" using records_of_checked(1) [OF acc db0] by simp
    then have "message db' = apply_records (ck_out s) (message (ck_db s))"
      using update_errors_message ok by blast
    then have "accounted L fs d db0 t checked (flushed @ ck_out s)"
      using acc t by (simp add: accounted_def apply_records_append)
    moreover have "frame_inv db0 t"
      using fr t ok update_errors_inv [OF _ ok] update_errors_frame [OF ok] by (simp add: frame_inv_def)
    moreover have "control_inv t" using ctl t Update by (auto simp: control_inv_def quiet_def)
    ultimately show ?thesis using db0 by (auto simp: check_inv_def)
  qed
qed

section \<open>Termination\<close>

fun pc_rank :: "check_pc \<Rightarrow> nat" where
  "pc_rank Fetching = 1"
| "pc_rank Awaiting = 3"
| "pc_rank Updating = 2"
| "pc_rank Returned = 0"
| "pc_rank (Threw e) = 0"

lemma length_remove1_Suc: "x \<in> set xs \<Longrightarrow> length xs = Suc (length (remove1 x xs))"
  by (metis Suc_diff_1 length_pos_if_in_set length_remove1)

text \<open>Every batch is fetched, awaited and flushed once, every task finishes once.\<close>

definition work_left :: "check_state \<Rightarrow> nat" where
  "work_left s = 3 * length (ck_portal s) + length (concat (ck_portal s)) + length (ck_running s) +
     pc_rank (ck_pc s)"

lemma check_step_work:
  assumes step: "check_step L fs d bs s t" shows "work_left t < work_left s"
  using step
proof cases
  case (Task obj)
  then have "length (ck_running s) = Suc (length (remove1 obj (ck_running s)))"
    by (intro length_remove1_Suc)
  then show ?thesis using Task by (simp add: work_left_def task_done_def Let_def)
next
  case Fetch
  then show ?thesis by (cases "ck_portal s") (auto simp: work_left_def fetch_batch_def)
next
  case Update
  then show ?thesis
    by (auto simp: work_left_def update_done_def split: prod.split sum.split)
qed (simp_all add: work_left_def swap_records_def)

lemma check_step_live:
  assumes "0 \<le> bs" and "\<not> check_final s" shows "\<exists>t. check_step L fs d bs s t"
proof (cases "ck_running s")
  case (Cons obj rest)
  then have "obj \<in> set (ck_running s)" by simp
  then show ?thesis by (blast intro: check_step.Task)
next
  case Nil
  show ?thesis
  proof (cases "ck_pc s")
    case Fetching
    then show ?thesis by (cases "ck_portal s = []") (blast intro: check_step.Fetch check_step.Commit)+
  next
    case Awaiting
    have "int (length (ck_running s)) \<le> await_limit bs s"
      using Nil assms(1) by (simp add: await_limit_def half_def)
    then show ?thesis using Awaiting by (blast intro: check_step.Resume)
  next
    case Updating
    then show ?thesis by (blast intro: check_step.Update)
  qed (use assms(2) Nil in \<open>simp_all add: check_final_def\<close>)
qed

text \<open>The check as a terminating system, for a batch size that is not negative.\<close>

definition check_system_inv :: "libs \<Rightarrow> filesystem \<Rightarrow> disk \<Rightarrow> database \<Rightarrow> int \<Rightarrow> check_state \<Rightarrow> bool" where
  "check_system_inv L fs d db0 bs s \<longleftrightarrow> 0 \<le> bs \<and> check_inv L fs d db0 s"

interpretation check_run: terminating_system "check_step L fs d bs" "check_system_inv L fs d db0 bs"
    check_final work_left for L fs d bs db0
  by unfold_locales
     (auto simp: check_system_inv_def check_step_inv check_step_work check_step_live)

section \<open>The result\<close>

text \<open>What a check is to find: the records of all objects, each once.\<close>

definition all_records :: "libs \<Rightarrow> filesystem \<Rightarrow> disk \<Rightarrow> database \<Rightarrow> object_error list" where
  "all_records L fs d db = map (check_record L fs d \<circ> object_view) (tb_object db)"

lemma tally_mset: "mset xs = mset ys \<Longrightarrow> tally P xs = tally P ys"
  unfolding tally_def by (metis mset_filter size_mset)

lemma mset_get_objects: "mset (sql_get_objects db) = mset (map object_view (tb_object db))"
  by (simp add: sql_get_objects_def)

lemma check_returned:
  assumes inv: "check_inv L fs d db0 s" and ret: "ck_pc s = Returned"
  obtains flushed where "mset flushed = mset (all_records L fs d db0)" "distinct (map oe_id flushed)"
    "message (ck_db s) = apply_records flushed (message db0)"
    "pg_success (ck_progress s) = tally (\<lambda>r. \<not> flawed r) flushed"
    "pg_errors (ck_progress s) = tally flawed flushed"
    "ck_running s = []" "frame_inv db0 s"
proof -
  obtain checked flushed where db0: "db_inv db0" and ctl: "control_inv s" and fr: "frame_inv db0 s"
    and acc: "accounted L fs d db0 s checked flushed"
    using inv by (auto simp: check_inv_def)
  have empty: "ck_running s = []" "ck_in s = []" "ck_out s = []" "ck_portal s = []"
    using ctl ret by (auto simp: control_inv_def quiet_def)
  have m: "mset checked = mset (map object_view (tb_object db0))"
    using acc empty by (simp add: accounted_def mset_get_objects)
  have "flushed = map (check_record L fs d) checked" using acc empty by (simp add: accounted_def)
  then have "mset flushed = image_mset (check_record L fs d) (mset checked)" by simp
  also have "\<dots> = mset (all_records L fs d db0)" by (simp add: m all_records_def image_mset.compositionality)
  finally show ?thesis
    using records_of_checked(1) [OF acc db0] acc empty fr by (intro that) (simp_all add: accounted_def)
qed

lemma all_records_id:
  assumes "db_inv db" and "r \<in> set (tb_object db)" and "e \<in> set (all_records L fs d db)" "oe_id e = ob_id r"
  shows "e = check_record L fs d (object_view r)"
  using assms db_invD(3) [OF assms(1)]
  by (auto simp: all_records_def check_record_def distinct_map dest: inj_onD)

lemma check_result_message:
  assumes inv: "check_inv L fs d db0 s" and ret: "ck_pc s = Returned"
    and r: "r \<in> set (tb_object db0)"
  shows "message (ck_db s) (ob_id r) = (let m = check_object L fs d (object_view r)
    in if m = [] then None else Some m)"
proof (rule check_returned [OF inv ret])
  fix flushed
  assume m: "mset flushed = mset (all_records L fs d db0)" and dist: "distinct (map oe_id flushed)"
    and msg: "message (ck_db s) = apply_records flushed (message db0)"
  have "check_record L fs d (object_view r) \<in> set flushed"
    using r mset_eq_setD [OF m] by (auto simp: all_records_def)
  from apply_records_member [OF dist this, of "message db0"] show ?thesis
    by (simp add: msg check_record_def Let_def)
qed

lemma check_result_counts:
  assumes inv: "check_inv L fs d db0 s" and ret: "ck_pc s = Returned"
  shows "pg_success (ck_progress s) = tally (\<lambda>r. \<not> flawed r) (all_records L fs d db0)"
    and "pg_errors (ck_progress s) = tally flawed (all_records L fs d db0)"
    and "completed (ck_progress s) = of_nat (length (tb_object db0))"
proof -
  show s: "pg_success (ck_progress s) = tally (\<lambda>r. \<not> flawed r) (all_records L fs d db0)"
    and e: "pg_errors (ck_progress s) = tally flawed (all_records L fs d db0)"
    by (rule check_returned [OF inv ret], metis tally_mset)+
  show "completed (ck_progress s) = of_nat (length (tb_object db0))"
    unfolding completed_def s e tally_split by (simp add: all_records_def)
qed

section \<open>Memory\<close>

text \<open>How many tasks and unwritten records there can be, for batches of at most the batch size.\<close>

definition bounded_inv :: "int \<Rightarrow> check_state \<Rightarrow> bool" where
  "bounded_inv bs s \<longleftrightarrow> 0 \<le> bs \<and> (\<forall>b \<in> set (ck_portal s). int (length b) \<le> bs) \<and>
     (ck_pc s \<in> {Fetching, Awaiting} \<longrightarrow> ck_out s = []) \<and> int (length (ck_out s)) \<le> half bs + bs \<and>
     int (length (ck_running s) + length (ck_in s)) \<le>
       (if ck_pc s = Awaiting then half bs + bs else half bs)"

lemma bounded_step:
  assumes inv: "bounded_inv bs s" and step: "check_step L fs d bs s t" shows "bounded_inv bs t"
  using step
proof cases
  case (Task obj)
  then have "length (ck_running s) = Suc (length (remove1 obj (ck_running s)))"
    by (intro length_remove1_Suc)
  then show ?thesis using inv Task by (simp add: bounded_inv_def task_done_def Let_def)
next
  case Fetch
  then show ?thesis using inv by (cases "ck_portal s") (auto simp: bounded_inv_def fetch_batch_def)
next
  case Resume
  then show ?thesis
    using inv by (auto simp: bounded_inv_def swap_records_def await_limit_def half_def split: if_splits)
next
  case Update
  then show ?thesis
    using inv by (auto simp: bounded_inv_def update_done_def half_def split: prod.split sum.split)
qed (use inv in \<open>simp add: bounded_inv_def\<close>)

interpretation check_memory: invariant_system "check_step L fs d bs" "bounded_inv bs" for L fs d bs
  by unfold_locales (rule bounded_step)

end
