(* ===== verification/Store_System.thy ===== *)
theory Store_System
  imports Store_Behaviour Check_Laws
begin

text \<open>
  The object store as one process: each transition is one of its public operations, run to its end
  on the world, whatever it returns; the consistency check is any complete run of its coroutine.
  The invariant of \<open>Store_Laws\<close> holds in every state a store can reach.
\<close>

inductive store_step :: "libs \<Rightarrow> filesystem \<Rightarrow> world \<Rightarrow> world \<Rightarrow> bool" for L fs where
  Write_part: "store_step L fs w (snd (upload_part L fs generated part_id chunks w))"
| Commit_part: "store_step L fs w (snd (commit_part L fs now b i w))"
| Create_bucket: "store_step L fs w (snd (store_create_bucket L i now name w))"
| Fetch_bucket: "store_step L fs w (snd (store_fetch_bucket L name w))"
| Fetch_buckets: "store_step L fs w (snd (store_fetch_buckets names w))"
| Fetch_buckets_all: "store_step L fs w (snd (store_fetch_buckets_all w))"
| Fetch_totals: "store_step L fs w (snd (store_fetch_totals L w))"
| Get_errors: "store_step L fs w (snd (store_get_errors w))"
| Get_object: "store_step L fs w (snd (get_object L fs b x w))"
| Get_metadata: "store_step L fs w (snd (get_object_metadata L b x w))"
| Prune: "store_step L fs w (snd (prune L fs w))"
| Remove_bucket: "store_step L fs w (snd (store_remove_bucket b w))"
| Remove_object: "store_step L fs w (snd (store_remove_object L b x w))"
| Remove_objects: "store_step L fs w (snd (store_remove_objects L b xs w))"
| Rename_bucket: "store_step L fs w (snd (store_rename_bucket L b name w))"
| Check: "check_begin L batches before w = Inr s \<Longrightarrow> portal_law batches (w_db w) \<Longrightarrow>
    (check_step L fs (w_disk w) batch_size)\<^sup>*\<^sup>* s t \<Longrightarrow> check_final t \<Longrightarrow>
    store_step L fs w (w\<lparr>w_db := ck_db t\<rparr>)"

inductive_cases store_stepE: "store_step L fs w w'"

lemma check_begin_Inr:
  "check_begin L batches before w = Inr s \<Longrightarrow> \<exists>n. s = check_start n batches (w_db w)"
  by (auto simp: check_begin_def bind_sum_Inr_iff)

lemma check_reachable_inv:
  assumes "check_begin L batches before w = Inr s" and "portal_law batches (w_db w)" and "db_inv (w_db w)"
    and "(check_step L fs (w_disk w) bs)\<^sup>*\<^sup>* s t"
  shows "check_inv L fs (w_disk w) (w_db w) t"
  using assms(4)
proof (induction rule: rtranclp_induct)
  case base
  then show ?case using check_begin_Inr [OF assms(1)] check_start_inv [OF assms(3,2)] by auto
next
  case (step t u)
  then show ?case using check_step_inv by blast
qed

lemma store_step_inv:
  assumes inv: "store_inv L fs w" and step: "store_step L fs w w'" shows "store_inv L fs w'"
  using step
proof cases
  case (Check batches before s batch_size t)
  have "check_inv L fs (w_disk w) (w_db w) t"
    using check_reachable_inv [OF Check(2,3) store_invD(4) [OF inv] Check(4)] .
  then have "frame_inv (w_db w) t" by (simp add: check_inv_def)
  with inv show ?thesis unfolding Check(1) by (simp add: frame_inv_def store_inv_def)
qed (auto simp: inv intro: inv_intros)

interpretation store: invariant_system "store_step L fs" "store_inv L fs" for L fs
  by unfold_locales (rule store_step_inv)

end
