(* ===== verification/Sample.thy ===== *)
theory Sample
  imports Store_Behaviour
begin

text \<open>
  Concrete third-party functions that satisfy the documented laws, and a small store built by the
  program's own operations: the points at which the properties of the development are instantiated.
\<close>

section \<open>The text of a uuid\<close>

definition hex_digit :: "4 word \<Rightarrow> char" where
  "hex_digit n = ''0123456789abcdef'' ! unat n"

definition nibble :: "uuid \<Rightarrow> nat \<Rightarrow> 4 word" where
  "nibble u k = ucast (drop_bit (4 * k) u)"

definition dashed :: "string \<Rightarrow> string" where
  "dashed s = take 8 s @ ''-'' @ take 4 (drop 8 s) @ ''-'' @ take 4 (drop 12 s) @ ''-'' @
     take 4 (drop 16 s) @ ''-'' @ drop 20 s"

definition canonical_text :: "uuid \<Rightarrow> string" where
  "canonical_text u = dashed (map (\<lambda>k. hex_digit (nibble u k)) (rev [0..<32]))"

lemma hex_digit_inj: "inj hex_digit"
proof (rule injI)
  fix x y :: "4 word"
  assume eq: "hex_digit x = hex_digit y"
  have d: "distinct ''0123456789abcdef''" by simp
  have "unat x < 16" "unat y < 16" using unsigned_less [of x] unsigned_less [of y] by simp_all
  with eq nth_eq_iff_index_eq [OF d, of "unat x" "unat y"] have "unat x = unat y"
    by (simp add: hex_digit_def del: nth_Cons_numeral)
  then show "x = y" by (rule unsigned_word_eqI)
qed

lemma nibble_inj:
  assumes "\<And>k. k < 32 \<Longrightarrow> nibble u k = nibble v k" shows "u = v"
proof (rule bit_word_eqI)
  fix n assume n: "n < LENGTH(128)"
  have "bit (nibble u (n div 4)) (n mod 4) = bit u n" for u :: uuid
    using n by (simp add: nibble_def bit_ucast_iff bit_drop_bit_eq)
  moreover have "nibble u (n div 4) = nibble v (n div 4)" using assms [of "n div 4"] n by simp
  ultimately show "bit u n \<longleftrightarrow> bit v n" by metis
qed

lemma dashed_inj: "length s = 32 \<Longrightarrow> length t = 32 \<Longrightarrow> dashed s = dashed t \<Longrightarrow> s = t"
proof -
  assume len: "length s = 32" "length t = 32" and eq: "dashed s = dashed t"
  have split: "s = take 8 s @ take 4 (drop 8 s) @ take 4 (drop 12 s) @ take 4 (drop 16 s) @ drop 20 s"
    if "length s = 32" for s :: string
    using append_take_drop_id [of 8 s] append_take_drop_id [of 4 "drop 8 s"]
      append_take_drop_id [of 4 "drop 12 s"] append_take_drop_id [of 4 "drop 16 s"] by simp
  have "take 8 s = take 8 t \<and> take 4 (drop 8 s) = take 4 (drop 8 t) \<and>
    take 4 (drop 12 s) = take 4 (drop 12 t) \<and> take 4 (drop 16 s) = take 4 (drop 16 t) \<and> drop 20 s = drop 20 t"
    using eq len by (simp add: dashed_def append_eq_append_conv)
  then show "s = t" using split [OF len(1)] split [OF len(2)] by simp
qed

definition sample :: libs where
  "sample = \<lparr>uuid_text = canonical_text, ext_trim = strip,
     hex_sha256 = concat \<circ> map (\<lambda>x. [hex_digit (ucast (drop_bit 4 x)), hex_digit (ucast x)]),
     magic_file = (\<lambda>c. if c = [] then ''inode/x-empty'' else ''text/plain''),
     fetch_row = (\<lambda>n. if n = 1 then Some 0 else None), foreign_what = (\<lambda>_. ''error'')\<rparr>"

lemma sample_uuid_law: "uuid_law sample"
proof -
  have "canonical_text u = canonical_text v \<Longrightarrow> u = v" for u v
    using dashed_inj [of "map (\<lambda>k. hex_digit (nibble u k)) (rev [0..<32])"
        "map (\<lambda>k. hex_digit (nibble v k)) (rev [0..<32])"]
    by (auto intro!: nibble_inj dest: injD [OF hex_digit_inj] simp: canonical_text_def)
  moreover have "length (canonical_text u) = 36" for u
    by (simp add: canonical_text_def dashed_def)
  ultimately show ?thesis by (auto simp: uuid_law_def sample_def inj_def)
qed

lemma sample_laws: "laws sample" "trim_law sample"
  using sample_uuid_law by (simp_all add: laws_def fetch_law_def trim_law_def sample_def)

section \<open>A store with one object\<close>

definition fs0 :: filesystem where
  "fs0 = home_fs [''data'']"

definition w0 :: world where
  "w0 = new_store [''data''] 0x12"

definition w1 :: world where
  "w1 = snd (store_create_bucket sample 1 100 '' photos '' w0)"

definition w2 :: world where
  "w2 = snd (upload_part sample fs0 7 (Some 5) [[104], [105]] w1)"

definition w3 :: world where
  "w3 = snd (commit_part sample fs0 200 1 5 w2)"

lemma sample_inv [simp]: "store_inv sample fs0 w0" "store_inv sample fs0 w1"
  "store_inv sample fs0 w2" "store_inv sample fs0 w3"
proof -
  show w0: "store_inv sample fs0 w0" unfolding w0_def fs0_def by (rule new_store_inv [OF sample_laws(1)])
  show w1: "store_inv sample fs0 w1" unfolding w1_def by (rule store_changes_inv(1) [OF w0])
  show w2: "store_inv sample fs0 w2" unfolding w2_def by (rule upload_part_inv [OF w1])
  show "store_inv sample fs0 w3" unfolding w3_def by (rule commit_part_inv [OF w2])
qed

lemma w0_parts: "w_db w0 = empty_database" "staged sample fs0 (w_disk w0) = Map.empty"
  using filesystem_new_blank [of "[''data'']" "0x12"]
  by (auto simp: w0_def new_store_def staged_def fs0_def)

definition bucket1 :: bucket where
  "bucket1 = \<lparr>b_id = 1, b_name = ''photos'', b_date_created = 100, b_size = 0, b_space_used = 0\<rparr>"

definition db1 :: database where
  "db1 = empty_database\<lparr>tb_bucket := [\<lparr>bk_id = 1, bk_name = ''photos'', bk_created = 100\<rparr>]\<rparr>"

lemma strip_photos: "strip '' photos '' = ''photos''"
  by code_simp

lemma create1: "fst (store_create_bucket sample 1 100 '' photos '' w0) = Inr bucket1" "w_db w1 = db1"
  "w_disk w1 = w_disk w0"
proof -
  have "process_bucket_name sample '' photos '' = Inr ''photos''"
    using strip_photos by (simp add: process_bucket_name_def sample_def)
  then have "store_create_bucket sample 1 100 '' photos '' w0 = (Inr bucket1, w0\<lparr>w_db := db1\<rparr>)"
    using w0_parts(1) by (simp add: store_create_bucket_eq [OF sample_inv(1)] empty_database_def
        fresh_bucket_def bucket1_def db1_def)
  then show "fst (store_create_bucket sample 1 100 '' photos '' w0) = Inr bucket1" "w_db w1 = db1"
    "w_disk w1 = w_disk w0" by (simp_all add: w1_def)
qed

lemma upload2: "w_db w2 = db1" "staged sample fs0 (w_disk w2) = [5 \<mapsto> [104, 105]]"
  "fst (upload_part sample fs0 7 (Some 5) [[104], [105]] w1) = 5"
  using stage_disk(3) [OF store_invD(5) [OF sample_inv(2)] sample_uuid_law, of 5 "[[104], [105]]"]
    create1(2,3) w0_parts(2)
  by (simp_all add: w2_def upload_part_eq)

definition object5 :: object where
  "object5 = \<lparr>o_id = 5, o_hash = ''6869'', o_size = 2, o_type = ''text'', o_subtype = ''plain'',
     o_date_added = 200\<rparr>"

definition db3 :: database where
  "db3 = db1\<lparr>tb_object := [\<lparr>ob_id = 5, ob_hash = ''6869'', ob_size = 2, ob_type = ''text'',
     ob_subtype = ''plain'', ob_added = 200\<rparr>],
     tb_bucket_object := [\<lparr>ln_bucket = 1, ln_object = 5, ln_added = 200\<rparr>]\<rparr>"

lemma hash_hi: "sha256sum sample [104, 105] = ''6869''"
  by (simp add: sha256sum_def sample_def hex_digit_def tolower_def less_eq_char_def drop_bit_Suc)

lemma mime_hi: "split_mime (magic_file sample [104, 105]) = Inr \<lparr>m_type = ''text'', m_subtype = ''plain''\<rparr>"
  using split_mime_slash [of "''text''" "''plain''"] by (simp add: sample_def)

lemma size_hi: "recorded_size [104, 105] = 2"
  by (simp add: recorded_size_eq)

lemma add3: "sql_add_object 1 5 ''6869'' 2 ''text'' ''plain'' 200 db1 = Inr ([\<lparr>db_o_id = 5,
    db_o_hash = ''6869'', db_o_size = 2, db_o_type = ''text'', db_o_subtype = ''plain'',
    db_o_date_added = 200\<rparr>], db3)"
  by (simp add: sql_add_object_def sql_create_object_def insert_object_def insert_link_def db1_def db3_def
      empty_database_def bucket_contents_def inner_join_def contents_row_def)

lemma commit3: "fst (commit_part sample fs0 200 1 5 w2) = Inr object5" "w_db w3 = db3"
proof -
  note R = commit_part_result [OF store_invD(1,4,5) [OF sample_inv(3)], of 5 "[104, 105]" _ 1 200, OF _ mime_hi]
  have add: "sql_add_object 1 5 (sha256sum sample [104, 105]) (recorded_size [104, 105])
      (m_type \<lparr>m_type = ''text'', m_subtype = ''plain''\<rparr>) (m_subtype \<lparr>m_type = ''text'', m_subtype = ''plain''\<rparr>)
      200 (w_db w2) = Inr ([\<lparr>db_o_id = 5, db_o_hash = ''6869'', db_o_size = 2, db_o_type = ''text'',
      db_o_subtype = ''plain'', db_o_date_added = 200\<rparr>], db3)"
    using add3 by (simp add: upload2 hash_hi size_hi)
  show "fst (commit_part sample fs0 200 1 5 w2) = Inr object5" "w_db w3 = db3"
    using R [OF _ add] by (simp_all add: upload2 w3_def object5_def to_object_def)
qed

lemma members1: "members db1 b = {}"
  by (simp add: members_def entry_def db1_def empty_database_def)

lemma content3: "stored sample fs0 (w_disk w3) 5 = Some [104, 105]"
proof -
  have ok: "commit_part sample fs0 200 1 5 w2 = (Inr object5, w3)"
    using commit3(1) by (intro prod_eqI) (simp_all add: w3_def)
  show ?thesis
  proof (rule commit_part_ok [OF store_invD(1,4,5) [OF sample_inv(3)] ok])
    fix c m e
    assume c: "staged sample fs0 (w_disk w2) 5 = Some c" and e: "object5 = to_object e"
      and st: "stored sample fs0 (w_disk w3) =
        (if db_o_id e = 5 then (stored sample fs0 (w_disk w2))(5 \<mapsto> c) else stored sample fs0 (w_disk w2))"
    have "db_o_id e = 5" using arg_cong [OF e, of o_id] by (simp add: object5_def)
    then show ?thesis using c st by (simp add: upload2(2))
  qed
qed

lemma fetch1: "store_fetch_bucket sample ''photos'' w1 = (Inr bucket1, w1)"
proof -
  have fit: "counts_fit (w_db w1)"
    by (simp add: counts_fit_def create1(2) members1 total_size_def)
  have "bucket_named db1 ''photos'' = Some \<lparr>bk_id = 1, bk_name = ''photos'', bk_created = 100\<rparr>"
    by (simp add: bucket_named_def db1_def)
  then show ?thesis
    by (simp add: store_fetch_bucket_eq [OF sample_inv(2) fit] create1(2) bucket_info_def members1
        total_size_def bucket1_def)
qed

lemma members3: "members db3 b = (if b = 1 then {5} else {})"
  by (auto simp: members_def entry_def db3_def db1_def)

lemma total3: "total_size db3 {5} = 2" "total_size db3 {} = 0"
  by (simp_all add: total_size_def object_of_def db3_def)

lemma fetch3: "store_fetch_bucket sample ''photos'' w3 = (Inr (bucket1\<lparr>b_size := 1, b_space_used := 2\<rparr>), w3)"
proof -
  have fit: "counts_fit (w_db w3)"
    by (simp add: counts_fit_def commit3(2) members3 total3 is_int64_def)
  have "bucket_named db3 ''photos'' = Some \<lparr>bk_id = 1, bk_name = ''photos'', bk_created = 100\<rparr>"
    by (simp add: bucket_named_def db3_def db1_def)
  then show ?thesis
    by (simp add: store_fetch_bucket_eq [OF sample_inv(4) fit] commit3(2) bucket_info_def members3
        total3 bucket1_def)
qed

end
