(* ===== verification/Store_Properties.thy ===== *)
theory Store_Properties
  imports Store_System Sample
begin

text \<open>
  The properties of the object store, each over a world that satisfies the invariant (which every
  reachable world does), with its instance at the sample store.
\<close>

section \<open>The invariant in every reachable state\<close>

text \<open>C1: A store that starts with an empty database and fresh directories is consistent after any
  sequence of operations: the database meets its constraints, the files under \<open>objects\<close> are exactly
  the catalogue's objects, and each has the content its hash names and the permissions of an object.\<close>

theorem store_always_consistent:
  assumes "laws L" and "(store_step L (home_fs home))\<^sup>*\<^sup>* (new_store home m) w"
  shows "store_inv L (home_fs home) w"
  using store.inv_reachable [OF assms(2) new_store_inv [OF assms(1)]] .

theorem store_always_consistent_witness: "store_inv sample fs0 w3"
proof -
  have "store_step sample fs0 w0 w1" unfolding w1_def by (rule store_step.Create_bucket)
  moreover have "store_step sample fs0 w1 w2" unfolding w2_def by (rule store_step.Write_part)
  moreover have "store_step sample fs0 w2 w3" unfolding w3_def by (rule store_step.Commit_part)
  ultimately have "(store_step sample fs0)\<^sup>*\<^sup>* w0 w3" 
    by (rule rtranclp.rtrancl_into_rtrancl [OF rtranclp.rtrancl_into_rtrancl [OF r_into_rtranclp]])
  then show ?thesis
    using store_always_consistent [OF sample_laws(1), of "[''data'']" "0x12" w3]
    by (simp add: fs0_def w0_def)
qed

section \<open>Uploading and downloading\<close>

text \<open>C3: What is uploaded in chunks and committed can be downloaded: the object is in the bucket, its
  metadata is what the commit returned, its content has the digest of the upload, and it is the
  upload itself when the object is new; the part is gone.\<close>

theorem upload_download:
  assumes inv: "store_inv L fs w" and new: "staged L fs (w_disk w) i = None"
    and ok: "commit_part L fs now b i (snd (upload_part L fs g (Some i) chunks w)) = (Inr x, w')"
  shows "o_hash x = sha256sum L (concat chunks) \<and> staged L fs (w_disk w') = staged L fs (w_disk w) \<and>
    (\<exists>c. get_object L fs b (o_id x) w' = (Inr (x, c), w') \<and> sha256sum L c = o_hash x \<and>
       (o_id x = i \<longrightarrow> c = concat chunks))"
proof -
  let ?w1 = "snd (upload_part L fs g (Some i) chunks w)"
  note D = store_invD [OF inv]
  have inv1: "store_inv L fs ?w1" by (rule upload_part_inv [OF inv])
  note D1 = store_invD [OF inv1]
  have st1: "staged L fs (w_disk ?w1) = (staged L fs (w_disk w))(i \<mapsto> concat chunks)"
    using stage_disk(3) [OF D(5,2), of i chunks] new by (simp add: upload_part_eq)
  have inv': "store_inv L fs w'" using commit_part_inv [OF inv1, of now b i] ok by simp
  show ?thesis
  proof (rule commit_part_ok [OF D1(1,4,5) ok])
    fix c m e
    assume c: "staged L fs (w_disk ?w1) i = Some c" and x: "x = to_object e"
      and e: "entry (w_db w') b (db_o_id e) = Some e" "db_o_hash e = sha256sum L c"
      and st: "staged L fs (w_disk w') = (staged L fs (w_disk ?w1))(i := None)"
      and sd: "stored L fs (w_disk w') = (if db_o_id e = i then (stored L fs (w_disk ?w1))(i \<mapsto> c)
        else stored L fs (w_disk ?w1))"
    obtain c' where c': "stored L fs (w_disk w') (db_o_id e) = Some c'" "sha256sum L c' = db_o_hash e"
      using listed_stored [OF inv' e(1)] .
    have "get_object L fs b (o_id x) w' = (Inr (x, c'), w')"
      using e(1) c'(1) x by (simp add: get_object_eq [OF inv'])
    moreover have "c = concat chunks" using c st1 by simp
    moreover have "o_id x = i \<Longrightarrow> c' = c" using c'(1) sd x by simp
    ultimately show ?thesis
      using x e(2) c'(2) st st1 new by (simp add: fun_upd_idem)
  qed
qed

theorem upload_download_witness:
  "\<exists>c. get_object sample fs0 1 5 w3 = (Inr (object5, c), w3) \<and> c = [104, 105]"
proof -
  have new: "staged sample fs0 (w_disk w1) 5 = None" using w0_parts(2) by (simp add: create1(3))
  have "commit_part sample fs0 200 1 5 w2 = (Inr object5, w3)"
    by (rule prod_eqI) (simp_all only: commit3(1) w3_def fst_conv snd_conv)
  then have ok: "commit_part sample fs0 200 1 5 (snd (upload_part sample fs0 7 (Some 5) [[104], [105]] w1)) =
      (Inr object5, w3)"
    unfolding w2_def .
  have id5: "o_id object5 = 5" by (simp add: object5_def)
  from upload_download [OF sample_inv(2) new ok] obtain c where
    "get_object sample fs0 1 (o_id object5) w3 = (Inr (object5, c), w3)"
    "o_id object5 = 5 \<longrightarrow> c = concat [[104], [105]]" by blast
  then have "get_object sample fs0 1 5 w3 = (Inr (object5, c), w3) \<and> c = [104, 105]"
    unfolding id5 by simp
  then show ?thesis by blast
qed

text \<open>C4: A commit fails exactly when the part is missing, its MIME type cannot be split, the bucket
  does not exist, or the part's id is taken by an object of another content; it then changes nothing,
  and the part stays.\<close>

theorem commit_failure:
  assumes inv: "store_inv L fs w"
  shows "commit_part L fs now b i w = (Inl e, w') \<longleftrightarrow> w' = w \<and>
    (case staged L fs (w_disk w) i of
       None \<Rightarrow> e = File_error No_such_file
     | Some c \<Rightarrow> (case split_mime (magic_file L c) of
         Inl e' \<Rightarrow> e = e'
       | Inr m \<Rightarrow>
           let known = sha256sum L c \<in> ob_hash ` set (tb_object (w_db w));
               taken = i \<in> ob_id ` set (tb_object (w_db w))
           in e = Sql_error Not_null_violation \<and> \<not> known \<and> taken \<or>
              e = Sql_error Foreign_key_violation \<and> b \<notin> bk_id ` set (tb_bucket (w_db w)) \<and>
                (known \<or> \<not> taken)))"
proof (cases "staged L fs (w_disk w) i")
  case None
  then show ?thesis using commit_part_miss [OF store_invD(5) [OF inv]] by auto
next
  case (Some c)
  note D = store_invD [OF inv]
  have settled: "\<exists>x w''. settle L fs i (hd rows) (w\<lparr>w_db := db'\<rparr>) = (Inr x, w'')" for rows db'
    by (rule settle_eq [OF D(2), of fs "w\<lparr>w_db := db'\<rparr>" i c "hd rows"]) (use D Some in auto)
  show ?thesis
  proof (cases "split_mime (magic_file L c)")
    case (Inl e')
    then show ?thesis using Some by (auto simp: commit_part_hit [OF D(1,4,5) Some])
  next
    case (Inr m)
    let ?add = "sql_add_object b i (sha256sum L c) (recorded_size c) (m_type m) (m_subtype m) now (w_db w)"
    have "commit_part L fs now b i w = (Inl e, w') \<longleftrightarrow> w' = w \<and> (\<exists>e'. ?add = Inl e' \<and> e = Sql_error e')"
    proof (cases ?add)
      case (Inl e')
      then show ?thesis using Some Inr by (auto simp: commit_part_hit [OF D(1,4,5) Some])
    next
      case (Inr p)
      obtain rows db' where p: "p = (rows, db')" by fastforce
      obtain x w'' where "settle L fs i (hd rows) (w\<lparr>w_db := db'\<rparr>) = (Inr x, w'')"
        using settled by blast
      then show ?thesis
        using Some Inr \<open>split_mime (magic_file L c) = Inr m\<close>
        by (simp add: commit_part_hit [OF D(1,4,5) Some] p)
    qed
    then show ?thesis
      using Some Inr sql_add_object_Inl_iff [OF D(4) recorded_size_int64, of b i "sha256sum L c" c]
      by (auto simp: Let_def)
  qed
qed

theorem commit_failure_witness:
  "commit_part sample fs0 200 9 5 w2 = (Inl (Sql_error Foreign_key_violation), w2)"
  using commit_failure [OF sample_inv(3), of 200 9 5 "Sql_error Foreign_key_violation" w2]
  by (simp add: upload2 mime_hi db1_def empty_database_def)

text \<open>C5: Content the store already has is not stored again: the commit lists the existing object in
  the bucket under its own id, drops the part, and leaves the objects and their files alone.\<close>

theorem commit_deduplicates:
  assumes inv: "store_inv L fs w" and c: "staged L fs (w_disk w) i = Some c"
    and m: "split_mime (magic_file L c) = Inr m" and b: "b \<in> bk_id ` set (tb_bucket (w_db w))"
    and r: "r \<in> set (tb_object (w_db w))" "ob_hash r = sha256sum L c" "ob_id r \<noteq> i"
  shows "\<exists>x w'. commit_part L fs now b i w = (Inr x, w') \<and> o_id x = ob_id r \<and>
    tb_object (w_db w') = tb_object (w_db w) \<and> stored L fs (w_disk w') = stored L fs (w_disk w) \<and>
    staged L fs (w_disk w') = (staged L fs (w_disk w))(i := None) \<and>
    ob_id r \<in> members (w_db w') b"
proof -
  note D = store_invD [OF inv]
  have known: "sha256sum L c \<in> ob_hash ` set (tb_object (w_db w))" using r(1,2) by (metis imageI)
  obtain x w' where ok: "commit_part L fs now b i w = (Inr x, w')"
  proof (cases "commit_part L fs now b i w")
    case (Pair res w')
    have "\<exists>p. sql_add_object b i (sha256sum L c) (recorded_size c) (m_type m) (m_subtype m) now (w_db w) = Inr p"
      using sql_add_object_Inl_iff [OF D(4) recorded_size_int64, of b i "sha256sum L c" c "m_type m" "m_subtype m" now]
        known b by (cases "sql_add_object b i (sha256sum L c) (recorded_size c) (m_type m) (m_subtype m) now (w_db w)") auto
    then obtain rows db' where add: "sql_add_object b i (sha256sum L c) (recorded_size c) (m_type m) (m_subtype m) now (w_db w) = Inr (rows, db')"
      by auto
    then obtain e where "rows = [e]" using sql_add_object_Inr [OF D(4) recorded_size_int64 add] by metis
    then have "fst (commit_part L fs now b i w) = Inr (to_object e)"
      using commit_part_result(1) [OF D(1,4,5) c m] add by simp
    then show ?thesis using that Pair by simp
  qed
  show ?thesis
  proof (rule commit_part_ok [OF D(1,4,5) ok])
    fix c' m' e
    assume c': "staged L fs (w_disk w) i = Some c'" and x: "x = to_object e"
      and add: "sql_add_object b i (sha256sum L c') (recorded_size c') (m_type m') (m_subtype m') now (w_db w) =
        Inr ([e], w_db w')"
      and db': "db_inv (w_db w')" "entry (w_db w') b (db_o_id e) = Some e" "db_o_hash e = sha256sum L c'"
      and st: "staged L fs (w_disk w') = (staged L fs (w_disk w))(i := None)"
        "stored L fs (w_disk w') = (if db_o_id e = i then (stored L fs (w_disk w))(i \<mapsto> c') else stored L fs (w_disk w))"
    have objs: "tb_object (w_db w') = tb_object (w_db w)"
      using sql_add_object_objects(1) [OF D(4) add] known c c' by simp
    have "object_of (w_db w') (db_o_id e) = r"
    proof -
      have "object_of (w_db w') (db_o_id e) \<in> set (tb_object (w_db w'))"
        using object_of_ref(1) [OF db'(1) entry_SomeD(3) [OF db'(1,2)]] .
      moreover have "ob_hash (object_of (w_db w') (db_o_id e)) = ob_hash r"
        using entry_SomeD(4) [OF db'(1,2)] db'(3) r(2) c c' by simp
      ultimately show ?thesis
        using db_invD(4) [OF D(4)] r(1) unfolding objs distinct_map by (auto dest: inj_onD)
    qed
    then have "db_o_id e = ob_id r" using object_of_ref(2) [OF db'(1) entry_SomeD(3) [OF db'(1,2)]] by simp
    then show ?thesis using ok x objs st r(3) db'(2) by (auto simp: members_def)
  qed
qed

text \<open>The content of object 5 is uploaded again, under the part id 6.\<close>

definition w6 :: world where
  "w6 = snd (upload_part sample fs0 7 (Some 6) [[104, 105]] w3)"

lemma upload6: "store_inv sample fs0 w6" "w_db w6 = db3" "staged sample fs0 (w_disk w6) 6 = Some [104, 105]"
proof -
  show "store_inv sample fs0 w6" unfolding w6_def by (rule upload_part_inv [OF sample_inv(4)])
  have "snd (commit_part sample fs0 200 1 5 w2) = w3" by (simp add: w3_def)
  then have "staged sample fs0 (w_disk w3) 6 = None"
    using commit_part_ok [OF store_invD(1,4,5) [OF sample_inv(3)], of 200 1 5 object5 w3
        "staged sample fs0 (w_disk w3) 6 = None"] commit3(1) upload2(2)
    by (metis (no_types, lifting) fun_upd_apply option.distinct(1) prod.collapse)
  then show "w_db w6 = db3" "staged sample fs0 (w_disk w6) 6 = Some [104, 105]"
    using stage_disk(3) [OF store_invD(5) [OF sample_inv(4)] sample_uuid_law, of 6 "[[104, 105]]"]
    by (simp_all add: w6_def upload_part_eq commit3(2))
qed

theorem commit_deduplicates_witness:
  "\<exists>x w'. commit_part sample fs0 300 1 6 w6 = (Inr x, w') \<and> o_id x = 5"
proof -
  have b: "1 \<in> bk_id ` set (tb_bucket (w_db w6))" by (simp add: upload6(2) db3_def db1_def)
  have r: "\<lparr>ob_id = 5, ob_hash = ''6869'', ob_size = 2, ob_type = ''text'', ob_subtype = ''plain'',
      ob_added = 200\<rparr> \<in> set (tb_object (w_db w6))" by (simp add: upload6(2) db3_def)
  from commit_deduplicates [OF upload6(1,3) mime_hi b r] hash_hi show ?thesis by force
qed

section \<open>Reading\<close>

lemma entry3: "entry db3 1 5 = Some \<lparr>db_o_id = 5, db_o_hash = ''6869'', db_o_size = 2, db_o_type = ''text'',
    db_o_subtype = ''plain'', db_o_date_added = 200\<rparr>"
  by (simp add: entry_def object_of_def db3_def db1_def empty_database_def contents_row_def)

text \<open>The database and the disk agree for a reader: \<open>get_object\<close> fails exactly when the metadata
  cannot be had, with the same error, never for a file that is missing; otherwise it returns that
  metadata, for the id asked for, with content of the digest it states.\<close>

theorem get_object_agrees:
  assumes inv: "store_inv L fs w"
  shows "case get_object_metadata L b x w of
      (Inl e, w') \<Rightarrow> get_object L fs b x w = (Inl e, w) \<and> e = object_not_found L b x
    | (Inr meta, w') \<Rightarrow> (\<exists>c. get_object L fs b x w = (Inr (meta, c), w) \<and> o_id meta = x \<and>
        sha256sum L c = o_hash meta)"
proof (cases "entry (w_db w) b x")
  case None
  then show ?thesis by (simp add: get_object_eq [OF inv] get_object_metadata_eq [OF inv])
next
  case (Some e)
  obtain c where "stored L fs (w_disk w) x = Some c" "sha256sum L c = db_o_hash e"
    using listed_stored [OF inv Some] .
  with Some entry_SomeD(1) [OF store_invD(4) [OF inv] Some] show ?thesis
    by (simp add: get_object_eq [OF inv] get_object_metadata_eq [OF inv])
qed

theorem get_object_agrees_witness:
  "\<exists>c. get_object sample fs0 1 5 w3 = (Inr (object5, c), w3) \<and> sha256sum sample c = ''6869''"
proof -
  have "get_object_metadata sample 1 5 w3 = (Inr object5, w3)"
    using entry3 by (simp add: get_object_metadata_eq [OF sample_inv(4)] commit3(2) object5_def to_object_def)
  with get_object_agrees [OF sample_inv(4), of 1 5] show ?thesis by (simp add: object5_def)
qed

section \<open>Removing and pruning\<close>

text \<open>C6: Removing an object from a bucket returns the metadata it had there; the bucket has it no
  longer, a second removal says so, and every other bucket and object reads as before.\<close>

theorem remove_object_local:
  assumes inv: "store_inv L fs w" and ok: "store_remove_object L b x w = (Inr obj, w')"
  shows "get_object_metadata L b x w = (Inr obj, w) \<and>
    fst (get_object L fs b x w') = Inl (object_not_found L b x) \<and>
    fst (store_remove_object L b x w') = Inl (object_not_found L b x) \<and>
    (\<forall>b' x'. (b', x') \<noteq> (b, x) \<longrightarrow> fst (get_object L fs b' x' w') = fst (get_object L fs b' x' w))"
proof -
  note D = store_invD [OF inv]
  have inv': "store_inv L fs w'" using store_changes_inv(3) [OF inv, of b x] ok by simp
  obtain e where e: "entry (w_db w) b x = Some e" "obj = to_object e"
    and w': "w' = w\<lparr>w_db := snd (sql_remove_object b x (w_db w))\<rparr>"
    using ok by (auto simp: store_remove_object_eq [OF inv] split: option.splits)
  have entry': "entry (w_db w') = (entry (w_db w))(b := (entry (w_db w) b)(x := None))"
    and disk: "w_disk w' = w_disk w"
    using sql_remove_object_eq(2) [OF D(4)] w' by simp_all
  have "fst (get_object L fs b' x' w') = fst (get_object L fs b' x' w)" if "(b', x') \<noteq> (b, x)" for b' x'
    using that entry' disk by (cases "entry (w_db w) b' x'")
      (auto simp: get_object_eq [OF inv] get_object_eq [OF inv'])
  then show ?thesis
    using e entry' by (auto simp: get_object_metadata_eq [OF inv] get_object_eq [OF inv']
        store_remove_object_eq [OF inv'])
qed

definition w4 :: world where
  "w4 = snd (store_remove_object sample 1 5 w3)"

lemma remove4: "store_remove_object sample 1 5 w3 = (Inr object5, w4)"
  using entry3 by (simp add: w4_def store_remove_object_eq [OF sample_inv(4)] commit3(2) object5_def to_object_def)

theorem remove_object_local_witness:
  "fst (get_object sample fs0 1 5 w4) = Inl (object_not_found sample 1 5)"
  using remove_object_local [OF sample_inv(4) remove4] by blast

text \<open>C7: \<open>prune\<close> removes exactly the objects no bucket lists: it returns each of them once, afterwards
  the catalogue and the files are the listed objects, no listing changes, and pruning again does
  nothing.\<close>

theorem prune_exact:
  assumes inv: "store_inv L fs w"
  shows "\<exists>removed w'. prune L fs w = (Inr removed, w') \<and> distinct (map o_id removed) \<and>
    o_id ` set removed = ob_id ` set (tb_object (w_db w)) - referenced (w_db w) \<and>
    dom (stored L fs (w_disk w')) = referenced (w_db w) \<and>
    ob_id ` set (tb_object (w_db w')) = referenced (w_db w) \<and>
    (\<forall>b x. fst (get_object L fs b x w') = fst (get_object L fs b x w)) \<and>
    fst (prune L fs w') = Inr []"
proof (rule prune_eq [OF inv])
  note D = store_invD [OF inv]
  fix d'
  let ?db' = "snd (sql_remove_orphan_objects (w_db w))"
  let ?orphans = "filter (\<lambda>r. ob_id r \<notin> referenced (w_db w)) (tb_object (w_db w))"
  let ?w' = "\<lparr>w_db = ?db', w_disk = d'\<rparr>"
  let ?removed = "map (to_object \<circ> object_view) ?orphans"
  assume p: "prune L fs w = (Inr ?removed, ?w')"
    and st: "stored L fs d' = (\<lambda>u. if u \<in> ob_id ` set ?orphans then None else stored L fs (w_disk w) u)"
  have inv': "store_inv L fs ?w'" using prune_inv [OF inv] p by simp
  have ref_db': "referenced ?db' = referenced (w_db w)" by (simp add: referenced_def sql_prune_links)
  have sub: "referenced (w_db w) \<subseteq> ob_id ` set (tb_object (w_db w))"
    using D(4) by (auto simp: referenced_def db_inv_def refs_inv_def)
  have ids: "map o_id ?removed = map ob_id ?orphans" by simp
  have objs: "ob_id ` set (tb_object ?db') = referenced (w_db w)"
    using sub by (auto simp: sql_prune_eq(2))
  moreover have "dom (stored L fs d') = referenced (w_db w)"
    using store_invD(6) [OF inv'] objs by (simp add: agree_def)
  moreover have "fst (get_object L fs b x ?w') = fst (get_object L fs b x w)" for b x
  proof (cases "entry (w_db w) b x")
    case None
    then show ?thesis
      using sql_prune_entry [OF D(4)] by (simp add: get_object_eq [OF inv] get_object_eq [OF inv'])
  next
    case (Some e)
    then have "x \<in> referenced (w_db w)" by (auto simp: referenced_iff)
    then have "stored L fs d' x = stored L fs (w_disk w) x" by (auto simp: st)
    then show ?thesis
      using Some sql_prune_entry [OF D(4)] by (simp add: get_object_eq [OF inv] get_object_eq [OF inv'])
  qed
  moreover have "fst (prune L fs ?w') = Inr []"
    by (rule prune_eq [OF inv']) (auto simp: sql_prune_eq(2) ref_db' filter_empty_conv)
  moreover have "distinct (map o_id ?removed)"
    unfolding ids using db_invD(3) [OF D(4)] by (rule distinct_map_filterI)
  moreover have "o_id ` set ?removed = ob_id ` set (tb_object (w_db w)) - referenced (w_db w)"
    by (auto simp: image_iff)
  ultimately show ?thesis using p by (intro exI [of _ ?removed] exI [of _ ?w']) simp
qed

theorem prune_exact_witness: "\<exists>w'. prune sample fs0 w3 = (Inr [], w') \<and> dom (stored sample fs0 (w_disk w')) = {5}"
proof -
  have ref: "referenced (w_db w3) = {5}" "ob_id ` set (tb_object (w_db w3)) = {5}"
    by (simp_all add: referenced_def commit3(2) db3_def)
  obtain removed w' where p: "prune sample fs0 w3 = (Inr removed, w')" "o_id ` set removed = {5} - {5}"
    "dom (stored sample fs0 (w_disk w')) = {5}"
    using prune_exact [OF sample_inv(4)] unfolding ref by metis
  then show ?thesis by (intro exI [of _ w']) simp
qed

end
