(* ===== verification/Router.thy ===== *)
theory Router
  imports Store_Behaviour
begin

text \<open>
  \<open>src/libserver/router.cpp\<close> and \<open>include/internal/server/server.hpp\<close>: the binary protocol.  A request
  is an event number and arguments; the router looks its handler up by the number, in the order
  \<open>make_router\<close> lists the handlers.  With them, the wire form of the errors
  (\<open>include/fstore/except.hpp\<close>) and of a file (\<open>include/fstore/model/file.hpp\<close>).
\<close>

section \<open>Handlers\<close>

text \<open>
  What the connection delivers of an upload: the chunks that arrive, and the exception that ends the
  stream early, if any.
\<close>

record upload =
  up_chunks :: "blob list"
  up_fault :: "error option"

definition router_add_object ::
  "libs \<Rightarrow> filesystem \<Rightarrow> uuid \<Rightarrow> time_point \<Rightarrow> uuid \<Rightarrow> uuid option \<Rightarrow> upload \<Rightarrow> world \<Rightarrow>
   (error, object, world) outcome" where
  "router_add_object L fs generated now b request stream w =
     (case store_get_part L fs generated request w of (p, w1) \<Rightarrow>
        let part_id = pt_id p;
            p' = foldl part_write p (up_chunks stream);
            w2 = w1\<lparr>w_disk := part_close p' (w_disk w1)\<rparr>
        in case up_fault stream of
             Some e \<Rightarrow> (Inl e, w2)
           | None \<Rightarrow> commit_part L fs now b part_id w2)"

definition router_fetch_bucket :: "libs \<Rightarrow> string \<Rightarrow> world \<Rightarrow> (error, bucket, world) outcome" where
  "router_fetch_bucket L name w = store_fetch_bucket L name w"

definition router_get_object ::
  "libs \<Rightarrow> filesystem \<Rightarrow> uuid \<Rightarrow> uuid \<Rightarrow> world \<Rightarrow> (error, object \<times> blob, world) outcome" where
  "router_get_object L fs b x w = get_object L fs b x w"

definition router_get_object_metadata ::
  "libs \<Rightarrow> uuid \<Rightarrow> uuid \<Rightarrow> world \<Rightarrow> (error, object, world) outcome" where
  "router_get_object_metadata L b x w = get_object_metadata L b x w"

definition router_get_server_info :: "server_info \<Rightarrow> world \<Rightarrow> (error, server_info, world) outcome" where
  "router_get_server_info info w = (Inr info, w)"

definition router_remove_object ::
  "libs \<Rightarrow> uuid \<Rightarrow> uuid \<Rightarrow> world \<Rightarrow> (error, object, world) outcome" where
  "router_remove_object L b x w = store_remove_object L b x w"

definition router_remove_objects ::
  "libs \<Rightarrow> uuid \<Rightarrow> uuid list \<Rightarrow> world \<Rightarrow> (error, remove_result, world) outcome" where
  "router_remove_objects L b xs w = store_remove_objects L b xs w"

section \<open>Events\<close>

datatype event =
    Event_add_object
  | Event_fetch_bucket
  | Event_get_object
  | Event_get_object_metadata
  | Event_get_server_info
  | Event_remove_object
  | Event_remove_objects

text \<open>The value of an enumerator is its position.\<close>

fun event_value :: "event \<Rightarrow> nat" where
  "event_value Event_add_object = 0"
| "event_value Event_fetch_bucket = 1"
| "event_value Event_get_object = 2"
| "event_value Event_get_object_metadata = 3"
| "event_value Event_get_server_info = 4"
| "event_value Event_remove_object = 5"
| "event_value Event_remove_objects = 6"

text \<open>
  The arguments as they are decoded for a handler's parameters, and the results.  A handler that is
  given arguments of another shape cannot decode them.
\<close>

datatype arguments =
    Args_upload uuid "uuid option" upload
  | Args_name string
  | Args_ids uuid uuid
  | Args_none
  | Args_list uuid "uuid list"

datatype response =
    Sends_object object
  | Sends_bucket bucket
  | Sends_file object blob
  | Sends_info server_info
  | Sends_result remove_result

record request_context =
  cx_libs :: libs
  cx_fs :: filesystem
  cx_info :: server_info
  cx_generated :: uuid
  cx_now :: time_point

type_synonym handler = "request_context \<Rightarrow> arguments \<Rightarrow> world \<Rightarrow> (error, response, world) outcome option"

fun handle_add_object :: handler where
  "handle_add_object c (Args_upload b req stream) w = Some (returning Sends_object
     (router_add_object (cx_libs c) (cx_fs c) (cx_generated c) (cx_now c) b req stream w))"
| "handle_add_object c _ w = None"

fun handle_fetch_bucket :: handler where
  "handle_fetch_bucket c (Args_name n) w =
     Some (returning Sends_bucket (router_fetch_bucket (cx_libs c) n w))"
| "handle_fetch_bucket c _ w = None"

fun handle_get_object :: handler where
  "handle_get_object c (Args_ids b x) w =
     Some (returning (\<lambda>(m, fd). Sends_file m fd) (router_get_object (cx_libs c) (cx_fs c) b x w))"
| "handle_get_object c _ w = None"

fun handle_get_object_metadata :: handler where
  "handle_get_object_metadata c (Args_ids b x) w =
     Some (returning Sends_object (router_get_object_metadata (cx_libs c) b x w))"
| "handle_get_object_metadata c _ w = None"

fun handle_get_server_info :: handler where
  "handle_get_server_info c Args_none w =
     Some (returning Sends_info (router_get_server_info (cx_info c) w))"
| "handle_get_server_info c _ w = None"

fun handle_remove_object :: handler where
  "handle_remove_object c (Args_ids b x) w =
     Some (returning Sends_object (router_remove_object (cx_libs c) b x w))"
| "handle_remove_object c _ w = None"

fun handle_remove_objects :: handler where
  "handle_remove_objects c (Args_list b xs) w =
     Some (returning Sends_result (router_remove_objects (cx_libs c) b xs w))"
| "handle_remove_objects c _ w = None"

definition make_router :: "handler list" where
  "make_router = [handle_add_object, handle_fetch_bucket, handle_get_object,
     handle_get_object_metadata, handle_get_server_info, handle_remove_object,
     handle_remove_objects]"

text \<open>\<open>zipline::router\<close> finds a route by its index; an index out of range is refused.\<close>

definition route :: "request_context \<Rightarrow> nat \<Rightarrow> arguments \<Rightarrow> world \<Rightarrow> (error, response, world) outcome option" where
  "route c n args w = (if n < length make_router then (make_router ! n) c args w else None)"

section \<open>Errors on the wire\<close>

text \<open>
  \<open>error_list::codes\<close> numbers the exceptions of the list; the payload is what the exception encodes,
  its text unless it overrides \<open>encode\<close>.  \<open>error_list::thrower\<close> decodes the exception of a number.
\<close>

definition encode_error :: "libs \<Rightarrow> error \<Rightarrow> (nat \<times> string) option" where
  "encode_error L e = map_option (\<lambda>n. (n, case e of Unique_bucket_violation name \<Rightarrow> name | _ \<Rightarrow> what L e))
     (error_code e)"

definition decode_error :: "nat \<times> string \<Rightarrow> error option" where
  "decode_error m = (case m of (n, s) \<Rightarrow>
     if n < 3 then Some (([Invalid_data, Not_found, Unique_bucket_violation] ! n) s) else None)"

end
