(* ===== verification/Client.thy ===== *)
theory Client
  imports Router
begin

text \<open>
  \<open>src/libfstore\<close>: the client of the binary protocol.  A method sends an event with its arguments and
  decodes the response; downloads decode a stream of chunks into a blob, an output stream, or a
  buffer of the caller.
\<close>

section \<open>Requests\<close>

definition client_add_object :: "uuid \<Rightarrow> uuid option \<Rightarrow> upload \<Rightarrow> nat \<times> arguments" where
  "client_add_object b part_id stream = (event_value Event_add_object, Args_upload b part_id stream)"

definition client_fetch_bucket :: "string \<Rightarrow> nat \<times> arguments" where
  "client_fetch_bucket name = (event_value Event_fetch_bucket, Args_name name)"

definition client_get_object :: "uuid \<Rightarrow> uuid \<Rightarrow> nat \<times> arguments" where
  "client_get_object b x = (event_value Event_get_object, Args_ids b x)"

definition client_get_object_metadata :: "uuid \<Rightarrow> uuid \<Rightarrow> nat \<times> arguments" where
  "client_get_object_metadata b x = (event_value Event_get_object_metadata, Args_ids b x)"

definition client_get_server_info :: "nat \<times> arguments" where
  "client_get_server_info = (event_value Event_get_server_info, Args_none)"

definition client_remove_object :: "uuid \<Rightarrow> uuid \<Rightarrow> nat \<times> arguments" where
  "client_remove_object b x = (event_value Event_remove_object, Args_ids b x)"

definition client_remove_objects :: "uuid \<Rightarrow> uuid list \<Rightarrow> nat \<times> arguments" where
  "client_remove_objects b xs = (event_value Event_remove_objects, Args_list b xs)"

definition call :: "request_context \<Rightarrow> nat \<times> arguments \<Rightarrow> world \<Rightarrow> (error, response, world) outcome option" where
  "call c m w = (case m of (n, args) \<Rightarrow> route c n args w)"

section \<open>Files on the wire\<close>

text \<open>The encoder of \<open>file\<close>: the size of the metadata, then as many bytes of the descriptor.\<close>

definition encode_file :: "object \<Rightarrow> blob \<Rightarrow> uint64 \<times> blob" where
  "encode_file meta fd = (o_size meta, take (unat (o_size meta)) fd)"

text \<open>The three ways to decode it: into a blob, an output stream, or a buffer.\<close>

definition decode_blob :: "blob list \<Rightarrow> blob" where
  "decode_blob chunks = foldl (\<lambda>blob chunk. blob @ chunk) [] chunks"

definition write_chunks :: "blob \<Rightarrow> blob list \<Rightarrow> blob" where
  "write_chunks out chunks = foldl (\<lambda>out chunk. out @ chunk) out chunks"

text \<open>
  The buffer's index is an \<open>int\<close>: adding a size to it wraps around at \<open>2 ^ 31\<close>.  \<open>None\<close> is a write
  outside the buffer; copying no bytes writes nothing, wherever the index is.
\<close>

fun copy_chunks :: "32 word \<Rightarrow> blob \<Rightarrow> blob list \<Rightarrow> blob option" where
  "copy_chunks index buffer [] = Some buffer"
| "copy_chunks index buffer (chunk # chunks) =
     (let k = nat (sint index)
      in if chunk = [] then copy_chunks index buffer chunks
         else if sint index < 0 \<or> length buffer < k + length chunk then None
         else copy_chunks (index + of_nat (length chunk))
                (take k buffer @ chunk @ drop (k + length chunk) buffer) chunks)"

definition get_object_into :: "blob \<Rightarrow> blob list \<Rightarrow> blob option" where
  "get_object_into buffer chunks = copy_chunks 0 buffer chunks"

lemma write_chunks_eq: "write_chunks out chunks = out @ concat chunks"
  unfolding write_chunks_def by (induction chunks arbitrary: out) simp_all

lemma decode_blob_eq: "decode_blob chunks = concat chunks"
  using write_chunks_eq [of "[]" chunks] by (simp add: decode_blob_def write_chunks_def)

lemma sint_of_nat32: "n < 2 ^ 31 \<Longrightarrow> sint (of_nat n :: 32 word) = int n"
  by (simp add: signed_of_nat signed_take_bit_int_eq_self)

text \<open>Chunks that begin below the limit are copied one behind the other.\<close>

lemma copy_chunks_step:
  assumes "length copied < 2 ^ 31" and "length c \<le> length rest"
  shows "copy_chunks (of_nat (length copied)) (copied @ rest) (c # cs) =
    copy_chunks (of_nat (length (copied @ c))) ((copied @ c) @ drop (length c) rest) cs"
proof (cases "c = []")
  case False
  have s: "sint (of_nat (length copied) :: 32 word) = int (length copied)" by (rule sint_of_nat32 [OF assms(1)])
  have k: "nat (sint (of_nat (length copied) :: 32 word)) = length copied" "\<not> sint (of_nat (length copied) :: 32 word) < 0"
    unfolding s by simp_all
  have l: "\<not> length (copied @ rest) < length copied + length c" using assms(2) by simp
  have e: "of_nat (length copied) + of_nat (length c) = (of_nat (length (copied @ c)) :: 32 word)"
    "take (length copied) (copied @ rest) @ c @ drop (length copied + length c) (copied @ rest) =
       (copied @ c) @ drop (length c) rest"
    by simp_all
  show ?thesis unfolding copy_chunks.simps(2) Let_def k(1) by (simp only: k(2) l e False if_False simp_thms)
qed simp

lemma copy_chunks_append:
  assumes "length copied + length (concat cs) < 2 ^ 31" and "length (concat cs) \<le> length rest"
  shows "copy_chunks (of_nat (length copied)) (copied @ rest) (cs @ cs') =
    copy_chunks (of_nat (length (copied @ concat cs))) ((copied @ concat cs) @ drop (length (concat cs)) rest) cs'"
  using assms
proof (induction cs arbitrary: copied rest)
  case (Cons c cs)
  have "copy_chunks (of_nat (length copied)) (copied @ rest) (c # cs @ cs') =
      copy_chunks (of_nat (length (copied @ c))) ((copied @ c) @ drop (length c) rest) (cs @ cs')"
    using Cons.prems by (intro copy_chunks_step) simp_all
  also have "\<dots> = copy_chunks (of_nat (length ((copied @ c) @ concat cs)))
      (((copied @ c) @ concat cs) @ drop (length (concat cs)) (drop (length c) rest)) cs'"
    by (rule Cons.IH) (use Cons.prems in simp_all)
  also have "drop (length (concat cs)) (drop (length c) rest) = drop (length (concat (c # cs))) rest"
    by (simp add: add.commute)
  finally show ?case by (simp only: concat.simps append_assoc append_Cons)
qed simp

lemma copy_chunks_last:
  assumes "length (concat cs) < 2 ^ 31" and "length (concat cs @ chunk) \<le> length buffer"
  shows "copy_chunks 0 buffer (cs @ [chunk]) = Some (concat cs @ chunk @ drop (length (concat cs @ chunk)) buffer)"
  using copy_chunks_append [of "[]" cs buffer "[chunk]"] assms
    copy_chunks_step [of "concat cs" chunk "drop (length (concat cs)) buffer" "[]"]
  by (simp add: add.commute)

lemma copy_chunks_eq:
  assumes "length copied + length (concat chunks) < 2 ^ 31" and "length (concat chunks) \<le> length rest"
  shows "copy_chunks (of_nat (length copied)) (copied @ rest) chunks =
    Some (copied @ concat chunks @ drop (length (concat chunks)) rest)"
  using copy_chunks_append [OF assms, of "[]"] by simp

lemma sint_of_nat32_neg:
  assumes "2 ^ 31 \<le> n" and "n < 2 ^ 32" shows "sint (of_nat n :: 32 word) < 0"
proof -
  have "(of_nat n :: 32 word) = of_int (int n - 2 ^ 32)" by simp
  also have "sint \<dots> = int n - 2 ^ 32"
    using assms unfolding sint_sbintrunc' by (intro signed_take_bit_int_eq_self) simp_all
  finally show ?thesis using assms by simp
qed

lemma copy_chunks_negative: "sint index < 0 \<Longrightarrow> chunk \<noteq> [] \<Longrightarrow> copy_chunks index buffer (cs @ chunk # chunks) = None"
  by (induction cs) simp_all

lemma copy_chunks_overflow:
  assumes "n < 2 ^ 31" and "2 ^ 31 \<le> n + length (concat cs)" and "\<forall>c \<in> set cs. length c \<le> 2 ^ 31" and "chunk \<noteq> []"
  shows "copy_chunks (of_nat n) buffer (cs @ chunk # chunks) = None"
  using assms
proof (induction cs arbitrary: n buffer)
  case (Cons c cs)
  let ?m = "n + length c"
  have m: "(of_nat n :: 32 word) + of_nat (length c) = of_nat ?m" by simp
  have later: "copy_chunks (of_nat ?m) buffer' (cs @ chunk # chunks) = None" for buffer'
  proof (cases "?m < 2 ^ 31")
    case True
    then show ?thesis using Cons.prems by (intro Cons.IH) simp_all
  next
    case False
    then have "sint (of_nat ?m :: 32 word) < 0" using Cons.prems(1,3) by (intro sint_of_nat32_neg) simp_all
    then show ?thesis using copy_chunks_negative Cons.prems(4) by blast
  qed
  show ?case
  proof (cases "c = []")
    case True
    then show ?thesis using later [of buffer] by simp
  next
    case False
    then show ?thesis using later by (simp add: Let_def m del: of_nat_add)
  qed
qed simp

end
