(* ===== verification/Http_Router.thy ===== *)
theory Http_Router
  imports Router
begin

text \<open>
  \<open>src/libserver/http/router.cpp\<close>, the HTTP routes, with the requests the HTTP clients of
  \<open>src/libfstore/detail/http\<close> build for them.  A request is a method, the segments of the path and a
  body; the HTTP library matches segments to a route's pattern and converts its parameters.
\<close>

section \<open>Library functions\<close>

text \<open>
  \<open>ext::string_range\<close> (the pieces between separators), \<open>ext::join\<close>, and the conversion of a text to a
  uuid, which throws for a text that is none.
\<close>

record http_libs = libs +
  string_range :: "string \<Rightarrow> string \<Rightarrow> string list"
  join :: "string list \<Rightarrow> string \<Rightarrow> string"
  parse_uuid :: "string \<Rightarrow> error + uuid"

text \<open>Documented behaviour: splitting at a one-character separator, joining, and reading a uuid's text.\<close>

fun split_at_char :: "char \<Rightarrow> string \<Rightarrow> string list" where
  "split_at_char c [] = [[]]"
| "split_at_char c (x # xs) = (if x = c then [] # split_at_char c xs
     else (case split_at_char c xs of [] \<Rightarrow> [[x]] | l # ls \<Rightarrow> (x # l) # ls))"

fun join_with :: "string \<Rightarrow> string list \<Rightarrow> string" where
  "join_with sep [] = []"
| "join_with sep [s] = s"
| "join_with sep (s # t # ss) = s @ sep @ join_with sep (t # ss)"

definition newline :: char where
  "newline = CHR 0x0A"

definition lines_law :: "'a http_libs_scheme \<Rightarrow> bool" where
  "lines_law H \<longleftrightarrow> (\<forall>s. string_range H s [newline] = split_at_char newline s) \<and>
     (\<forall>ss. join H ss [newline] = join_with [newline] ss)"

definition uuid_read_law :: "'a http_libs_scheme \<Rightarrow> bool" where
  "uuid_read_law H \<longleftrightarrow> (\<forall>u. parse_uuid H (uuid_text H u) = Inr u \<and>
     (\<forall>c \<in> set (uuid_text H u). \<not> is_space c))"

definition base_libs :: "'a http_libs_scheme \<Rightarrow> libs" where
  "base_libs H = libs.truncate H"

section \<open>Uploading\<close>

text \<open>
  The stream of a request: what the n-th \<open>read\<close> returns, an exception or a chunk, which may be empty.
  The loop reads until as many bytes as \<open>content-length\<close> announces have been written; \<open>None\<close> is a
  loop that does not end.
\<close>

type_synonym body_stream = "nat \<Rightarrow> error + blob"

partial_function (option) upload_loop ::
  "body_stream \<Rightarrow> uint64 \<Rightarrow> nat \<Rightarrow> uint64 \<Rightarrow> part \<Rightarrow> ((error + unit) \<times> part) option" where
  "upload_loop reads content_length n written p =
     (if written < content_length then
        (case reads n of
           Inl e \<Rightarrow> Some (Inl e, p)
         | Inr chunk \<Rightarrow>
             if chunk = [] then upload_loop reads content_length (Suc n) written p
             else upload_loop reads content_length (Suc n) (written + of_nat (length chunk))
                    (part_write p chunk))
      else Some (Inr (), p))"

definition http_add_object ::
  "libs \<Rightarrow> filesystem \<Rightarrow> uuid \<Rightarrow> time_point \<Rightarrow> uuid \<Rightarrow> uint64 \<Rightarrow> body_stream \<Rightarrow> world \<Rightarrow>
   (error, object, world) outcome option" where
  "http_add_object L fs generated now b content_length reads w =
     (case store_get_part L fs generated None w of (p, w1) \<Rightarrow>
        (case upload_loop reads content_length 0 0 p of
           None \<Rightarrow> None
         | Some (r, p') \<Rightarrow>
             let w2 = w1\<lparr>w_disk := part_close p' (w_disk w1)\<rparr>
             in case r of
                  Inl e \<Rightarrow> Some (Inl e, w2)
                | Inr _ \<Rightarrow> Some (commit_part L fs now b (pt_id p) w2)))"

section \<open>Removing by list\<close>

definition parse_lines :: "'a http_libs_scheme \<Rightarrow> string \<Rightarrow> error + uuid list" where
  "parse_lines H objects =
     traverse (parse_uuid H)
       (filter (\<lambda>t. t \<noteq> []) (map (ext_trim H) (string_range H objects [newline])))"

definition http_remove_objects ::
  "'a http_libs_scheme \<Rightarrow> uuid \<Rightarrow> string \<Rightarrow> world \<Rightarrow> (error, remove_result, world) outcome" where
  "http_remove_objects H b objects w =
     (case parse_lines H objects of
        Inl e \<Rightarrow> (Inl e, w)
      | Inr ids \<Rightarrow> store_remove_objects (base_libs H) b ids w)"

section \<open>Routes\<close>

datatype http_method = GET | DELETE | POST

datatype http_body = No_body | Text string | Stream uint64 body_stream

record http_request =
  rq_method :: http_method
  rq_path :: "string list"
  rq_body :: http_body

text \<open>The response: the value a handler returns, a file with its size and type, or its exception.\<close>

datatype http_response =
    Json_info server_info
  | Json_bucket bucket
  | Json_object object
  | Json_result remove_result
  | Http_file blob uint64 string

text \<open>Converting two path parameters before the handler runs.\<close>

definition with_ids ::
  "'a http_libs_scheme \<Rightarrow> string \<Rightarrow> string \<Rightarrow> (uuid \<Rightarrow> uuid \<Rightarrow> world \<Rightarrow> (error, 'r, world) outcome) \<Rightarrow>
   world \<Rightarrow> (error, 'r, world) outcome" where
  "with_ids H b x k w =
     (case bind_sum (parse_uuid H b) (\<lambda>b. bind_sum (parse_uuid H x) (\<lambda>x. Inr (b, x))) of
        Inl e \<Rightarrow> (Inl e, w)
      | Inr (b, x) \<Rightarrow> k b x w)"

text \<open>
  The outer \<open>None\<close> is a request no route matches, which the library answers; the inner one a request
  whose upload never ends, which has no answer.
\<close>

fun http_route ::
  "'a http_libs_scheme \<Rightarrow> filesystem \<Rightarrow> server_info \<Rightarrow> uuid \<Rightarrow> time_point \<Rightarrow> http_method \<Rightarrow> string list \<Rightarrow>
   http_body \<Rightarrow> world \<Rightarrow> (error, http_response, world) outcome option option" where
  "http_route H fs info g now GET [] body w = Some (Some (Inr (Json_info info), w))"
| "http_route H fs info g now GET [r1, name] body w =
     (if r1 = ''bucket'' then Some (Some (returning Json_bucket (store_fetch_bucket (base_libs H) name w)))
      else None)"
| "http_route H fs info g now GET [r1, b, x] body w =
     (if r1 = ''object'' then
        Some (Some (with_ids H b x (\<lambda>b x w. returning Json_object (get_object_metadata (base_libs H) b x w)) w))
      else if r1 = ''data'' then
        Some (Some (with_ids H b x (\<lambda>b x w. returning (\<lambda>(m, fd). Http_file fd (o_size m) (mime_type m))
          (get_object (base_libs H) fs b x w)) w))
      else None)"
| "http_route H fs info g now DELETE [r1, b, x] body w =
     (if r1 = ''object'' then
        Some (Some (with_ids H b x (\<lambda>b x w. returning Json_object (store_remove_object (base_libs H) b x w)) w))
      else None)"
| "http_route H fs info g now DELETE [r1, b] (Text objects) w =
     (if r1 = ''object'' then
        Some (Some (case parse_uuid H b of
          Inl e \<Rightarrow> (Inl e, w)
        | Inr b \<Rightarrow> returning Json_result (http_remove_objects H b objects w)))
      else None)"
| "http_route H fs info g now POST [r1, b] (Stream content_length reads) w =
     (if r1 = ''object'' then
        Some (case parse_uuid H b of
          Inl e \<Rightarrow> Some (Inl e, w)
        | Inr b \<Rightarrow> map_option (returning Json_object)
            (http_add_object (base_libs H) fs g now b content_length reads w))
      else None)"
| "http_route H fs info g now meth p body w = None"

definition http_serve ::
  "'a http_libs_scheme \<Rightarrow> filesystem \<Rightarrow> server_info \<Rightarrow> uuid \<Rightarrow> time_point \<Rightarrow> http_request \<Rightarrow> world \<Rightarrow>
   (error, http_response, world) outcome option option" where
  "http_serve H fs info g now q w = http_route H fs info g now (rq_method q) (rq_path q) (rq_body q) w"

section \<open>The requests of the HTTP client\<close>

definition request_add_object ::
  "'a http_libs_scheme \<Rightarrow> uuid \<Rightarrow> uint64 \<Rightarrow> body_stream \<Rightarrow> http_request" where
  "request_add_object H b n reads = \<lparr>rq_method = POST, rq_path = [''object'', uuid_text H b],
     rq_body = Stream n reads\<rparr>"

definition request_fetch_bucket :: "string \<Rightarrow> http_request" where
  "request_fetch_bucket name = \<lparr>rq_method = GET, rq_path = [''bucket'', name], rq_body = No_body\<rparr>"

definition request_get_object :: "'a http_libs_scheme \<Rightarrow> uuid \<Rightarrow> uuid \<Rightarrow> http_request" where
  "request_get_object H b x = \<lparr>rq_method = GET, rq_path = [''data'', uuid_text H b, uuid_text H x],
     rq_body = No_body\<rparr>"

definition request_get_object_metadata :: "'a http_libs_scheme \<Rightarrow> uuid \<Rightarrow> uuid \<Rightarrow> http_request" where
  "request_get_object_metadata H b x =
     \<lparr>rq_method = GET, rq_path = [''object'', uuid_text H b, uuid_text H x], rq_body = No_body\<rparr>"

definition request_get_server_info :: http_request where
  "request_get_server_info = \<lparr>rq_method = GET, rq_path = [], rq_body = No_body\<rparr>"

definition request_remove_object :: "'a http_libs_scheme \<Rightarrow> uuid \<Rightarrow> uuid \<Rightarrow> http_request" where
  "request_remove_object H b x =
     \<lparr>rq_method = DELETE, rq_path = [''object'', uuid_text H b, uuid_text H x], rq_body = No_body\<rparr>"

definition request_remove_objects :: "'a http_libs_scheme \<Rightarrow> uuid \<Rightarrow> uuid list \<Rightarrow> http_request" where
  "request_remove_objects H b objects =
     \<lparr>rq_method = DELETE, rq_path = [''object'', uuid_text H b],
      rq_body = Text (join H (map (uuid_text H) objects) [newline])\<rparr>"

end
