(* ===== verification/Server_Laws.thy ===== *)
theory Server_Laws
  imports Client Http_Router Store_System
begin

text \<open>
  Lemmas about the two protocols: uploads in terms of the store's operations, the loop that reads an
  HTTP body, and the bodies that name objects line by line.
\<close>

section \<open>Uploads\<close>

lemma router_add_object_eq:
  "router_add_object L fs g now b req stream w =
     (case upload_part L fs g req (up_chunks stream) w of (i, w2) \<Rightarrow>
        case up_fault stream of Some e \<Rightarrow> (Inl e, w2) | None \<Rightarrow> commit_part L fs now b i w2)"
  by (simp add: router_add_object_def upload_part_def Let_def split: prod.split option.split)

lemma part_write_Nil [simp]: "part_write p [] = p"
  by (simp add: part_write_def)

lemma part_id_writes [simp]: "pt_id (foldl part_write p cs) = pt_id p"
  by (induction cs arbitrary: p) (simp_all add: part_write_def)

text \<open>The first chunk that completes the announced length ends the loop.\<close>

definition bytes_read :: "(nat \<Rightarrow> blob) \<Rightarrow> nat \<Rightarrow> nat" where
  "bytes_read c n = (\<Sum>k<n. length (c k))"

lemma bytes_read_Suc [simp]: "bytes_read c (Suc n) = bytes_read c n + length (c n)"
  by (simp add: bytes_read_def)

lemma upload_loop_step:
  assumes "unat written < unat content_length" and "reads n = Inr chunk"
  shows "upload_loop reads content_length n written p =
    upload_loop reads content_length (Suc n) (written + of_nat (length chunk)) (part_write p chunk)"
  using assms by (subst upload_loop.simps) (simp add: word_less_nat_alt)

lemma upload_loop_run:
  assumes chunks: "\<And>k. n \<le> k \<Longrightarrow> k < m \<Longrightarrow> reads k = Inr (c k)" and le: "n \<le> m"
    and short: "\<And>k. n \<le> k \<Longrightarrow> k < m \<Longrightarrow> bytes_read c k < unat content_length"
    and fits: "bytes_read c m < 2 ^ 64"
  shows "upload_loop reads content_length n (of_nat (bytes_read c n)) p =
    upload_loop reads content_length m (of_nat (bytes_read c m)) (foldl part_write p (map c [n..<m]))"
  using le chunks short
proof (induction n arbitrary: p rule: inc_induct)
  case (step n)
  have "bytes_read c n < 2 ^ 64"
  proof -
    have "bytes_read c n \<le> bytes_read c m"
      unfolding bytes_read_def using step.hyps by (intro sum_mono2) auto
    then show ?thesis using fits by simp
  qed
  then have u: "unat (of_nat (bytes_read c n) :: uint64) = bytes_read c n"
    by (rule unat_of_nat64)
  have "upload_loop reads content_length n (of_nat (bytes_read c n)) p =
      upload_loop reads content_length (Suc n) (of_nat (bytes_read c (Suc n))) (part_write p (c n))"
    using upload_loop_step [of "of_nat (bytes_read c n)" content_length reads n "c n" p]
      step.prems(1,2) [of n] step.hyps u by simp
  also have "\<dots> = upload_loop reads content_length m (of_nat (bytes_read c m))
      (foldl part_write (part_write p (c n)) (map c [Suc n..<m]))"
    using step.prems by (intro step.IH) auto
  also have "map c [n..<m] = c n # map c [Suc n..<m]"
    using step.hyps by (simp add: upt_conv_Cons)
  ultimately show ?case by simp
qed simp

lemma upload_loop_complete:
  assumes chunks: "\<And>k. k < m \<Longrightarrow> reads k = Inr (c k)"
    and short: "\<And>k. k < m \<Longrightarrow> bytes_read c k < unat content_length"
    and enough: "unat content_length \<le> bytes_read c m" and fits: "bytes_read c m < 2 ^ 64"
  shows "upload_loop reads content_length 0 0 p = Some (Inr (), foldl part_write p (map c [0..<m]))"
proof -
  have "upload_loop reads content_length 0 (of_nat (bytes_read c 0)) p =
    upload_loop reads content_length m (of_nat (bytes_read c m)) (foldl part_write p (map c [0..<m]))"
    using chunks short fits by (intro upload_loop_run) auto
  moreover have "\<not> of_nat (bytes_read c m) < content_length"
    using enough unat_of_nat64 [OF fits] by (simp add: word_less_nat_alt not_less)
  ultimately show ?thesis
    by (simp add: bytes_read_def upload_loop.simps [of reads content_length m])
qed

text \<open>A stream that has nothing more to give, short of the announced length, keeps the loop going.\<close>

lemma upload_loop_idle:
  assumes "upload_loop reads content_length n written p = Some res" and "written < content_length"
  shows "\<exists>k\<ge>n. reads k \<noteq> Inr []"
proof -
  have "written < content_length \<longrightarrow> (\<exists>k\<ge>n. reads k \<noteq> Inr [])"
  proof (rule upload_loop.raw_induct [OF _ assms(1), where
      P = "\<lambda>reads content_length n written p res. written < content_length \<longrightarrow> (\<exists>k\<ge>n. reads k \<noteq> Inr [])"])
    fix loop :: "body_stream \<Rightarrow> uint64 \<Rightarrow> nat \<Rightarrow> uint64 \<Rightarrow> part \<Rightarrow> ((error + unit) \<times> part) option"
    fix reads content_length n written p res
    assume IH: "\<And>reads content_length n written p res. loop reads content_length n written p = Some res \<Longrightarrow>
        written < content_length \<longrightarrow> (\<exists>k\<ge>n. reads k \<noteq> Inr [])"
      and eq: "(if written < content_length then case reads n of Inl e \<Rightarrow> Some (Inl e, p)
         | Inr chunk \<Rightarrow> if chunk = [] then loop reads content_length (Suc n) written p
             else loop reads content_length (Suc n) (written + of_nat (length chunk)) (part_write p chunk)
         else Some (Inr (), p)) = Some res"
    show "written < content_length \<longrightarrow> (\<exists>k\<ge>n. reads k \<noteq> Inr [])"
    proof
      assume w: "written < content_length"
      show "\<exists>k\<ge>n. reads k \<noteq> Inr []"
      proof (cases "reads n = Inr []")
        case True
        with eq w have "loop reads content_length (Suc n) written p = Some res" by simp
        from IH [OF this] w show ?thesis using Suc_leD by blast
      qed blast
    qed
  qed
  with assms(2) show ?thesis by blast
qed

lemma upload_loop_diverges:
  assumes chunks: "\<And>k. k < m \<Longrightarrow> reads k = Inr (c k)" and idle: "\<And>k. m \<le> k \<Longrightarrow> reads k = Inr []"
    and short: "bytes_read c m < unat content_length"
  shows "upload_loop reads content_length 0 0 p = None"
proof -
  have fits: "bytes_read c m < 2 ^ 64"
  proof -
    have "unat content_length < 2 ^ LENGTH(64)" by (rule unsigned_less)
    with short show ?thesis by simp
  qed
  have mono: "k < m \<Longrightarrow> bytes_read c k \<le> bytes_read c m" for k
    unfolding bytes_read_def by (intro sum_mono2) auto
  have "upload_loop reads content_length 0 (of_nat (bytes_read c 0)) p =
    upload_loop reads content_length m (of_nat (bytes_read c m)) (foldl part_write p (map c [0..<m]))"
  proof (rule upload_loop_run)
    show "bytes_read c k < unat content_length" if "0 \<le> k" "k < m" for k
      using mono [OF that(2)] short by simp
  qed (use chunks fits in auto)
  then have run: "upload_loop reads content_length 0 0 p =
    upload_loop reads content_length m (of_nat (bytes_read c m)) (foldl part_write p (map c [0..<m]))"
    by (simp add: bytes_read_def)
  have less: "of_nat (bytes_read c m) < content_length"
    using short unat_of_nat64 [OF fits] by (simp add: word_less_nat_alt)
  show ?thesis
  proof (cases "upload_loop reads content_length 0 0 p")
    case (Some res)
    from upload_loop_idle [OF Some [unfolded run] less] idle show ?thesis by blast
  qed
qed

section \<open>Lines of uuids\<close>

lemma split_at_char_no: "c \<notin> set s \<Longrightarrow> split_at_char c s = [s]"
  by (induction s) auto

lemma split_at_char_append: "c \<notin> set s \<Longrightarrow> split_at_char c (s @ c # t) = s # split_at_char c t"
  by (induction s) auto

lemma split_join:
  "\<forall>s \<in> set ss. c \<notin> set s \<Longrightarrow> ss \<noteq> [] \<Longrightarrow> split_at_char c (join_with [c] ss) = ss"
  by (induction ss rule: join_with.induct [of "\<lambda>_ ss. _ ss" "[c]"])
     (auto simp: split_at_char_no split_at_char_append)

lemma strip_no_space: "\<forall>c \<in> set s. \<not> is_space c \<Longrightarrow> strip s = s"
proof -
  assume none: "\<forall>c \<in> set s. \<not> is_space c"
  have "dropWhile is_space t = t" if "\<forall>c \<in> set t. \<not> is_space c" for t
    using that by (cases t) auto
  from this [of s] this [of "rev s"] none show ?thesis by (simp add: strip_def)
qed

lemma base_libs_simps [simp]:
  "uuid_text (base_libs H) = uuid_text H" "ext_trim (base_libs H) = ext_trim H"
  "hex_sha256 (base_libs H) = hex_sha256 H" "magic_file (base_libs H) = magic_file H"
  "fetch_row (base_libs H) = fetch_row H"
  by (simp_all add: base_libs_def libs.truncate_def)

lemma parse_lines_join:
  assumes lns: "lines_law H" and read: "uuid_read_law H" and trim: "trim_law (base_libs H)"
    and tx: "uuid_law (base_libs H)"
  shows "parse_lines H (join H (map (uuid_text H) ids) [newline]) = Inr ids"
proof -
  let ?ts = "map (uuid_text H) ids"
  have nosp: "\<forall>c \<in> set (uuid_text H u). \<not> is_space c" for u using read by (simp add: uuid_read_law_def)
  have "is_space newline" by (simp add: is_space_def newline_def)
  then have nl: "\<forall>s \<in> set ?ts. newline \<notin> set s" using nosp by auto
  have ne: "uuid_text H u \<noteq> []" for u
  proof -
    have "length (uuid_text H u) = 36" using tx by (simp add: uuid_law_def)
    then show ?thesis by auto
  qed
  have st: "ext_trim H (uuid_text H u) = uuid_text H u" for u
    using trim strip_no_space [OF nosp] by (simp add: trim_law_def)
  have pieces: "string_range H (join H ?ts [newline]) [newline] = (if ids = [] then [[]] else ?ts)"
    using lns split_join [OF nl] by (auto simp: lines_law_def)
  have empty: "ext_trim H [] = []" using trim by (simp add: trim_law_def strip_def)
  have "filter (\<lambda>t. t \<noteq> []) (map (ext_trim H) (string_range H (join H ?ts [newline]) [newline])) = ?ts"
    unfolding pieces by (auto simp: empty st ne comp_def)
  moreover have "traverse (parse_uuid H) ?ts = Inr ids"
    using read by (induction ids) (simp_all add: uuid_read_law_def)
  ultimately show ?thesis by (simp add: parse_lines_def)
qed

text \<open>Every request of the HTTP client is routed to the operation it is built for, with its ids.\<close>

lemma http_requests_routed:
  assumes law: "uuid_law (base_libs H)" "trim_law (base_libs H)" "uuid_read_law H" "lines_law H"
  shows "http_serve H fs info g now (request_add_object H b n reads) w =
      Some (map_option (returning Json_object) (http_add_object (base_libs H) fs g now b n reads w)) \<and>
    http_serve H fs info g now (request_fetch_bucket name) w =
      Some (Some (returning Json_bucket (store_fetch_bucket (base_libs H) name w))) \<and>
    http_serve H fs info g now (request_get_object H b x) w =
      Some (Some (returning (\<lambda>(m, fd). Http_file fd (o_size m) (mime_type m))
        (get_object (base_libs H) fs b x w))) \<and>
    http_serve H fs info g now (request_get_object_metadata H b x) w =
      Some (Some (returning Json_object (get_object_metadata (base_libs H) b x w))) \<and>
    http_serve H fs info g now request_get_server_info w = Some (Some (Inr (Json_info info), w)) \<and>
    http_serve H fs info g now (request_remove_object H b x) w =
      Some (Some (returning Json_object (store_remove_object (base_libs H) b x w))) \<and>
    http_serve H fs info g now (request_remove_objects H b xs) w =
      Some (Some (returning Json_result (store_remove_objects (base_libs H) b xs w)))"
proof -
  have read: "parse_uuid H (uuid_text H u) = Inr u" for u using law(3) by (simp add: uuid_read_law_def)
  show ?thesis
    using parse_lines_join [OF law(4,3,2,1), of xs]
    by (simp add: http_serve_def request_add_object_def request_fetch_bucket_def request_get_object_def
        request_get_object_metadata_def request_get_server_info_def request_remove_object_def
        request_remove_objects_def with_ids_def read http_remove_objects_def)
qed

end
