(* ===== verification/Catalogue.thy ===== *)
theory Catalogue
  imports Data_Changes
begin

text \<open>
  What the database promises, without its tables: buckets have names, objects have descriptions, a
  bucket lists objects, and an object may have an error.  Each function of the schema that changes
  something does to the tables what its specification here does to these maps.
\<close>

section \<open>Catalogues\<close>

record catalogue =
  cg_buckets :: "uuid \<rightharpoonup> string \<times> time_point"
  cg_objects :: "uuid \<rightharpoonup> object_row"
  cg_listed :: "uuid \<times> uuid \<rightharpoonup> time_point"
  cg_errors :: "uuid \<rightharpoonup> string"

definition abstract :: "database \<Rightarrow> catalogue" where
  "abstract db =
     \<lparr>cg_buckets = (\<lambda>b. map_option (\<lambda>r. (bk_name r, bk_created r)) (row_map bk_id (tb_bucket db) b)),
      cg_objects = row_map ob_id (tb_object db),
      cg_listed = (\<lambda>k. map_option ln_added (row_map link_key (tb_bucket_object db) k)),
      cg_errors = message db\<rparr>"

definition named :: "string \<Rightarrow> catalogue \<Rightarrow> uuid set" where
  "named n C = {b. \<exists>t. cg_buckets C b = Some (n, t)}"

definition known :: "string \<Rightarrow> catalogue \<Rightarrow> uuid set" where
  "known h C = {x. \<exists>r. cg_objects C x = Some r \<and> ob_hash r = h}"

definition spec_create :: "uuid \<Rightarrow> time_point \<Rightarrow> string \<Rightarrow> catalogue \<Rightarrow> sqlstate + catalogue" where
  "spec_create i now n C =
     (if i \<in> dom (cg_buckets C) \<or> named n C \<noteq> {} then Inl Unique_violation
      else Inr (C\<lparr>cg_buckets := (cg_buckets C)(i \<mapsto> (n, now))\<rparr>))"

definition spec_rename :: "uuid \<Rightarrow> string \<Rightarrow> catalogue \<Rightarrow> sqlstate + catalogue" where
  "spec_rename b n C =
     (case cg_buckets C b of
        None \<Rightarrow> Inr C
      | Some (_, t) \<Rightarrow> if named n C - {b} \<noteq> {} then Inl Unique_violation
          else Inr (C\<lparr>cg_buckets := (cg_buckets C)(b \<mapsto> (n, t))\<rparr>))"

definition spec_remove_bucket :: "uuid \<Rightarrow> catalogue \<Rightarrow> catalogue" where
  "spec_remove_bucket b C = C\<lparr>cg_buckets := (cg_buckets C)(b := None),
     cg_listed := cg_listed C |` {k. fst k \<noteq> b}\<rparr>"

definition spec_unlist :: "uuid \<Rightarrow> uuid set \<Rightarrow> catalogue \<Rightarrow> catalogue" where
  "spec_unlist b X C = C\<lparr>cg_listed := cg_listed C |` {k. \<not> (fst k = b \<and> snd k \<in> X)}\<rparr>"

definition spec_prune :: "catalogue \<Rightarrow> catalogue" where
  "spec_prune C = (let used = snd ` dom (cg_listed C)
     in C\<lparr>cg_objects := cg_objects C |` used, cg_errors := cg_errors C |` used\<rparr>)"

definition spec_add :: "uuid \<Rightarrow> object_row \<Rightarrow> time_point \<Rightarrow> catalogue \<Rightarrow> sqlstate + catalogue" where
  "spec_add b r now C =
     (let same = known (ob_hash r) C; x = (if same = {} then ob_id r else the_elem same)
      in if same = {} \<and> ob_id r \<in> dom (cg_objects C) then Inl Not_null_violation
         else if b \<notin> dom (cg_buckets C) then Inl Foreign_key_violation
         else Inr (C\<lparr>cg_objects := (if same = {} then (cg_objects C)(ob_id r \<mapsto> r) else cg_objects C),
           cg_listed := (cg_listed C)((b, x) \<mapsto> (case cg_listed C (b, x) of Some t \<Rightarrow> t | None \<Rightarrow> now))\<rparr>))"

definition spec_report :: "object_error list \<Rightarrow> catalogue \<Rightarrow> sqlstate + catalogue" where
  "spec_report es C =
     (if \<exists>e \<in> set es. oe_message e \<noteq> [] \<and> oe_id e \<notin> dom (cg_objects C) then Inl Foreign_key_violation
      else Inr (C\<lparr>cg_errors := apply_records es (cg_errors C)\<rparr>))"

section \<open>The tables read as maps\<close>

lemma row_map_dom: "dom (row_map key rows) = key ` set rows"
  using row_map_None_iff [of key rows] by (auto simp: dom_def)

lemma row_map_map:
  "(\<And>r. key (f r) = key r) \<Longrightarrow> row_map key (map f rows) k = map_option f (row_map key rows k)"
  by (induction rows) auto

lemma abstract_buckets:
  "cg_buckets (abstract db) b = map_option (\<lambda>r. (bk_name r, bk_created r)) (row_map bk_id (tb_bucket db) b)"
  "dom (cg_buckets (abstract db)) = bk_id ` set (tb_bucket db)"
  using row_map_dom [of bk_id "tb_bucket db"] by (auto simp: abstract_def dom_def)

lemma abstract_objects:
  "cg_objects (abstract db) = row_map ob_id (tb_object db)"
  "dom (cg_objects (abstract db)) = ob_id ` set (tb_object db)"
  by (simp_all add: abstract_def row_map_dom)

lemma abstract_listed:
  "cg_listed (abstract db) k = map_option ln_added (row_map link_key (tb_bucket_object db) k)"
  "dom (cg_listed (abstract db)) = link_key ` set (tb_bucket_object db)"
  using row_map_dom [of link_key "tb_bucket_object db"] by (auto simp: abstract_def dom_def)

lemma named_abstract:
  assumes "db_inv db"
  shows "named n (abstract db) = bk_id ` {r \<in> set (tb_bucket db). bk_name r = n}"
  using row_map_Some_iff [OF db_invD(1) [OF assms]] by (auto simp: named_def abstract_buckets)

lemma known_abstract:
  assumes "db_inv db"
  shows "known h (abstract db) = ob_id ` {r \<in> set (tb_object db). ob_hash r = h}"
  using row_map_Some_iff [OF db_invD(3) [OF assms]] by (auto simp: known_def abstract_objects)

section \<open>The operations\<close>

lemma abstract_eqI:
  assumes "\<And>b. cg_buckets (abstract db) b = cg_buckets C b" "\<And>x. cg_objects (abstract db) x = cg_objects C x"
    "\<And>k. cg_listed (abstract db) k = cg_listed C k" "\<And>x. cg_errors (abstract db) x = cg_errors C x"
  shows "abstract db = C"
  using assms by (intro catalogue.equality ext) simp_all

lemma abstract_simps [simp]:
  "cg_objects (abstract (db\<lparr>tb_bucket := bs\<rparr>)) = cg_objects (abstract db)"
  "cg_listed (abstract (db\<lparr>tb_bucket := bs\<rparr>)) = cg_listed (abstract db)"
  "cg_errors (abstract (db\<lparr>tb_bucket := bs\<rparr>)) = cg_errors (abstract db)"
  by (simp_all add: abstract_def message_def fun_eq_iff)

lemma refine_create:
  assumes inv: "db_inv db"
  shows "map_sum id (abstract \<circ> snd) (sql_create_bucket i now n db) = spec_create i now n (abstract db)"
proof -
  have taken: "i \<in> dom (cg_buckets (abstract db)) \<or> named n (abstract db) \<noteq> {} \<longleftrightarrow>
      i \<in> bk_id ` set (tb_bucket db) \<or> n \<in> bk_name ` set (tb_bucket db)"
    by (auto simp: abstract_buckets(2) named_abstract [OF inv])
  show ?thesis
  proof (cases "sql_create_bucket i now n db")
    case (Inl e)
    then show ?thesis
      using sql_create_bucket_Inl_iff [OF inv, of i now n e] taken by (simp only: spec_create_def) simp
  next
    case (Inr p)
    obtain rows db' where p: "p = (rows, db')" by fastforce
    note C = sql_create_bucket_Inr [OF inv Inr [unfolded p]]
    let ?r = "\<lparr>bk_id = i, bk_name = n, bk_created = now\<rparr>"
    have "abstract db' = (abstract db)\<lparr>cg_buckets := (cg_buckets (abstract db))(i \<mapsto> (n, now))\<rparr>"
      using row_map_append_new [of bk_id ?r "tb_bucket db"] C(2,3)
      by (intro abstract_eqI) (simp_all add: abstract_buckets(1))
    then show ?thesis using C(3,4) taken by (simp add: Inr p spec_create_def)
  qed
qed

lemma refine_rename:
  assumes inv: "db_inv db"
  shows "map_sum id abstract (sql_rename_bucket b n db) = spec_rename b n (abstract db)"
proof (cases "row_map bk_id (tb_bucket db) b")
  case None
  then have b: "b \<notin> bk_id ` set (tb_bucket db)" by (simp add: row_map_None_iff)
  then have "map (rename_row b n) (tb_bucket db) = tb_bucket db"
    by (intro map_idI) (auto simp: rename_row_def)
  then show ?thesis
    using None b by (simp add: sql_rename_bucket_def update_bucket_name_def spec_rename_def abstract_buckets(1))
next
  case (Some r)
  then have b: "r \<in> set (tb_bucket db)" "bk_id r = b" by (auto dest: row_map_SomeD)
  have taken: "named n (abstract db) - {b} \<noteq> {} \<longleftrightarrow> (\<exists>c \<in> set (tb_bucket db). bk_id c \<noteq> b \<and> bk_name c = n)"
    unfolding named_abstract [OF inv] by blast
  have "row_map bk_id (map (rename_row b n) (tb_bucket db)) c =
      (if c = b then Some (rename_row b n r) else row_map bk_id (tb_bucket db) c)" for c
  proof (cases "row_map bk_id (tb_bucket db) c")
    case (Some q)
    then have "bk_id q = c" by (auto dest: row_map_SomeD)
    with Some \<open>row_map bk_id (tb_bucket db) b = Some r\<close> show ?thesis
      by (cases "c = b") (simp_all add: row_map_map rename_row_def)
  qed (use Some in \<open>auto simp: row_map_map\<close>)
  then have "abstract (db\<lparr>tb_bucket := map (rename_row b n) (tb_bucket db)\<rparr>) =
      (abstract db)\<lparr>cg_buckets := (cg_buckets (abstract db))(b \<mapsto> (n, bk_created r))\<rparr>"
    using b by (intro abstract_eqI) (simp_all add: abstract_buckets(1))
  then show ?thesis
    using Some b taken by (simp add: sql_rename_bucket_def update_bucket_name_def spec_rename_def abstract_buckets(1) rev_image_eqI)
qed

lemma refine_links:
  "abstract (delete_links (\<lambda>l. ln_bucket l = b \<and> ln_object l \<in> X) db) = spec_unlist b X (abstract db)"
  using row_map_filter_key [of link_key "\<lambda>k. \<not> (fst k = b \<and> snd k \<in> X)" "tb_bucket_object db"]
  by (intro abstract_eqI)
     (simp_all add: abstract_def delete_links_def spec_unlist_def message_def restrict_map_def)

lemma remove_bucket_links:
  assumes "db_inv db"
  shows "tb_bucket_object (sql_remove_bucket b db) = filter (\<lambda>l. ln_bucket l \<noteq> b) (tb_bucket_object db)"
proof -
  have "ln_bucket l \<in> bk_id ` {r \<in> set (tb_bucket db). bk_id r = b} \<longleftrightarrow> ln_bucket l = b"
    if "l \<in> set (tb_bucket_object db)" for l
    using db_inv_link_bucket [OF assms that] by auto
  then show ?thesis
    by (auto simp: sql_remove_bucket_def delete_buckets_def Let_def intro!: filter_cong)
qed

lemma refine_remove_bucket:
  assumes "db_inv db" shows "abstract (sql_remove_bucket b db) = spec_remove_bucket b (abstract db)"
  using row_map_filter_key [of link_key "\<lambda>k. fst k \<noteq> b" "tb_bucket_object db"]
    row_map_filter_key [of bk_id "\<lambda>k. k \<noteq> b" "tb_bucket db"] remove_bucket_links [OF assms, of b]
  by (intro abstract_eqI)
     (simp_all add: abstract_def spec_remove_bucket_def message_def restrict_map_def)

lemma refine_prune:
  assumes "db_inv db"
  shows "abstract (snd (sql_remove_orphan_objects db)) = spec_prune (abstract db)"
proof -
  let ?db' = "snd (sql_remove_orphan_objects db)"
  have used: "snd ` dom (cg_listed (abstract db)) = referenced db"
    by (simp add: abstract_listed(2) referenced_def image_image)
  have errs: "tb_object_error ?db' = filter (\<lambda>e. er_object e \<in> referenced db) (tb_object_error db)"
  proof -
    have "er_object e \<in> ob_id ` {r \<in> set (tb_object db). ob_id r \<notin> referenced db} \<longleftrightarrow> er_object e \<notin> referenced db"
      if mem: "e \<in> set (tb_object_error db)" for e
    proof -
      obtain r where "r \<in> set (tb_object db)" "ob_id r = er_object e"
        using db_inv_error_object [OF assms mem] by blast
      then show ?thesis by (auto simp: image_iff)
    qed
    then show ?thesis
      by (auto simp: sql_remove_orphan_objects_def Let_def reference_count_zero_iff delete_objects_def referenced_def
          intro!: filter_cong)
  qed
  show ?thesis
    using row_map_filter_key [of ob_id "\<lambda>k. k \<in> referenced db" "tb_object db"]
      row_map_filter_key [of er_object "\<lambda>k. k \<in> referenced db" "tb_object_error db"]
    by (intro abstract_eqI)
       (simp_all add: used spec_prune_def Let_def restrict_map_def,
        simp_all add: abstract_def sql_prune_eq sql_prune_links errs message_def restrict_map_def)
qed

lemma refine_report:
  assumes "distinct (map oe_id es)"
  shows "map_sum id abstract (sql_update_object_errors es db) = spec_report es (abstract db)"
proof (cases "sql_update_object_errors es db")
  case (Inl e)
  then show ?thesis
    using update_errors_Inl_iff [OF assms, of db e] by (auto simp: spec_report_def abstract_objects(2))
next
  case (Inr db')
  then have ok: "\<not> (\<exists>e \<in> set es. oe_message e \<noteq> [] \<and> oe_id e \<notin> ob_id ` set (tb_object db))"
    using update_errors_Inl_iff [OF assms, of db Foreign_key_violation] by simp
  have "abstract db' = (abstract db)\<lparr>cg_errors := apply_records es (cg_errors (abstract db))\<rparr>"
    using update_errors_frame [OF Inr] update_errors_message [OF assms Inr]
    by (intro abstract_eqI) (simp_all add: abstract_def)
  then show ?thesis using ok Inr by (auto simp: spec_report_def abstract_objects(2))
qed

lemma refine_link:
  assumes inv: "db_inv db" and x: "x \<in> ob_id ` set (tb_object db)"
  shows "map_sum id abstract (insert_link b (Some x) now db) =
    (let C = abstract db in if b \<notin> dom (cg_buckets C) then Inl Foreign_key_violation
     else Inr (C\<lparr>cg_listed := (cg_listed C)((b, x) \<mapsto> (case cg_listed C (b, x) of Some t \<Rightarrow> t | None \<Rightarrow> now))\<rparr>))"
proof (cases "row_map link_key (tb_bucket_object db) (b, x)")
  case None
  let ?l = "\<lparr>ln_bucket = b, ln_object = x, ln_added = now\<rparr>"
  have new: "(b, x) \<notin> link_key ` set (tb_bucket_object db)" using None by (simp add: row_map_None_iff)
  have "abstract (db\<lparr>tb_bucket_object := tb_bucket_object db @ [?l]\<rparr>) =
      (abstract db)\<lparr>cg_listed := (cg_listed (abstract db))((b, x) \<mapsto> now)\<rparr>"
    using row_map_append_new [of link_key ?l "tb_bucket_object db"] new
    by (intro abstract_eqI) (simp_all add: abstract_def message_def)
  moreover have "insert_link b (Some x) now db = (if b \<notin> bk_id ` set (tb_bucket db) then Inl Foreign_key_violation
      else Inr (db\<lparr>tb_bucket_object := tb_bucket_object db @ [?l]\<rparr>))"
    unfolding insert_link_def using new x by (simp only: option.case if_False simp_thms not_not)
  moreover have "cg_listed (abstract db) (b, x) = None" by (simp add: abstract_listed(1) None)
  ultimately show ?thesis by (simp only: abstract_buckets(2) Let_def option.case map_sum.simps id_apply split: if_split) blast
next
  case (Some l)
  then have l: "l \<in> set (tb_bucket_object db)" "link_key l = (b, x)" by (auto dest: row_map_SomeD)
  have old: "(b, x) \<in> link_key ` set (tb_bucket_object db)" using imageI [OF l(1), of link_key] unfolding l(2) .
  have "b \<in> bk_id ` set (tb_bucket db)" using db_inv_link_bucket [OF inv l(1)] l(2) by (auto simp: image_iff)
  moreover have "cg_listed (abstract db) (b, x) = Some (ln_added l)" using Some by (simp add: abstract_listed(1))
  moreover have "insert_link b (Some x) now db = Inr db"
    unfolding insert_link_def using old by (simp only: option.case if_True)
  ultimately show ?thesis
    by (simp only: abstract_buckets(2) Let_def option.case map_sum.simps simp_thms if_False not_True_eq_False) (simp add: fun_upd_idem)
qed

lemma add_link: 
  assumes "sql_create_object i h sz ty sub now db = (obj, db1)"
  shows "map_sum id (abstract \<circ> snd) (sql_add_object b i h sz ty sub now db) =
    map_sum id abstract (insert_link b obj now db1)"
  using assms by (cases "insert_link b obj now db1") (simp_all add: sql_add_object_def)

lemma refine_add:
  fixes i :: uuid and h ty sub :: string and sz :: int64 and now :: time_point
  assumes inv: "db_inv db"
  defines "r \<equiv> \<lparr>ob_id = i, ob_hash = h, ob_size = sz, ob_type = ty, ob_subtype = sub, ob_added = now\<rparr>"
  assumes sz: "is_int64 sz"
  shows "map_sum id (abstract \<circ> snd) (sql_add_object b i h sz ty sub now db) = spec_add b r now (abstract db)"
  using inv
proof (cases rule: create_object_cases [where h = h and i = i and sz = sz and ty = ty
      and sub = sub and now = now])
  case (known q)
  have "known h (abstract db) = {ob_id q}"
    using known(1,2) db_invD(4) [OF inv] by (auto simp: known_abstract [OF inv] distinct_map dest: inj_onD)
  then show ?thesis
    using refine_link [OF inv, of "ob_id q" b now] known(1)
    by (simp add: add_link [OF known(3)] spec_add_def r_def Let_def)
next
  case new
  let ?db1 = "db\<lparr>tb_object := tb_object db @ [r]\<rparr>"
  have none: "known h (abstract db) = {}" using new(1) by (auto simp: known_abstract [OF inv])
  have inv1: "db_inv ?db1" using create_object_inv [OF inv sz, of i h ty sub now] new(3) by (simp add: r_def)
  have obj: "abstract ?db1 = (abstract db)\<lparr>cg_objects := (cg_objects (abstract db))(i \<mapsto> r)\<rparr>"
    using row_map_append_new [of ob_id r "tb_object db"] new(2)
    by (intro abstract_eqI) (simp_all add: abstract_def message_def r_def)
  have "i \<notin> dom (cg_objects (abstract db))" using new(2) by (simp add: abstract_objects(2))
  then show ?thesis
    using refine_link [OF inv1, of i b now] none
    by (simp add: add_link [OF new(3)] r_def [symmetric] obj spec_add_def Let_def)
       (simp add: r_def)
next
  case clash
  have "known h (abstract db) = {}" using clash(1) by (auto simp: known_abstract [OF inv])
  then show ?thesis
    using clash(2) by (simp add: add_link [OF clash(3)] insert_link_def spec_add_def Let_def r_def abstract_objects(2))
qed

end
