(* ===== verification/Store_Spec.thy ===== *)
theory Store_Spec
  imports Store_Behaviour Catalogue Transitions "HOL-Library.Multiset"
begin

text \<open>
  What the store promises, without its tables and its files: a \<open>shelf\<close> is the catalogue, the content of each
  object and the uploads not committed yet.  \<open>spec\<close> answers every request of the object store on a shelf;
  \<open>serve\<close> is the operation of the program.  The lemmas \<open>serves_*\<close> show, request by request, that the
  program answers as its specification does and leaves the world whose shelf the specification leaves;
  the locale \<open>refinement\<close> carries this over to any sequence of requests.
\<close>

section \<open>Shelves\<close>

record shelf =
  sf_catalogue :: catalogue
  sf_content :: "uuid \<rightharpoonup> blob"
  sf_parts :: "uuid \<rightharpoonup> blob"

definition shelf_of :: "libs \<Rightarrow> filesystem \<Rightarrow> world \<Rightarrow> shelf" where
  "shelf_of L fs w = \<lparr>sf_catalogue = abstract (w_db w), sf_content = stored L fs (w_disk w),
     sf_parts = staged L fs (w_disk w)\<rparr>"

definition empty_shelf :: shelf where
  "empty_shelf = \<lparr>sf_catalogue = \<lparr>cg_buckets = Map.empty, cg_objects = Map.empty, cg_listed = Map.empty,
     cg_errors = Map.empty\<rparr>, sf_content = Map.empty, sf_parts = Map.empty\<rparr>"

text \<open>Requests and answers.  Answers whose order the program does not fix are multisets.\<close>

datatype request =
    Ask_upload uuid "uuid option" "blob list"
  | Ask_commit time_point uuid uuid
  | Ask_create uuid time_point string
  | Ask_rename uuid string
  | Ask_remove_bucket uuid
  | Ask_remove uuid uuid
  | Ask_remove_list uuid "uuid list"
  | Ask_prune
  | Ask_object uuid uuid
  | Ask_metadata uuid uuid
  | Ask_bucket string
  | Ask_buckets "string list"
  | Ask_all_buckets
  | Ask_totals
  | Ask_errors

datatype answer =
    Refused error
  | Accepted
  | Gives_part uuid
  | Gives_bucket bucket
  | Gives_buckets "bucket list"
  | Gives_all "bucket multiset"
  | Gives_object object
  | Gives_file object blob
  | Gives_pruned "object multiset"
  | Gives_removed remove_result
  | Gives_totals store_totals
  | Gives_errors "object_error multiset"

section \<open>The program\<close>

definition answered :: "('a \<Rightarrow> answer) \<Rightarrow> (error, 'a, world) outcome \<Rightarrow> answer \<times> world" where
  "answered f r = (case r of (Inl e, w) \<Rightarrow> (Refused e, w) | (Inr x, w) \<Rightarrow> (f x, w))"

definition report :: "('a \<Rightarrow> answer) \<Rightarrow> error + 'a \<Rightarrow> answer" where
  "report f r = (case r of Inl e \<Rightarrow> Refused e | Inr x \<Rightarrow> f x)"

lemma report_simps [simp]: "report f (Inl e) = Refused e" "report f (Inr x) = f x"
  by (simp_all add: report_def)

lemma answered_report [simp]: "answered f (r, w) = (report f r, w)"
  by (cases r) (simp_all add: answered_def)

fun serve :: "libs \<Rightarrow> filesystem \<Rightarrow> request \<Rightarrow> world \<Rightarrow> answer \<times> world" where
  "serve L fs (Ask_upload g i cs) w = apfst Gives_part (upload_part L fs g i cs w)"
| "serve L fs (Ask_commit now b i) w = answered Gives_object (commit_part L fs now b i w)"
| "serve L fs (Ask_create i now n) w = answered Gives_bucket (store_create_bucket L i now n w)"
| "serve L fs (Ask_rename b n) w = answered (\<lambda>_. Accepted) (store_rename_bucket L b n w)"
| "serve L fs (Ask_remove_bucket b) w = answered (\<lambda>_. Accepted) (store_remove_bucket b w)"
| "serve L fs (Ask_remove b x) w = answered Gives_object (store_remove_object L b x w)"
| "serve L fs (Ask_remove_list b xs) w = answered Gives_removed (store_remove_objects L b xs w)"
| "serve L fs Ask_prune w = answered (Gives_pruned \<circ> mset) (prune L fs w)"
| "serve L fs (Ask_object b x) w = answered (\<lambda>(m, c). Gives_file m c) (get_object L fs b x w)"
| "serve L fs (Ask_metadata b x) w = answered Gives_object (get_object_metadata L b x w)"
| "serve L fs (Ask_bucket n) w = answered Gives_bucket (store_fetch_bucket L n w)"
| "serve L fs (Ask_buckets ns) w = answered Gives_buckets (store_fetch_buckets ns w)"
| "serve L fs Ask_all_buckets w = answered (Gives_all \<circ> mset) (store_fetch_buckets_all w)"
| "serve L fs Ask_totals w = answered Gives_totals (store_fetch_totals L w)"
| "serve L fs Ask_errors w = answered (Gives_errors \<circ> mset) (store_get_errors w)"

section \<open>The specification\<close>

text \<open>Object \<open>x\<close> as bucket \<open>b\<close> lists it, the contents of a bucket, and the recorded size of a set of objects.\<close>

definition described :: "object_row \<Rightarrow> time_point \<Rightarrow> object" where
  "described r t = \<lparr>o_id = ob_id r, o_hash = ob_hash r, o_size = word_of_int (ob_size r), o_type = ob_type r,
     o_subtype = ob_subtype r, o_date_added = t\<rparr>"

definition listing :: "catalogue \<Rightarrow> uuid \<Rightarrow> uuid \<Rightarrow> object option" where
  "listing C b x = map_option (described (the (cg_objects C x))) (cg_listed C (b, x))"

definition listed_in :: "catalogue \<Rightarrow> uuid \<Rightarrow> uuid set" where
  "listed_in C b = {x. (b, x) \<in> dom (cg_listed C)}"

definition space :: "catalogue \<Rightarrow> uuid set \<Rightarrow> int" where
  "space C X = (\<Sum>x \<in> X. ob_size (the (cg_objects C x)))"

text \<open>A count and a size, when both fit in a \<open>bigint\<close>.\<close>

definition measured :: "catalogue \<Rightarrow> uuid set \<Rightarrow> (uint64 \<Rightarrow> uint64 \<Rightarrow> 'a) \<Rightarrow> error + 'a" where
  "measured C X f = (if is_int64 (int (card X)) \<and> is_int64 (space C X)
     then Inr (f (of_nat (card X)) (word_of_int (space C X)))
     else Inl (Sql_error Numeric_value_out_of_range))"

definition spec_bucket :: "catalogue \<Rightarrow> uuid \<Rightarrow> error + bucket" where
  "spec_bucket C b = (case the (cg_buckets C b) of (n, t) \<Rightarrow>
     measured C (listed_in C b) (\<lambda>k s. \<lparr>b_id = b, b_name = n, b_date_created = t, b_size = k, b_space_used = s\<rparr>))"

definition find_bucket :: "catalogue \<Rightarrow> string \<Rightarrow> uuid option" where
  "find_bucket C n = (if named n C = {} then None else Some (the_elem (named n C)))"

definition proper_name :: "string \<Rightarrow> error + string" where
  "proper_name s = (if \<forall>c \<in> set s. is_space c then Inl (Invalid_data ''bucket name cannot be empty'')
     else Inr (strip s))"

definition spec_commit :: "libs \<Rightarrow> time_point \<Rightarrow> uuid \<Rightarrow> uuid \<Rightarrow> shelf \<Rightarrow> answer \<times> shelf" where
  "spec_commit L now b i S =
     (case sf_parts S i of
        None \<Rightarrow> (Refused (File_error No_such_file), S)
      | Some c \<Rightarrow> (case split_mime (magic_file L c) of
          Inl e \<Rightarrow> (Refused e, S)
        | Inr m \<Rightarrow>
           let h = sha256sum L c; same = known h (sf_catalogue S); x = (if same = {} then i else the_elem same)
           in case spec_add b \<lparr>ob_id = i, ob_hash = h, ob_size = recorded_size c, ob_type = m_type m,
                ob_subtype = m_subtype m, ob_added = now\<rparr> now (sf_catalogue S) of
                Inl e \<Rightarrow> (Refused (Sql_error e), S)
              | Inr C \<Rightarrow> (Gives_object (the (listing C b x)),
                  \<lparr>sf_catalogue = C, sf_content = (if x = i then (sf_content S)(i \<mapsto> c) else sf_content S),
                   sf_parts = (sf_parts S)(i := None)\<rparr>)))"

definition spec_unused :: "catalogue \<Rightarrow> uuid set" where
  "spec_unused C = dom (cg_objects C) - snd ` dom (cg_listed C)"

fun spec :: "libs \<Rightarrow> request \<Rightarrow> shelf \<Rightarrow> answer \<times> shelf" where
  "spec L (Ask_upload g i cs) S =
     (let x = (case i of Some u \<Rightarrow> u | None \<Rightarrow> g); old = (case sf_parts S x of Some c \<Rightarrow> c | None \<Rightarrow> [])
      in (Gives_part x, S\<lparr>sf_parts := (sf_parts S)(x \<mapsto> old @ concat cs)\<rparr>))"
| "spec L (Ask_commit now b i) S = spec_commit L now b i S"
| "spec L (Ask_create i now s) S = (case proper_name s of Inl e \<Rightarrow> (Refused e, S) | Inr n \<Rightarrow>
     (case spec_create i now n (sf_catalogue S) of
        Inl e \<Rightarrow> (Refused (Unique_bucket_violation n), S)
      | Inr C \<Rightarrow> (Gives_bucket (fresh_bucket i n now), S\<lparr>sf_catalogue := C\<rparr>)))"
| "spec L (Ask_rename b s) S = (case proper_name s of Inl e \<Rightarrow> (Refused e, S) | Inr n \<Rightarrow>
     (case spec_rename b n (sf_catalogue S) of
        Inl e \<Rightarrow> (Refused (Unique_bucket_violation n), S)
      | Inr C \<Rightarrow> (Accepted, S\<lparr>sf_catalogue := C\<rparr>)))"
| "spec L (Ask_remove_bucket b) S = (Accepted, S\<lparr>sf_catalogue := spec_remove_bucket b (sf_catalogue S)\<rparr>)"
| "spec L (Ask_remove b x) S = (case listing (sf_catalogue S) b x of
     None \<Rightarrow> (Refused (object_not_found L b x), S)
   | Some obj \<Rightarrow> (Gives_object obj, S\<lparr>sf_catalogue := spec_unlist b {x} (sf_catalogue S)\<rparr>))"
| "spec L (Ask_remove_list b xs) S =
     (case measured (sf_catalogue S) (listed_in (sf_catalogue S) b \<inter> set xs)
        (\<lambda>n s. \<lparr>rr_objects_removed = n, rr_space_freed = s\<rparr>) of
        Inl e \<Rightarrow> (Refused e, S)
      | Inr res \<Rightarrow> (Gives_removed res, S\<lparr>sf_catalogue := spec_unlist b (set xs) (sf_catalogue S)\<rparr>))"
| "spec L Ask_prune S =
     (let C = sf_catalogue S
      in (Gives_pruned (image_mset (\<lambda>x. let r = the (cg_objects C x) in described r (ob_added r))
            (mset_set (spec_unused C))),
          S\<lparr>sf_catalogue := spec_prune C, sf_content := sf_content S |` (- spec_unused C)\<rparr>))"
| "spec L (Ask_object b x) S = (case listing (sf_catalogue S) b x of
     None \<Rightarrow> (Refused (object_not_found L b x), S) | Some obj \<Rightarrow> (Gives_file obj (the (sf_content S x)), S))"
| "spec L (Ask_metadata b x) S = (case listing (sf_catalogue S) b x of
     None \<Rightarrow> (Refused (object_not_found L b x), S) | Some obj \<Rightarrow> (Gives_object obj, S))"
| "spec L (Ask_bucket n) S = (case find_bucket (sf_catalogue S) n of
     None \<Rightarrow> (Refused (bucket_not_found n), S)
   | Some b \<Rightarrow> (report Gives_bucket (spec_bucket (sf_catalogue S) b), S))"
| "spec L (Ask_buckets ns) S = (report Gives_buckets (traverse (spec_bucket (sf_catalogue S))
     (concat (map (\<lambda>n. option_list (find_bucket (sf_catalogue S) n)) ns))), S)"
| "spec L Ask_all_buckets S =
     (let C = sf_catalogue S
      in (if \<exists>b \<in> dom (cg_buckets C). spec_bucket C b = Inl (Sql_error Numeric_value_out_of_range)
          then Refused (Sql_error Numeric_value_out_of_range)
          else Gives_all (image_mset (\<lambda>b. projr (spec_bucket C b)) (mset_set (dom (cg_buckets C)))), S))"
| "spec L Ask_totals S =
     (let C = sf_catalogue S; n = card (dom (cg_buckets C))
      in (if is_int64 (int n)
          then report Gives_totals (measured C (dom (cg_objects C))
            (\<lambda>k s. \<lparr>st_buckets = of_nat n, st_objects = k, st_space_used = s\<rparr>))
          else Refused (Sql_error Numeric_value_out_of_range), S))"
| "spec L Ask_errors S =
     (let C = sf_catalogue S
      in (Gives_errors (image_mset (\<lambda>x. \<lparr>oe_id = x, oe_message = the (cg_errors C x)\<rparr>)
            (mset_set (dom (cg_errors C)))), S))"

end
