(* ===== verification/Store_Refinement.thy ===== *)
theory Store_Refinement
  imports Store_Spec
begin

text \<open>
  The object store refines \<open>spec\<close>: one lemma per request, and the locale \<open>refinement\<close> for sequences of them.
\<close>

section \<open>Sequences of requests\<close>

fun run_requests :: "('q \<Rightarrow> 's \<Rightarrow> 'a \<times> 's) \<Rightarrow> 'q list \<Rightarrow> 's \<Rightarrow> 'a list \<times> 's" where
  "run_requests f [] s = ([], s)"
| "run_requests f (q # qs) s = (case f q s of (a, t) \<Rightarrow> case run_requests f qs t of (as, u) \<Rightarrow> (a # as, u))"

locale refinement =
  fixes inv :: "'s \<Rightarrow> bool"
    and alpha :: "'s \<Rightarrow> 't"
    and impl :: "'q \<Rightarrow> 's \<Rightarrow> 'a \<times> 's"
    and abstr :: "'q \<Rightarrow> 't \<Rightarrow> 'a \<times> 't"
  assumes keeps: "inv s \<Longrightarrow> inv (snd (impl q s))"
    and refines: "inv s \<Longrightarrow> apsnd alpha (impl q s) = abstr q (alpha s)"
begin

lemma run_refines: "inv s \<Longrightarrow> apsnd alpha (run_requests impl qs s) = run_requests abstr qs (alpha s)"
proof (induction qs arbitrary: s)
  case (Cons q qs)
  obtain a t where t: "impl q s = (a, t)" by fastforce
  have "abstr q (alpha s) = (a, alpha t)" using refines [OF Cons.prems, of q] t by simp
  moreover have "inv t" using keeps [OF Cons.prems, of q] t by simp
  ultimately show ?case
    using Cons.IH [of t] by (simp add: t split: prod.split) (metis apsnd_conv prod.collapse prod.inject)
qed simp

lemma run_keeps: "inv s \<Longrightarrow> inv (snd (run_requests impl qs s))"
proof (induction qs arbitrary: s)
  case (Cons q qs)
  obtain a t where t: "impl q s = (a, t)" by fastforce
  have "inv t" using keeps [OF Cons.prems, of q] t by simp
  with Cons.IH [of t] show ?case by (simp add: t split: prod.split) (metis snd_conv)
qed simp

text \<open>States of the same abstraction cannot be told apart by any sequence of requests.\<close>

lemma answers_agree: "inv s \<Longrightarrow> fst (run_requests impl qs s) = fst (run_requests abstr qs (alpha s))"
  using run_refines [of s qs] by (metis fst_apsnd)

lemma indistinguishable:
  "inv s \<Longrightarrow> inv t \<Longrightarrow> alpha s = alpha t \<Longrightarrow> fst (run_requests impl qs s) = fst (run_requests impl qs t)"
  by (simp only: answers_agree)

end

section \<open>Shelves of worlds\<close>

lemma shelf_of_simps [simp]:
  "sf_catalogue (shelf_of L fs w) = abstract (w_db w)" "sf_content (shelf_of L fs w) = stored L fs (w_disk w)"
  "sf_parts (shelf_of L fs w) = staged L fs (w_disk w)"
  by (simp_all add: shelf_of_def)

lemma shelf_of_db: "shelf_of L fs (w\<lparr>w_db := db\<rparr>) = (shelf_of L fs w)\<lparr>sf_catalogue := abstract db\<rparr>"
  by (simp add: shelf_of_def)

lemma proper_name_eq: "trim_law L \<Longrightarrow> process_bucket_name L s = proper_name s"
  by (simp add: process_bucket_name_eq proper_name_def)

lemma to_object_contents: "to_object (contents_row (l, r)) = described r (ln_added l)"
  by (simp add: to_object_def contents_row_def described_def)

lemma listing_abstract: "listing (abstract db) b x = map_option to_object (entry db b x)"
  by (simp add: listing_def entry_def abstract_listed(1) abstract_objects(1) object_of_def option.map_comp comp_def
      to_object_contents)

lemma listed_in_abstract: "listed_in (abstract db) b = members db b"
  by (auto simp: listed_in_def abstract_listed(2) members_def entry_None_iff)

lemma space_abstract: "space (abstract db) X = total_size db X"
  by (simp add: space_def total_size_def object_of_def abstract_objects(1))

lemma unlist_absent: "listing C b x = None \<Longrightarrow> spec_unlist b {x} C = C"
  by (cases C) (auto simp: spec_unlist_def listing_def restrict_map_def fun_eq_iff)

section \<open>Reading\<close>

text \<open>
  Requests that only concern the database: the files, and with them the other parts of the shelf, may be anything.
\<close>

definition with_db :: "shelf \<Rightarrow> database \<Rightarrow> shelf" where
  "with_db S db = S\<lparr>sf_catalogue := abstract db\<rparr>"

lemma with_db_simps [simp]:
  "sf_catalogue (with_db S db) = abstract db" "sf_content (with_db S db) = sf_content S"
  "sf_parts (with_db S db) = sf_parts S"
  by (simp_all add: with_db_def)

lemma serves_metadata:
  assumes law: "fetch_law L" and inv: "db_inv (w_db w)"
  shows "apsnd (\<lambda>v. with_db S (w_db v)) (serve L fs (Ask_metadata b x) w) = spec L (Ask_metadata b x) (with_db S (w_db w))"
  by (simp add: metadata_on [OF assms] listing_abstract split: option.split)

lemma serves_object:
  assumes "store_inv L fs w"
  shows "apsnd (shelf_of L fs) (serve L fs (Ask_object b x) w) = spec L (Ask_object b x) (shelf_of L fs w)"
  by (simp add: get_object_eq [OF assms] listing_abstract split: option.split)

lemma view_measured:
  assumes inv: "db_inv db" and r: "row_map bk_id (tb_bucket db) b = Some r"
  shows "(case bucket_view db r of Inl e \<Rightarrow> Inl (Sql_error e) | Inr v \<Rightarrow> Inr (to_bucket v)) = spec_bucket (abstract db) b"
proof -
  have "bk_id r = b" using row_map_SomeD [OF r] by simp
  then show ?thesis
    by (auto simp: bucket_view_eq [OF inv] Let_def spec_bucket_def measured_def abstract_buckets(1) r listed_in_abstract
        space_abstract to_bucket_def int8_def)
qed

lemma named_row:
  assumes inv: "db_inv db"
  shows "find_bucket (abstract db) n = map_option bk_id (row_map bk_name (tb_bucket db) n)"
proof (cases "row_map bk_name (tb_bucket db) n")
  case None
  then have "named n (abstract db) = {}" by (auto simp: named_abstract [OF inv] row_map_None_iff)
  with None show ?thesis by (simp add: find_bucket_def)
next
  case (Some r)
  moreover have "{q \<in> set (tb_bucket db). bk_name q = n} = {q. row_map bk_name (tb_bucket db) n = Some q}"
    by (simp add: row_map_Some_iff [OF db_invD(2) [OF inv]])
  ultimately have "{q \<in> set (tb_bucket db). bk_name q = n} = {r}" by auto
  then have "named n (abstract db) = {bk_id r}" by (simp add: named_abstract [OF inv])
  with Some show ?thesis by (simp add: find_bucket_def)
qed

lemma serves_bucket:
  assumes law: "fetch_law L" and inv: "db_inv (w_db w)"
  shows "apsnd (\<lambda>v. with_db S (w_db v)) (serve L fs (Ask_bucket n) w) = spec L (Ask_bucket n) (with_db S (w_db w))"
proof (cases "row_map bk_name (tb_bucket (w_db w)) n")
  case None
  then show ?thesis
    using law
    by (simp add: named_row [OF inv] store_fetch_bucket_def connection_fetch_bucket_def on_db_def
        reading_def step_simps prepared_provide sql_fetch_bucket_eq [OF inv])
next
  case (Some r)
  have r: "row_map bk_id (tb_bucket (w_db w)) (bk_id r) = Some r"
    using row_map_SomeD [OF Some] row_map_Some_iff [OF db_invD(1) [OF inv]] by blast
  show ?thesis
    using law
    by (cases "bucket_view (w_db w) r")
       (simp_all add: Some named_row [OF inv] store_fetch_bucket_def connection_fetch_bucket_def on_db_def
         reading_def step_simps prepared_provide sql_fetch_bucket_eq [OF inv] view_measured [OF inv r, symmetric])
qed

text \<open>A list of buckets, converted or refused as a whole.\<close>

lemma traverse_views:
  assumes inv: "db_inv db" and rows: "set rows \<subseteq> set (tb_bucket db)"
  shows "traverse (spec_bucket (abstract db)) (map bk_id rows) =
    (case traverse (bucket_view db) rows of Inl e \<Rightarrow> Inl (Sql_error e) | Inr vs \<Rightarrow> Inr (map to_bucket vs))"
  using rows
proof (induction rows)
  case (Cons r rows)
  then have r: "row_map bk_id (tb_bucket db) (bk_id r) = Some r"
    using row_map_Some_iff [OF db_invD(1) [OF inv]] by auto
  from Cons show ?case
    by (cases "bucket_view db r"; cases "traverse (bucket_view db) rows") (simp_all add: view_measured [OF inv r, symmetric])
qed simp

lemma traverse_all:
  "(\<forall>x \<in> set xs. \<forall>e. f x \<noteq> Inl e) \<Longrightarrow> traverse f xs = Inr (map (projr \<circ> f) xs)"
  by (rule traverse_Inr) (metis comp_apply sum.collapse(2) sum.disc(1) sum.exhaust_disc sum.collapse(1))

lemma spec_bucket_Inl: "spec_bucket C b = Inl e \<Longrightarrow> e = Sql_error Numeric_value_out_of_range"
  by (auto simp: spec_bucket_def measured_def split: prod.splits if_splits)

lemma traverse_refused:
  assumes "b \<in> set bs" and "spec_bucket C b = Inl e"
  shows "traverse (spec_bucket C) bs = Inl (Sql_error Numeric_value_out_of_range)"
proof (cases "traverse (spec_bucket C) bs")
  case (Inl e')
  then show ?thesis using traverse_Inl_ex [OF Inl] spec_bucket_Inl by metis
next
  case (Inr ys)
  then show ?thesis using traverse_InrD [OF Inr] assms by (fastforce simp: list_all2_conv_all_nth in_set_conv_nth)
qed

lemma serves_buckets:
  assumes law: "fetch_law L" and inv: "db_inv (w_db w)"
  shows "apsnd (\<lambda>v. with_db S (w_db v)) (serve L fs (Ask_buckets ns) w) = spec L (Ask_buckets ns) (with_db S (w_db w))"
proof -
  let ?rs = "concat (map (\<lambda>n. option_list (row_map bk_name (tb_bucket (w_db w)) n)) ns)"
  have sub: "set ?rs \<subseteq> set (tb_bucket (w_db w))" by (auto dest: row_map_SomeD)
  have ids: "concat (map (\<lambda>n. option_list (find_bucket (abstract (w_db w)) n)) ns) = map bk_id ?rs"
  proof -
    have "option_list (map_option bk_id z) = map bk_id (option_list z)" for z :: "bucket_row option"
      by (cases z) simp_all
    then show ?thesis by (simp add: named_row [OF inv] map_concat comp_def)
  qed
  have "fst (serve L fs (Ask_buckets ns) w) = report Gives_buckets (traverse (spec_bucket (abstract (w_db w))) (map bk_id ?rs))"
    using names_join [OF db_invD(2) [OF inv], of ns]
    by (cases "traverse (bucket_view (w_db w)) ?rs")
       (simp_all add: traverse_views [OF inv sub] store_fetch_buckets_def connection_fetch_buckets_def on_db_def
         reading_def fetch_rows_prepared_def sql_fetch_buckets_def prepared_provide)
  moreover have "snd (serve L fs (Ask_buckets ns) w) = w"
    using store_reads(3) [of ns w] by (cases "store_fetch_buckets ns w") simp
  ultimately show ?thesis by (cases "serve L fs (Ask_buckets ns) w") (simp add: ids)
qed

lemma serves_all_buckets:
  assumes law: "fetch_law L" and inv: "db_inv (w_db w)"
  shows "apsnd (\<lambda>v. with_db S (w_db v)) (serve L fs Ask_all_buckets w) = spec L Ask_all_buckets (with_db S (w_db w))"
proof -
  let ?rs = "tb_bucket (w_db w)" and ?C = "abstract (w_db w)"
  let ?f = "spec_bucket ?C"
  have one: "fst (serve L fs Ask_all_buckets w) = report (Gives_all \<circ> mset) (traverse ?f (map bk_id ?rs))"
    by (cases "traverse (bucket_view (w_db w)) ?rs")
       (simp_all add: traverse_views [OF inv order_refl] store_fetch_buckets_all_def connection_fetch_buckets_all_def
         on_db_def reading_def fetch_rows_prepared_def sql_fetch_buckets_all_def prepared_provide)
  have two: "snd (serve L fs Ask_all_buckets w) = w"
    using store_reads(2) [of w] by (cases "store_fetch_buckets_all w") simp
  have dom: "dom (cg_buckets ?C) = set (map bk_id ?rs)" by (simp add: abstract_buckets(2))
  have "fst (serve L fs Ask_all_buckets w) = fst (spec L Ask_all_buckets (shelf_of L fs w))"
  proof (cases "\<exists>b \<in> set (map bk_id ?rs). ?f b = Inl (Sql_error Numeric_value_out_of_range)")
    case True
    then obtain b where b: "b \<in> set (map bk_id ?rs)" "?f b = Inl (Sql_error Numeric_value_out_of_range)" by blast
    have "fst (serve L fs Ask_all_buckets w) = Refused (Sql_error Numeric_value_out_of_range)"
      unfolding one traverse_refused [OF b] by simp
    then show ?thesis using True dom by (simp only: spec.simps Let_def shelf_of_simps if_True fst_conv)
  next
    case False
    then have "\<forall>b \<in> set (map bk_id ?rs). \<forall>e. ?f b \<noteq> Inl e" using spec_bucket_Inl by metis
    then have "fst (serve L fs Ask_all_buckets w) = Gives_all (mset (map (projr \<circ> ?f) (map bk_id ?rs)))"
      unfolding one by (simp add: traverse_all)
    also have "mset (map (projr \<circ> ?f) (map bk_id ?rs)) = image_mset (\<lambda>b. projr (?f b)) (mset_set (set (map bk_id ?rs)))"
      using db_invD(1) [OF inv] by (simp only: mset_set_set mset_map comp_def)
    finally show ?thesis using False dom by (simp only: spec.simps Let_def shelf_of_simps if_False fst_conv)
  qed
  then show ?thesis using two by (cases "serve L fs Ask_all_buckets w") (simp add: Let_def)
qed

lemma card_rows: "distinct (map key rows) \<Longrightarrow> card (key ` set rows) = length rows"
  using distinct_card [of "map key rows"] by simp

lemma space_rows:
  assumes "db_inv db"
  shows "space (abstract db) (dom (cg_objects (abstract db))) = (\<Sum>r \<leftarrow> tb_object db. ob_size r)"
proof -
  have "(\<Sum>r \<leftarrow> tb_object db. ob_size (object_of db (ob_id r))) = (\<Sum>r \<leftarrow> tb_object db. ob_size r)"
    using object_of_eq [OF assms] by (intro arg_cong [where f = sum_list] map_cong) simp_all
  then show ?thesis
    using sum_list_distinct_conv_sum_set [OF db_invD(3) [OF assms], of "\<lambda>x. ob_size (object_of db x)"]
    by (simp add: space_abstract total_size_def abstract_objects(2) comp_def)
qed

lemma serves_totals:
  assumes law: "fetch_law L" and inv: "db_inv (w_db w)"
  shows "apsnd (\<lambda>v. with_db S (w_db v)) (serve L fs Ask_totals w) = spec L Ask_totals (with_db S (w_db w))"
proof -
  have n: "card (dom (cg_buckets (abstract (w_db w)))) = length (tb_bucket (w_db w))"
    "card (dom (cg_objects (abstract (w_db w)))) = length (tb_object (w_db w))"
    by (simp_all add: abstract_buckets(2) abstract_objects(2) card_rows db_invD [OF inv])
  show ?thesis
    using law
    by (auto simp: Let_def n space_rows [OF inv] measured_def store_fetch_totals_def on_db_def reading_def int8_def
        connection_fetch_store_totals_def step_simps prepared_provide sql_fetch_store_totals_def to_store_totals_def)
qed

lemma serves_errors:
  assumes law: "fetch_law L" and inv: "db_inv (w_db w)"
  shows "apsnd (\<lambda>v. with_db S (w_db v)) (serve L fs Ask_errors w) = spec L Ask_errors (with_db S (w_db w))"
proof -
  let ?es = "tb_object_error (w_db w)" and ?m = "cg_errors (abstract (w_db w))"
  have dist: "distinct (map er_object ?es)" by (rule db_invD(6) [OF inv])
  have m: "?m (er_object e) = Some (er_message e)" if "e \<in> set ?es" for e
    using row_map_Some_iff [OF dist, of "er_object e" e] that by (simp add: abstract_def message_def)
  have dom: "dom ?m = set (map er_object ?es)"
    using row_map_dom [of er_object ?es] by (auto simp: abstract_def message_def dom_def)
  have "map object_error_view ?es = map (\<lambda>x. \<lparr>oe_id = x, oe_message = the (?m x)\<rparr>) (map er_object ?es)"
    using m by (simp add: object_error_view_def)
  then have "mset (map object_error_view ?es) = image_mset (\<lambda>x. \<lparr>oe_id = x, oe_message = the (?m x)\<rparr>) (mset_set (dom ?m))"
    unfolding dom mset_set_set [OF dist] by (simp only: mset_map)
  then show ?thesis by (simp add: store_get_errors_eq Let_def)
qed

section \<open>Changing the catalogue\<close>

lemma serves_create:
  assumes law: "fetch_law L" and inv: "db_inv (w_db w)" and trim: "trim_law L"
  shows "apsnd (\<lambda>v. with_db S (w_db v)) (serve L fs (Ask_create i now s) w) = spec L (Ask_create i now s) (with_db S (w_db w))"
proof (cases "proper_name s")
  case (Inl e)
  then show ?thesis by (simp add: store_create_bucket_def proper_name_eq [OF trim])
next
  case (Inr n)
  note R = refine_create [OF inv, of i now n]
  show ?thesis
  proof (cases "sql_create_bucket i now n (w_db w)")
    case (Inl e)
    then have "e = Unique_violation" using sql_create_bucket_Inl_iff [OF inv] by blast
    moreover from this R Inl have "spec_create i now n (abstract (w_db w)) = Inl Unique_violation" by simp
    ultimately show ?thesis
      using Inl Inr by (simp add: store_create_bucket_def proper_name_eq [OF trim] on_db_def connection_create_bucket_def
          step_simps prepared_provide)
  next
    case (Inr p)
    obtain rows db' where p: "p = (rows, db')" by fastforce
    note C = sql_create_bucket_Inr [OF inv Inr [unfolded p]]
    have ok: "connection_create_bucket L connect i now n (w_db w) = (Inr (hd rows), db')"
      using Inr p C(1) law by (simp add: connection_create_bucket_def step_simps prepared_provide)
    have "spec_create i now n (abstract (w_db w)) = Inr (abstract db')" using R Inr p by simp
    then show ?thesis
      using \<open>proper_name s = Inr n\<close> C(1)
      by (simp add: store_create_bucket_def proper_name_eq [OF trim] on_db_def ok with_db_def fresh_bucket_def to_bucket_def)
  qed
qed

lemma serves_rename:
  assumes law: "fetch_law L" and inv: "db_inv (w_db w)" and trim: "trim_law L"
  shows "apsnd (\<lambda>v. with_db S (w_db v)) (serve L fs (Ask_rename b s) w) = spec L (Ask_rename b s) (with_db S (w_db w))"
proof (cases "proper_name s")
  case (Inl e)
  then show ?thesis by (simp add: store_rename_bucket_def proper_name_eq [OF trim])
next
  case (Inr n)
  have "e = Unique_violation" if "sql_rename_bucket b n (w_db w) = Inl e" for e
    using that by (auto simp: sql_rename_bucket_def update_bucket_name_def split: if_splits)
  then show ?thesis
    using refine_rename [OF inv, of b n] Inr
    by (cases "sql_rename_bucket b n (w_db w)")
       (auto simp: store_rename_bucket_eq proper_name_eq [OF trim] with_db_def split: sum.splits)
qed

lemma serves_remove_bucket:
  assumes law: "fetch_law L" and inv: "db_inv (w_db w)"
  shows "apsnd (\<lambda>v. with_db S (w_db v)) (serve L fs (Ask_remove_bucket b) w) = spec L (Ask_remove_bucket b) (with_db S (w_db w))"
  by (simp add: store_remove_bucket_eq with_db_def refine_remove_bucket [OF inv])

lemma serves_remove:
  assumes law: "fetch_law L" and inv: "db_inv (w_db w)"
  shows "apsnd (\<lambda>v. with_db S (w_db v)) (serve L fs (Ask_remove b x) w) = spec L (Ask_remove b x) (with_db S (w_db w))"
proof -
  have db: "abstract (snd (sql_remove_object b x (w_db w))) = spec_unlist b {x} (abstract (w_db w))"
    using refine_links [of b "{x}" "w_db w"] by (simp add: sql_remove_object_def Let_def)
  show ?thesis
  proof (cases "entry (w_db w) b x")
    case None
    have "spec_unlist b {x} (abstract (w_db w)) = abstract (w_db w)"
      by (rule unlist_absent) (simp add: listing_abstract None)
    then show ?thesis
      by (simp add: remove_on [OF law inv] listing_abstract None with_db_def db)
  next
    case (Some e)
    then show ?thesis by (simp add: remove_on [OF law inv] listing_abstract with_db_def db)
  qed
qed

lemma serves_remove_list:
  assumes law: "fetch_law L" and inv: "db_inv (w_db w)"
  shows "apsnd (\<lambda>v. with_db S (w_db v)) (serve L fs (Ask_remove_list b xs) w) = spec L (Ask_remove_list b xs) (with_db S (w_db w))"
  using law refine_links [of b "set xs" "w_db w"]
  by (auto simp: measured_def listed_in_abstract space_abstract store_remove_objects_def on_db_def
      connection_remove_objects_def step_simps prepared_provide sql_remove_objects_eq [OF inv] Let_def
      int8_def to_remove_result_def with_db_def)

section \<open>Uploading, committing and pruning\<close>

lemma serves_upload:
  assumes inv: "store_inv L fs w"
  shows "apsnd (shelf_of L fs) (serve L fs (Ask_upload g i cs) w) = spec L (Ask_upload g i cs) (shelf_of L fs w)"
proof -
  note D = store_invD [OF inv]
  have "upload_part L fs g i cs w = (case i of Some u \<Rightarrow> u | None \<Rightarrow> g,
      w\<lparr>w_disk := write_part L fs (case i of Some u \<Rightarrow> u | None \<Rightarrow> g) cs (w_disk w)\<rparr>)"
    by (cases i) (simp_all add: upload_part_eq)
  then show ?thesis
    using stage_disk(2) [OF D(5)] stage_disk(3) [OF D(5,2)] by (simp add: Let_def shelf_of_def)
qed

lemma spec_unused_abstract: "spec_unused (abstract db) = ob_id ` {r \<in> set (tb_object db). ob_id r \<notin> referenced db}"
  by (auto simp: spec_unused_def abstract_objects(2) abstract_listed(2) image_image referenced_def)

lemma pruned_answer:
  assumes inv: "db_inv db"
  shows "mset (map (to_object \<circ> object_view) (filter (\<lambda>r. ob_id r \<notin> referenced db) (tb_object db))) =
    image_mset (\<lambda>x. let r = the (cg_objects (abstract db) x) in described r (ob_added r)) (mset_set (spec_unused (abstract db)))"
proof -
  let ?os = "filter (\<lambda>r. ob_id r \<notin> referenced db) (tb_object db)" and ?C = "abstract db"
  let ?F = "\<lambda>x. let r = the (cg_objects ?C x) in described r (ob_added r)"
  have ids: "spec_unused ?C = set (map ob_id ?os)" by (auto simp: spec_unused_abstract)
  have dist: "distinct (map ob_id ?os)" by (intro distinct_map_filterI db_invD(3) [OF inv])
  have "map (to_object \<circ> object_view) ?os = map ?F (map ob_id ?os)"
    using object_of_eq [OF inv]
    by (auto simp: object_of_def abstract_objects(1) to_object_def object_view_def described_def Let_def)
  then show ?thesis unfolding ids mset_set_set [OF dist] by (simp only: mset_map)
qed

lemma serves_prune:
  assumes inv: "store_inv L fs w"
  shows "apsnd (shelf_of L fs) (serve L fs Ask_prune w) = spec L Ask_prune (shelf_of L fs w)"
proof (rule prune_eq [OF inv])
  note D = store_invD [OF inv]
  fix d'
  let ?os = "filter (\<lambda>r. ob_id r \<notin> referenced (w_db w)) (tb_object (w_db w))" and ?C = "abstract (w_db w)"
  assume p: "prune L fs w = (Inr (map (to_object \<circ> object_view) ?os),
      \<lparr>w_db = snd (sql_remove_orphan_objects (w_db w)), w_disk = d'\<rparr>)"
    and d': "staged L fs d' = staged L fs (w_disk w)"
      "stored L fs d' = (\<lambda>u. if u \<in> ob_id ` set ?os then None else stored L fs (w_disk w) u)"
  have "stored L fs d' = stored L fs (w_disk w) |` (- spec_unused ?C)"
    unfolding d'(2) by (auto simp: restrict_map_def fun_eq_iff spec_unused_abstract)
  then show ?thesis
    using pruned_answer [OF D(4)] d'(1) refine_prune [OF D(4)] by (simp add: p Let_def shelf_of_def)
qed

lemma created_object:
  assumes inv: "db_inv db" and c: "sql_create_object i h sz ty sub now db = (Some x, db1)"
  shows "(if known h (abstract db) = {} then i else the_elem (known h (abstract db))) = x"
  using inv
proof (cases rule: create_object_cases [where h = h and i = i and sz = sz and ty = ty and sub = sub and now = now])
  case (known r)
  have "known h (abstract db) = {ob_id r}"
    using known(1,2) db_invD(4) [OF inv] by (auto simp: known_abstract [OF inv] distinct_map dest: inj_onD)
  then show ?thesis using known(3) c by simp
next
  case new
  then have "known h (abstract db) = {}" by (auto simp: known_abstract [OF inv])
  then show ?thesis using new(3) c by simp
qed (use c in simp)

lemma serves_commit:
  assumes inv: "store_inv L fs w"
  shows "apsnd (shelf_of L fs) (serve L fs (Ask_commit now b i) w) = spec L (Ask_commit now b i) (shelf_of L fs w)"
proof (cases "staged L fs (w_disk w) i")
  case None
  then show ?thesis using commit_part_miss [OF store_invD(5) [OF inv]] by (simp add: spec_commit_def)
next
  case (Some c)
  note D = store_invD [OF inv]
  note hit = commit_part_hit [OF D(1,4,5) Some, of now b]
  show ?thesis
  proof (cases "split_mime (magic_file L c)")
    case (Inl e)
    then show ?thesis using Some hit by (simp add: spec_commit_def)
  next
    case (Inr m)
    let ?h = "sha256sum L c" and ?C = "abstract (w_db w)"
    let ?r = "\<lparr>ob_id = i, ob_hash = ?h, ob_size = recorded_size c, ob_type = m_type m, ob_subtype = m_subtype m, ob_added = now\<rparr>"
    let ?x = "if known ?h ?C = {} then i else the_elem (known ?h ?C)"
    note add = refine_add [OF D(4) recorded_size_int64, of b i ?h c "m_type m" "m_subtype m" now]
    show ?thesis
    proof (cases "sql_add_object b i ?h (recorded_size c) (m_type m) (m_subtype m) now (w_db w)")
      case (Inl e)
      then have "spec_add b ?r now ?C = Inl e" using add by simp
      then show ?thesis using Some hit \<open>split_mime (magic_file L c) = Inr m\<close> Inl by (simp add: spec_commit_def Let_def)
    next
      case (Inr p)
      obtain rows db' where p: "p = (rows, db')" by fastforce
      have C': "spec_add b ?r now ?C = Inr (abstract db')" using add Inr p by simp
      obtain x db1 e where e: "sql_create_object i ?h (recorded_size c) (m_type m) (m_subtype m) now (w_db w) = (Some x, db1)"
        "rows = [e]" "entry db' b x = Some e" "db_o_id e = x"
        using sql_add_object_Inr [OF D(4) recorded_size_int64 Inr [unfolded p]] by metis
      have x: "?x = x" by (rule created_object [OF D(4) e(1)])
      show ?thesis
      proof (rule settle_eq [OF D(2), of fs "w\<lparr>w_db := db'\<rparr>" i c e])
        fix d' assume st: "settle L fs i e (w\<lparr>w_db := db'\<rparr>) = (Inr (to_object e), w\<lparr>w_db := db', w_disk := d'\<rparr>)"
          and d': "staged L fs d' = (staged L fs (w_disk (w\<lparr>w_db := db'\<rparr>)))(i := None)"
            "stored L fs d' = (if db_o_id e = i then (stored L fs (w_disk (w\<lparr>w_db := db'\<rparr>)))(i \<mapsto> c)
               else stored L fs (w_disk (w\<lparr>w_db := db'\<rparr>)))"
        have "listing (abstract db') b x = Some (to_object e)" by (simp add: listing_abstract e(3))
        with st d' e C' x show ?thesis
          using Some hit \<open>split_mime (magic_file L c) = Inr m\<close> Inr p
          by (simp add: spec_commit_def Let_def shelf_of_def)
      qed (use D Some in auto)
    qed
  qed
qed

section \<open>The store refines its specification\<close>

fun db_request :: "request \<Rightarrow> bool" where
  "db_request (Ask_upload g i cs) = False"
| "db_request (Ask_commit now b i) = False"
| "db_request Ask_prune = False"
| "db_request (Ask_object b x) = False"
| "db_request q = True"

lemma serves_db:
  assumes "fetch_law L" and "trim_law L" and "db_inv (w_db w)" and "db_request q"
  shows "apsnd (\<lambda>v. with_db S (w_db v)) (serve L fs q w) = spec L q (with_db S (w_db w))"
  using assms
  by (cases q) (simp_all only: db_request.simps serves_create serves_rename serves_remove_bucket serves_remove
      serves_remove_list serves_metadata serves_bucket serves_buckets serves_all_buckets serves_totals serves_errors)

lemma answered_snd [simp]: "snd (answered f r) = snd r"
  by (cases r) simp

lemma serve_db_disk: "db_request q \<Longrightarrow> w_disk (snd (serve L fs q w)) = w_disk w"
  by (cases q) (simp_all add: store_create_bucket_def store_rename_bucket_def store_remove_bucket_def
      store_remove_object_def store_remove_objects_def split: sum.split)

lemma serves:
  assumes inv: "store_inv L fs w" and trim: "trim_law L"
  shows "apsnd (shelf_of L fs) (serve L fs q w) = spec L q (shelf_of L fs w)"
proof (cases "db_request q")
  case True
  note D = store_invD [OF inv]
  have "shelf_of L fs (snd (serve L fs q w)) = with_db (shelf_of L fs w) (w_db (snd (serve L fs q w)))"
    using serve_db_disk [OF True, of L fs w] by (simp add: shelf_of_def with_db_def)
  moreover have same: "with_db (shelf_of L fs w) (w_db w) = shelf_of L fs w" by (simp add: shelf_of_def with_db_def)
  ultimately show ?thesis
    using serves_db [OF D(3) trim D(4) True, of "shelf_of L fs w" fs, unfolded same] by (cases "serve L fs q w") simp
next
  case False
  then show ?thesis
    using serves_upload [OF inv] serves_commit [OF inv] serves_prune [OF inv] serves_object [OF inv]
    by (cases q) (simp_all only: db_request.simps simp_thms)
qed

lemma serve_inv:
  assumes "store_inv L fs w" shows "store_inv L fs (snd (serve L fs q w))"
  by (cases q) (auto simp: assms intro: inv_intros)

interpretation store_service: refinement
  "\<lambda>w. store_inv L fs w \<and> trim_law L" "shelf_of L fs" "serve L fs" "spec L" for L fs
  by unfold_locales (auto simp: serves intro: serve_inv)

lemma shelf_of_new: "shelf_of L (home_fs home) (new_store home m) = empty_shelf"
  using filesystem_new_blank [of home m]
  by (auto simp: shelf_of_def empty_shelf_def new_store_def abstract_def empty_database_def message_def stored_def staged_def)

end
