(* ===== verification/Wire.thy ===== *)
theory Wire
  imports Server_Laws Store_Refinement
begin

text \<open>
  A client of the binary protocol and the store at the other end: what the client makes of the responses, how
  an upload leaves the client, and that client, protocol, server and store together are the specification
  of the store (\<open>Store_Spec\<close>) once more.
\<close>

section \<open>Uploads leave the client\<close>

text \<open>
  \<open>fstore::part\<close> (\<open>src/libfstore/part.cpp\<close>), which \<open>add_object\<close> hands to the caller's function: waiting until the
  connection takes data, sending what it takes at once (\<open>try_write\<close> returns how much that was), and sending all.
\<close>

datatype part_op = Await_write | Try_write nat blob | Write blob

fun part_sends :: "blob \<Rightarrow> part_op \<Rightarrow> blob" where
  "part_sends wire Await_write = wire"
| "part_sends wire (Try_write room data) = wire @ take room data"
| "part_sends wire (Write data) = wire @ data"

fun try_write_result :: "nat \<Rightarrow> blob \<Rightarrow> nat" where
  "try_write_result room data = min room (length data)"

text \<open>A caller that sends a block with \<open>try_write\<close> and the rest with \<open>write\<close>.\<close>

definition send_block :: "nat \<Rightarrow> blob \<Rightarrow> part_op list" where
  "send_block room data = [Await_write, Try_write room data, Write (drop (try_write_result room data) data)]"

lemma send_block_sends: "foldl part_sends wire (send_block room data) = wire @ data"
  by (cases "room \<le> length data") (simp_all add: send_block_def min_def)

lemma send_blocks_send:
  "foldl part_sends wire (concat (map (\<lambda>(room, data). send_block room data) blocks)) = wire @ concat (map snd blocks)"
  by (induction blocks arbitrary: wire) (auto simp: send_block_sends)

text \<open>What zipline's stream of \<open>size\<close> bytes delivers of the bytes that were sent, when all of them were.\<close>

definition arrives :: "nat \<Rightarrow> blob \<Rightarrow> upload \<Rightarrow> bool" where
  "arrives n wire st \<longleftrightarrow> up_fault st = None \<and> n \<le> length wire \<and> concat (up_chunks st) = take n wire"

section \<open>Calls and results\<close>

datatype client_call =
    Add_object uuid "uuid option" upload
  | Fetch_bucket string
  | Get_object uuid uuid
  | Get_metadata uuid uuid
  | Get_info
  | Remove_object uuid uuid
  | Remove_list uuid "uuid list"

fun message_of :: "client_call \<Rightarrow> nat \<times> arguments" where
  "message_of (Add_object b req st) = client_add_object b req st"
| "message_of (Fetch_bucket n) = client_fetch_bucket n"
| "message_of (Get_object b x) = client_get_object b x"
| "message_of (Get_metadata b x) = client_get_object_metadata b x"
| "message_of Get_info = client_get_server_info"
| "message_of (Remove_object b x) = client_remove_object b x"
| "message_of (Remove_list b xs) = client_remove_objects b xs"

text \<open>\<open>Broken\<close>: the server has no encoding of the exception, so there is no response the client could decode.\<close>

datatype client_result =
    Got_object object
  | Got_bucket bucket
  | Got_blob blob
  | Got_info server_info
  | Got_removed remove_result
  | Thrown error
  | Broken

fun client_decodes :: "(blob \<Rightarrow> blob list) \<Rightarrow> response \<Rightarrow> client_result" where
  "client_decodes split (Sends_object x) = Got_object x"
| "client_decodes split (Sends_bucket b) = Got_bucket b"
| "client_decodes split (Sends_file meta fd) = Got_blob (decode_blob (split (snd (encode_file meta fd))))"
| "client_decodes split (Sends_info i) = Got_info i"
| "client_decodes split (Sends_result r) = Got_removed r"

definition client_throws :: "libs \<Rightarrow> error \<Rightarrow> client_result" where
  "client_throws L e = (case Option.bind (encode_error L e) decode_error of None \<Rightarrow> Broken | Some e' \<Rightarrow> Thrown e')"

text \<open>One call, with the uuid the server generates for it and its time.\<close>

definition client_step ::
  "request_context \<Rightarrow> (blob \<Rightarrow> blob list) \<Rightarrow> uuid \<times> time_point \<times> client_call \<Rightarrow> world \<Rightarrow> client_result \<times> world" where
  "client_step c split q w = (case q of (g, t, m) \<Rightarrow>
     case call (c\<lparr>cx_generated := g, cx_now := t\<rparr>) (message_of m) w of
       None \<Rightarrow> (Broken, w)
     | Some (Inl e, w') \<Rightarrow> (client_throws (cx_libs c) e, w')
     | Some (Inr r, w') \<Rightarrow> (client_decodes split r, w'))"

section \<open>The specification of a client's calls\<close>

fun as_result :: "answer \<Rightarrow> client_result" where
  "as_result (Gives_object x) = Got_object x"
| "as_result (Gives_bucket b) = Got_bucket b"
| "as_result (Gives_file meta c) = Got_blob (take (unat (o_size meta)) c)"
| "as_result (Gives_removed r) = Got_removed r"
| "as_result (Refused e) = (if error_code e = None then Broken else Thrown e)"
| "as_result _ = Broken"

fun client_spec ::
  "libs \<Rightarrow> server_info \<Rightarrow> uuid \<times> time_point \<times> client_call \<Rightarrow> shelf \<Rightarrow> client_result \<times> shelf" where
  "client_spec L info (g, t, Add_object b req st) S =
     (let S' = snd (spec L (Ask_upload g req (up_chunks st)) S)
      in case up_fault st of
           Some e \<Rightarrow> (as_result (Refused e), S')
         | None \<Rightarrow> apfst as_result (spec L (Ask_commit t b (case req of Some u \<Rightarrow> u | None \<Rightarrow> g)) S'))"
| "client_spec L info (g, t, Fetch_bucket n) S = apfst as_result (spec L (Ask_bucket n) S)"
| "client_spec L info (g, t, Get_object b x) S = apfst as_result (spec L (Ask_object b x) S)"
| "client_spec L info (g, t, Get_metadata b x) S = apfst as_result (spec L (Ask_metadata b x) S)"
| "client_spec L info (g, t, Get_info) S = (Got_info info, S)"
| "client_spec L info (g, t, Remove_object b x) S = apfst as_result (spec L (Ask_remove b x) S)"
| "client_spec L info (g, t, Remove_list b xs) S = apfst as_result (spec L (Ask_remove_list b xs) S)"

section \<open>The client sees the specification\<close>

lemma client_throws_eq: "client_throws L e = as_result (Refused e)"
  by (cases e) (simp_all add: client_throws_def encode_error_def decode_error_def)

lemmas message_defs = client_add_object_def client_fetch_bucket_def client_get_object_def client_get_object_metadata_def
  client_get_server_info_def client_remove_object_def client_remove_objects_def

lemma reaches:
  "call c (message_of (Add_object b req st)) w = Some (returning Sends_object
     (router_add_object (cx_libs c) (cx_fs c) (cx_generated c) (cx_now c) b req st w))"
  "call c (message_of (Fetch_bucket n)) w = Some (returning Sends_bucket (store_fetch_bucket (cx_libs c) n w))"
  "call c (message_of (Get_object b x)) w =
     Some (returning (\<lambda>(m, fd). Sends_file m fd) (get_object (cx_libs c) (cx_fs c) b x w))"
  "call c (message_of (Get_metadata b x)) w = Some (returning Sends_object (get_object_metadata (cx_libs c) b x w))"
  "call c (message_of Get_info) w = Some (Inr (Sends_info (cx_info c)), w)"
  "call c (message_of (Remove_object b x)) w = Some (returning Sends_object (store_remove_object (cx_libs c) b x w))"
  "call c (message_of (Remove_list b xs)) w = Some (returning Sends_result (store_remove_objects (cx_libs c) b xs w))"
  by (simp_all add: call_def route_def make_router_def message_defs router_fetch_bucket_def router_get_object_def
      router_get_object_metadata_def router_get_server_info_def router_remove_object_def router_remove_objects_def)

text \<open>A response and its decoding, against the answer of the store.\<close>

definition response_result :: "libs \<Rightarrow> (blob \<Rightarrow> blob list) \<Rightarrow> (error, response, world) outcome \<Rightarrow> client_result \<times> world" where
  "response_result L split r =
     (case r of (Inl e, w) \<Rightarrow> (client_throws L e, w) | (Inr x, w) \<Rightarrow> (client_decodes split x, w))"

lemma client_step_response:
  "call (c\<lparr>cx_generated := g, cx_now := t\<rparr>) (message_of m) w = Some r \<Longrightarrow>
     client_step c split (g, t, m) w = response_result (cx_libs c) split r"
  by (simp add: client_step_def response_result_def)

lemma response_answered:
  assumes "\<And>x. client_decodes split (f x) = as_result (h x)"
  shows "response_result L split (returning f r) = apfst as_result (answered h r)"
  using assms
  by (cases r; cases "fst r") (auto simp: response_result_def answered_def returning_def and_then_def client_throws_eq)

lemma upload_served:
  "router_add_object L fs g t b req st w =
     (case serve L fs (Ask_upload g req (up_chunks st)) w of (a, w') \<Rightarrow>
        case up_fault st of Some e \<Rightarrow> (Inl e, w')
        | None \<Rightarrow> commit_part L fs t b (case req of Some u \<Rightarrow> u | None \<Rightarrow> g) w')"
  by (cases req; cases "up_fault st") (simp_all add: router_add_object_eq upload_part_eq)

lemma apply_refines:
  assumes "apsnd alpha r = u" shows "apsnd alpha (apfst f r) = apfst f u"
  using assms by (cases r) auto

lemma client_get_object_step:
  assumes "\<And>x. concat (split x) = x"
  shows "client_step c split (g, t, Get_object b x) w = apfst as_result (serve (cx_libs c) (cx_fs c) (Ask_object b x) w)"
proof -
  have "response_result (cx_libs c) split (returning (\<lambda>p. case p of (m, fd) \<Rightarrow> Sends_file m fd) r) =
      apfst as_result (answered (\<lambda>p. case p of (m, c) \<Rightarrow> Gives_file m c) r)" for r
    by (rule response_answered) (auto simp: decode_blob_eq assms encode_file_def)
  then show ?thesis
    using client_step_response [where m = "Get_object b x", OF reaches(3)] by simp
qed

lemma client_other_steps:
  "client_step c split (g, t, Fetch_bucket n) w = apfst as_result (serve (cx_libs c) (cx_fs c) (Ask_bucket n) w)"
  "client_step c split (g, t, Get_metadata b x) w = apfst as_result (serve (cx_libs c) (cx_fs c) (Ask_metadata b x) w)"
  "client_step c split (g, t, Remove_object b x) w = apfst as_result (serve (cx_libs c) (cx_fs c) (Ask_remove b x) w)"
  "client_step c split (g, t, Remove_list b xs) w = apfst as_result (serve (cx_libs c) (cx_fs c) (Ask_remove_list b xs) w)"
  by (simp_all add: client_step_response [OF reaches(2)] client_step_response [OF reaches(4)]
      client_step_response [OF reaches(6)] client_step_response [OF reaches(7)] response_answered)

lemma client_info_step: "client_step c split (g, t, Get_info) w = (Got_info (cx_info c), w)"
  by (simp add: client_step_response [OF reaches(5)] response_result_def)

lemma client_add_step:
  "client_step c split (g, t, Add_object b req st) w =
     (case serve (cx_libs c) (cx_fs c) (Ask_upload g req (up_chunks st)) w of (a, w') \<Rightarrow>
        case up_fault st of Some e \<Rightarrow> (as_result (Refused e), w')
        | None \<Rightarrow> apfst as_result (serve (cx_libs c) (cx_fs c)
            (Ask_commit t b (case req of Some u \<Rightarrow> u | None \<Rightarrow> g)) w'))"
proof -
  have faulty: "response_result L split (returning Sends_object (Inl e, w')) = (as_result (Refused e), w')" for L e w'
    by (simp add: response_result_def client_throws_eq)
  have fine: "response_result L split (returning Sends_object r) = apfst as_result (answered Gives_object r)" for L r
    by (rule response_answered) simp
  show ?thesis
    by (simp add: client_step_response [OF reaches(1)] upload_served faulty fine split: prod.split option.split)
qed

lemma client_refines:
  assumes inv: "store_inv (cx_libs c) (cx_fs c) w" and trim: "trim_law (cx_libs c)" and split: "\<And>x. concat (split x) = x"
  shows "apsnd (shelf_of (cx_libs c) (cx_fs c)) (client_step c split q w) =
    client_spec (cx_libs c) (cx_info c) q (shelf_of (cx_libs c) (cx_fs c) w)"
proof -
  obtain g t m where q: "q = (g, t, m)" by (cases q)
  note R = apply_refines [OF serves [OF inv trim]]
  show ?thesis
  proof (cases m)
    case (Add_object b req st)
    let ?L = "cx_libs c" and ?fs = "cx_fs c" and ?i = "case req of Some u \<Rightarrow> u | None \<Rightarrow> g"
    obtain a w' where up: "serve ?L ?fs (Ask_upload g req (up_chunks st)) w = (a, w')" by fastforce
    have S': "snd (spec ?L (Ask_upload g req (up_chunks st)) (shelf_of ?L ?fs w)) = shelf_of ?L ?fs w'"
      using serves [OF inv trim, of "Ask_upload g req (up_chunks st)"] up by (metis apsnd_conv snd_conv)
    have inv': "store_inv ?L ?fs w'" using serve_inv [OF inv, of "Ask_upload g req (up_chunks st)"] up by (metis snd_conv)
    note C = apply_refines [OF serves [OF inv' trim, of "Ask_commit t b ?i"], of as_result]
    show ?thesis
      using C S' by (cases "up_fault st") (simp_all add: q Add_object client_add_step up Let_def del: serve.simps spec.simps)
  qed (use R in \<open>simp_all add: q client_get_object_step [OF split] client_other_steps client_info_step del: serve.simps spec.simps\<close>)
qed

lemma client_step_inv:
  assumes inv: "store_inv (cx_libs c) (cx_fs c) w" and split: "\<And>x. concat (split x) = x"
  shows "store_inv (cx_libs c) (cx_fs c) (snd (client_step c split q w))"
proof -
  obtain g t m where q: "q = (g, t, m)" by (cases q)
  let ?keeps = "\<lambda>r :: client_result \<times> world. store_inv (cx_libs c) (cx_fs c) (snd r)"
  have step: "?keeps (apfst as_result (serve (cx_libs c) (cx_fs c) p v))" if "store_inv (cx_libs c) (cx_fs c) v" for p v
    using serve_inv [OF that, of p] by simp
  show ?thesis
  proof (cases m)
    case (Add_object b req st)
    obtain a w' where up: "serve (cx_libs c) (cx_fs c) (Ask_upload g req (up_chunks st)) w = (a, w')" by fastforce
    have "store_inv (cx_libs c) (cx_fs c) w'"
      using serve_inv [OF inv, of "Ask_upload g req (up_chunks st)"] up by (metis snd_conv)
    then show ?thesis
      using step by (simp add: q Add_object client_add_step up del: serve.simps split: option.split)
  qed (use step inv in \<open>simp_all add: q client_get_object_step [OF split] client_other_steps client_info_step del: serve.simps\<close>)
qed

text \<open>A client that may make any calls, its transport cutting downloads in any way.\<close>

definition service_inv :: "request_context \<Rightarrow> (blob \<Rightarrow> blob list) \<Rightarrow> world \<Rightarrow> bool" where
  "service_inv c split w \<longleftrightarrow> store_inv (cx_libs c) (cx_fs c) w \<and> trim_law (cx_libs c) \<and> (\<forall>x. concat (split x) = x)"

interpretation binary_service: refinement
  "service_inv c split" "shelf_of (cx_libs c) (cx_fs c)" "client_step c split" "client_spec (cx_libs c) (cx_info c)"
  for c split
  by unfold_locales (auto simp: service_inv_def client_refines intro: client_step_inv)

lemma upload_spec_concat:
  "concat cs = concat cs' \<Longrightarrow> spec L (Ask_upload g i cs) S = spec L (Ask_upload g i cs') S"
  by (simp add: Let_def)

lemma arrived_upload:
  assumes "arrives (length data) (foldl part_sends [] ops) st" and "foldl part_sends [] ops = data"
  shows "client_spec L info (g, t, Add_object b req st) S =
    client_spec L info (g, t, Add_object b req \<lparr>up_chunks = [data], up_fault = None\<rparr>) S"
proof -
  have "concat (up_chunks st) = concat [data]" "up_fault st = None" using assms by (simp_all add: arrives_def)
  then show ?thesis using upload_spec_concat [of "up_chunks st" "[data]" L g req S] by (simp del: spec.simps)
qed

end
