(* ===== verification/Check_Properties.thy ===== *)
theory Check_Properties
  imports Store_System Sample
begin

text \<open>
  The properties of \<open>object_store::check\<close>: whatever the order in which its tasks finish, it ends, it
  never throws, it uses bounded memory, and it leaves exactly the errors there are.
\<close>

lemma check_system_start:
  assumes "0 \<le> bs" and "db_inv (w_db w)" and "portal_law batches (w_db w)"
    and "check_begin L batches before w = Inr s"
  shows "check_system_inv L fs (w_disk w) (w_db w) bs s"
  using check_begin_Inr [OF assms(4)] check_start_inv [OF assms(2,3)] assms(1)
  by (auto simp: check_system_inv_def)

section \<open>A sample run\<close>

definition batches3 :: "db_object list list" where
  "batches3 = [sql_get_objects db3]"

lemma portal3: "portal_law batches3 (w_db w3)"
  by (simp add: portal_law_def batches3_def commit3(2))

lemma counted3: "check_total sample db3 = Inr 1"
proof -
  have "sql_fetch_store_totals db3 = Inr [\<lparr>db_st_buckets = 1, db_st_objects = 1, db_st_space_used = 2\<rparr>]"
    by (simp add: sql_fetch_store_totals_def int8_def is_int64_def db3_def db1_def)
  then have "reading sql_fetch_store_totals db3 =
      Inr ([\<lparr>db_st_buckets = 1, db_st_objects = 1, db_st_space_used = 2\<rparr>], db3)"
    by (simp add: reading_def)
  then have "fst (connection_fetch_store_totals sample connect db3) =
      Inr \<lparr>db_st_buckets = 1, db_st_objects = 1, db_st_space_used = 2\<rparr>"
    using sample_laws(1) unfolding connection_fetch_store_totals_def laws_def
    by (subst fetch_prepared_one) (auto simp: prepared_provide)
  then show ?thesis by (simp add: check_total_def to_store_totals_def)
qed

lemma begin3: "check_begin sample batches3 db3 w3 = Inr (check_start 1 batches3 db3)"
  by (simp add: check_begin_def counted3 commit3(2))

lemma db3_inv: "db_inv (w_db w3)"
  by (rule store_invD(4) [OF sample_inv(4)])

lemma system3: "check_system_inv sample fs0 (w_disk w3) (w_db w3) 500 (check_start 1 batches3 db3)"
  by (rule check_system_start [OF _ db3_inv portal3 begin3]) simp

lemma final_returned:
  "check_inv L fs d db0 t \<Longrightarrow> check_final t \<Longrightarrow> ck_pc t = Returned"
  by (auto simp: check_final_def check_inv_def control_inv_def)

definition end3 :: "check_state \<Rightarrow> bool" where
  "end3 t \<longleftrightarrow> (check_step sample fs0 (w_disk w3) 500)\<^sup>*\<^sup>* (check_start 1 batches3 db3) t \<and> ck_pc t = Returned"

lemma end3_exists: "\<exists>t. end3 t"
proof -
  obtain t where t: "(check_step sample fs0 (w_disk w3) 500)\<^sup>*\<^sup>* (check_start 1 batches3 db3) t" "check_final t"
    using check_run.reaches_final [OF system3] by blast
  have "check_inv sample fs0 (w_disk w3) (w_db w3) t"
    using check_run.inv_reachable [OF t(1) system3] by (simp add: check_system_inv_def)
  then show ?thesis using t final_returned unfolding end3_def by blast
qed

section \<open>Properties\<close>

text \<open>C22: A check ends: no run of its coroutine and tasks is longer than three steps per batch and one
  per object, and one more; some run gets to the end from the start, and no schedule of the tasks can
  get stuck before it.\<close>

theorem check_terminates:
  assumes "0 \<le> batch_size" and "db_inv (w_db w)" and "portal_law batches (w_db w)"
    and "check_begin L batches before w = Inr s"
  shows "(\<exists>t. (check_step L fs (w_disk w) batch_size)\<^sup>*\<^sup>* s t \<and> check_final t) \<and>
    (\<forall>n t. run (check_step L fs (w_disk w) batch_size) n s t \<longrightarrow>
       n \<le> 3 * length batches + length (tb_object (w_db w)) + 1) \<and>
    (\<forall>t. (check_step L fs (w_disk w) batch_size)\<^sup>*\<^sup>* s t \<longrightarrow>
       check_final t \<or> (\<exists>u. check_step L fs (w_disk w) batch_size t u))"
proof -
  note start = check_system_start [OF assms, of fs]
  have "work_left s = 3 * length batches + length (tb_object (w_db w)) + 1"
    using check_begin_Inr [OF assms(4)] assms(3)
    by (auto simp: work_left_def check_start_def portal_law_def get_objects_length)
  then show ?thesis
    using check_run.reaches_final [OF start] check_run.run_bound [OF _ start] check_run.live
      check_run.inv_reachable [OF _ start] by fastforce
qed

theorem check_terminates_witness:
  "\<exists>t. (check_step sample fs0 (w_disk w3) 500)\<^sup>*\<^sup>* (check_start 1 batches3 db3) t \<and> check_final t"
  using check_terminates [OF _ db3_inv portal3 begin3, of 500 fs0] by simp

text \<open>A check never throws once it has begun: no write of its results violates a constraint, so in
  every reachable state the coroutine is running or has returned, and when it has returned no task is
  left that would write to its variables.\<close>

theorem check_no_throw:
  assumes "db_inv (w_db w)" and "portal_law batches (w_db w)" and "check_begin L batches before w = Inr s"
    and "(check_step L fs (w_disk w) batch_size)\<^sup>*\<^sup>* s t"
  shows "ck_pc t \<noteq> Threw e \<and> (ck_pc t = Returned \<longrightarrow> ck_running t = [] \<and> ck_in t = [] \<and> ck_out t = [])"
  using check_reachable_inv [OF assms(3,2,1,4)]
  by (auto simp: check_inv_def control_inv_def quiet_def)

theorem check_no_throw_witness:
  "\<exists>t. end3 t \<and> ck_running t = []"
proof -
  obtain t where t: "end3 t" using end3_exists by blast
  then have "ck_running t = []"
    using check_no_throw [OF db3_inv portal3 begin3, of fs0 500 t] by (simp add: end3_def)
  with t show ?thesis by blast
qed

lemma check_result_cards:
  assumes inv: "check_inv L fs d db0 s" and ret: "ck_pc s = Returned"
  shows "pg_success (ck_progress s) = of_nat (card {r \<in> set (tb_object db0). check_object L fs d (object_view r) = []})"
    and "pg_errors (ck_progress s) = of_nat (card {r \<in> set (tb_object db0). check_object L fs d (object_view r) \<noteq> []})"
proof -
  have dist: "distinct (tb_object db0)"
    using db_invD(3) inv by (simp add: check_inv_def distinct_map)
  have count: "tally P (all_records L fs d db0) =
      of_nat (card {r \<in> set (tb_object db0). P (check_record L fs d (object_view r))})" for P
    using distinct_length_filter [OF dist] by (simp add: tally_def all_records_def filter_map comp_def Collect_conj_eq Int_commute)
  have rec: "oe_message (check_record L fs d x) = check_object L fs d x" for x
    by (simp add: check_record_def)
  show "pg_success (ck_progress s) = of_nat (card {r \<in> set (tb_object db0). check_object L fs d (object_view r) = []})"
    and "pg_errors (ck_progress s) = of_nat (card {r \<in> set (tb_object db0). check_object L fs d (object_view r) \<noteq> []})"
    by (simp_all add: check_result_counts(1,2) [OF inv ret] count rec)
qed

text \<open>C24: A finished check has judged every object once, in whatever order the tasks ended: the errors
  recorded for an object are what checking it finds, nothing if it is sound, the two counters are the
  numbers of sound and of flawed objects, and nothing else in the database has changed.\<close>

theorem check_result:
  assumes "db_inv (w_db w)" and "portal_law batches (w_db w)" and "check_begin L batches before w = Inr s"
    and "(check_step L fs (w_disk w) batch_size)\<^sup>*\<^sup>* s t" and "ck_pc t = Returned"
  shows "(\<forall>r \<in> set (tb_object (w_db w)). message (ck_db t) (ob_id r) =
      (let m = check_object L fs (w_disk w) (object_view r) in if m = [] then None else Some m)) \<and>
    pg_success (ck_progress t) = of_nat (card {r \<in> set (tb_object (w_db w)).
      check_object L fs (w_disk w) (object_view r) = []}) \<and>
    pg_errors (ck_progress t) = of_nat (card {r \<in> set (tb_object (w_db w)).
      check_object L fs (w_disk w) (object_view r) \<noteq> []}) \<and>
    tb_object (ck_db t) = tb_object (w_db w) \<and> tb_bucket (ck_db t) = tb_bucket (w_db w) \<and>
    tb_bucket_object (ck_db t) = tb_bucket_object (w_db w)"
proof -
  note inv = check_reachable_inv [OF assms(3,2,1,4)]
  from check_result_message [OF inv assms(5)] check_result_cards [OF inv assms(5)] inv show ?thesis
    by (simp add: check_inv_def frame_inv_def)
qed

theorem check_result_witness:
  "\<exists>t. end3 t \<and> message (ck_db t) 5 =
     (let m = check_object sample fs0 (w_disk w3) \<lparr>db_o_id = 5, db_o_hash = ''6869'', db_o_size = 2,
        db_o_type = ''text'', db_o_subtype = ''plain'', db_o_date_added = 200\<rparr>
      in if m = [] then None else Some m)"
proof -
  obtain t where t: "end3 t" using end3_exists by blast
  have "(check_step sample fs0 (w_disk w3) 500)\<^sup>*\<^sup>* (check_start 1 batches3 db3) t" "ck_pc t = Returned"
    using t by (simp_all add: end3_def)
  from check_result [OF db3_inv portal3 begin3 this] t show ?thesis
    by (intro exI [of _ t]) (simp add: commit3(2) db3_def object_view_def Let_def)
qed

text \<open>Checking one object tells a missing file from a wrong content from a sound object.\<close>

theorem check_object_verdict:
  assumes "uuid_law L" and "disk_inv fs d"
  shows "check_object L fs d obj =
    (if stored L fs d (db_o_id obj) = None then ''file missing''
     else if sha256sum L (the (stored L fs d (db_o_id obj))) = db_o_hash obj then []
     else ''hash mismatch'')"
  using check_object_eq [OF assms] by (auto split: option.splits)

theorem check_object_verdict_witness:
  "check_object sample fs0 (w_disk w0) \<lparr>db_o_id = 5, db_o_hash = ''6869'', db_o_size = 2,
     db_o_type = ''text'', db_o_subtype = ''plain'', db_o_date_added = 200\<rparr> = ''file missing''"
proof -
  have "dom (stored sample fs0 (w_disk w0)) = {}"
    using store_invD(6) [OF sample_inv(1)] by (simp add: agree_def w0_parts(1) empty_database_def)
  then have "stored sample fs0 (w_disk w0) 5 = None" by auto
  then show ?thesis
    using check_object_verdict [OF sample_uuid_law store_invD(5) [OF sample_inv(1)]] by simp
qed

text \<open>On a consistent store a check reports every object valid and clears the error table, errors
  recorded by earlier checks included.\<close>

theorem check_consistent_store:
  assumes inv: "store_inv L fs w" and "portal_law batches (w_db w)" and "check_begin L batches before w = Inr s"
    and "(check_step L fs (w_disk w) batch_size)\<^sup>*\<^sup>* s t" and "ck_pc t = Returned"
  shows "fst (store_get_errors (w\<lparr>w_db := ck_db t\<rparr>)) = Inr [] \<and> pg_errors (ck_progress t) = 0 \<and>
    pg_success (ck_progress t) = of_nat (length (tb_object (w_db w)))"
proof -
  note D = store_invD [OF inv]
  note cinv = check_reachable_inv [OF assms(3,2) D(4) assms(4)]
  have none: "message (ck_db t) (ob_id r) = None" if "r \<in> set (tb_object (w_db w))" for r
    using check_result_message [OF cinv assms(5) that] check_object_sound [OF inv that] by simp
  have fr: "db_inv (ck_db t)" "tb_object (ck_db t) = tb_object (w_db w)"
    using cinv by (simp_all add: check_inv_def frame_inv_def)
  have "tb_object_error (ck_db t) = []"
  proof (rule ccontr)
    assume "tb_object_error (ck_db t) \<noteq> []"
    then obtain e where e: "e \<in> set (tb_object_error (ck_db t))" by (cases "tb_object_error (ck_db t)") auto
    obtain r where r: "r \<in> set (tb_object (w_db w))" "ob_id r = er_object e"
      using db_inv_error_object [OF fr(1) e] fr(2) by auto
    have "er_object e \<notin> er_object ` set (tb_object_error (ck_db t))"
      using none [OF r(1)] r(2) by (simp add: message_def row_map_None_iff)
    with e show False by blast
  qed
  moreover have "filter flawed (all_records L fs (w_disk w) (w_db w)) = []"
    using check_object_sound [OF inv] by (auto simp: filter_empty_conv all_records_def check_record_def)
  then have "tally flawed (all_records L fs (w_disk w) (w_db w)) = 0" by (simp add: tally_def)
  ultimately show ?thesis
    using check_result_counts [OF cinv assms(5)] tally_split [of flawed "all_records L fs (w_disk w) (w_db w)"]
    by (simp add: store_get_errors_eq all_records_def)
qed

theorem check_consistent_store_witness: "\<exists>t. end3 t \<and> pg_success (ck_progress t) = 1"
proof -
  obtain t where t: "end3 t" using end3_exists by blast
  have "(check_step sample fs0 (w_disk w3) 500)\<^sup>*\<^sup>* (check_start 1 batches3 db3) t" "ck_pc t = Returned"
    using t by (simp_all add: end3_def)
  from check_consistent_store [OF sample_inv(4) portal3 begin3 this] t show ?thesis
    by (intro exI [of _ t]) (simp add: commit3(2) db3_def)
qed

text \<open>C25: A check runs in bounded memory: with batches of at most \<open>batch_size\<close> rows there are never more
  than one and a half batches of running tasks and of records collected and not yet being written, nor
  of records being written.\<close>

theorem check_memory_bound:
  assumes "0 \<le> batch_size" and "\<forall>b \<in> set batches. int (length b) \<le> batch_size"
    and "check_begin L batches before w = Inr s"
    and "(check_step L fs d batch_size)\<^sup>*\<^sup>* s t"
  shows "int (length (ck_running t) + length (ck_in t)) \<le> batch_size + batch_size div 2 \<and>
    int (length (ck_out t)) \<le> batch_size + batch_size div 2"
proof -
  have "bounded_inv batch_size s"
    using check_begin_Inr [OF assms(3)] assms(1,2) by (auto simp: bounded_inv_def check_start_def half_def)
  from check_memory.inv_reachable [OF assms(4) this] show ?thesis
    by (auto simp: bounded_inv_def half_def split: if_splits)
qed

theorem check_memory_bound_witness: "\<exists>t. end3 t \<and> int (length (ck_out t)) \<le> 750"
proof -
  obtain t where t: "end3 t" using end3_exists by blast
  then have "(check_step sample fs0 (w_disk w3) 500)\<^sup>*\<^sup>* (check_start 1 batches3 db3) t"
    by (simp add: end3_def)
  moreover have "\<forall>b \<in> set batches3. int (length b) \<le> 500"
    by (simp add: batches3_def get_objects_length db3_def)
  ultimately have "int (length (ck_out t)) \<le> 500 + 500 div 2"
    using check_memory_bound [OF _ _ begin3, of 500 fs0 "w_disk w3" t] by simp
  with t show ?thesis by (intro exI [of _ t]) simp
qed

end
