(* ===== verification/Refinement_Properties.thy ===== *)
theory Refinement_Properties
  imports Wire Store_System Check_Properties
begin

text \<open>
  The property that the object store, checks included, is its specification on shelves.
\<close>

text \<open>On a consistent store a complete check changes the error messages only, and leaves none.\<close>

lemma message_unknown:
  assumes "db_inv db" and "x \<notin> ob_id ` set (tb_object db)"
  shows "message db x = None"
proof -
  have "er_object e \<in> ob_id ` set (tb_object db)" if "e \<in> set (tb_object_error db)" for e
    using db_inv_error_object [OF assms(1) that] by (metis imageI)
  then have "x \<notin> er_object ` set (tb_object_error db)" using assms(2) by blast
  then show ?thesis by (simp add: message_def row_map_None_iff)
qed

lemma check_shelf:
  assumes inv: "store_inv L fs w" and "portal_law batches (w_db w)" and "check_begin L batches before w = Inr s"
    and "(check_step L fs (w_disk w) batch_size)\<^sup>*\<^sup>* s t" and "check_final t"
  shows "shelf_of L fs (w\<lparr>w_db := ck_db t\<rparr>) =
    (shelf_of L fs w)\<lparr>sf_catalogue := (abstract (w_db w))\<lparr>cg_errors := Map.empty\<rparr>\<rparr>"
proof -
  note D = store_invD [OF inv]
  note cinv = check_reachable_inv [OF assms(3,2) D(4) assms(4)]
  have ret: "ck_pc t = Returned" using cinv assms(5) by (auto simp: check_inv_def control_inv_def check_final_def split: check_pc.splits)
  have fr: "db_inv (ck_db t)" "tb_object (ck_db t) = tb_object (w_db w)" "tb_bucket (ck_db t) = tb_bucket (w_db w)"
    "tb_bucket_object (ck_db t) = tb_bucket_object (w_db w)"
    using cinv by (simp_all add: check_inv_def frame_inv_def)
  have none: "message (ck_db t) x = None" for x
  proof (cases "x \<in> ob_id ` set (tb_object (w_db w))")
    case True
    then obtain r where r: "r \<in> set (tb_object (w_db w))" "x = ob_id r" by blast
    show ?thesis
      using check_result_message [OF cinv ret r(1)] check_object_sound [OF inv r(1)] by (simp add: r(2))
  next
    case False
    then show ?thesis using message_unknown [OF fr(1)] fr(2) by simp
  qed
  have "abstract (ck_db t) = (abstract (w_db w))\<lparr>cg_errors := Map.empty\<rparr>"
    by (intro abstract_eqI) (simp_all add: abstract_def fr none)
  then show ?thesis by (simp add: shelf_of_db)
qed

text \<open>C2: The object store is its specification: whatever requests it serves in whatever order, it gives the
  answers, refusals included, that \<open>spec\<close> gives on the shelf, and leaves the world whose shelf \<open>spec\<close> leaves; a
  complete check only clears the recorded errors, and a new store is the empty shelf.\<close>

theorem store_refinement:
  assumes inv: "store_inv L fs w" and trim: "trim_law L"
  shows "apsnd (shelf_of L fs) (run_requests (serve L fs) qs w) = run_requests (spec L) qs (shelf_of L fs w) \<and>
    (\<forall>batches before s batch_size t. portal_law batches (w_db w) \<and> check_begin L batches before w = Inr s \<and>
       (check_step L fs (w_disk w) batch_size)\<^sup>*\<^sup>* s t \<and> check_final t \<longrightarrow>
       shelf_of L fs (w\<lparr>w_db := ck_db t\<rparr>) =
         (shelf_of L fs w)\<lparr>sf_catalogue := (abstract (w_db w))\<lparr>cg_errors := Map.empty\<rparr>\<rparr>) \<and>
    shelf_of L (home_fs home) (new_store home m) = empty_shelf"
  using store_service.run_refines [of L fs w qs] inv trim check_shelf [OF inv] shelf_of_new by blast

text \<open>The sample store, built by three requests: the answers are those of the specification on the empty shelf.\<close>

definition sample_requests :: "request list" where
  "sample_requests = [Ask_create 1 100 '' photos '', Ask_upload 7 (Some 5) [[104], [105]], Ask_commit 200 1 5]"

lemma sample_served:
  "run_requests (serve sample fs0) sample_requests w0 = ([Gives_bucket bucket1, Gives_part 5, Gives_object object5], w3)"
proof -
  have "store_create_bucket sample 1 100 '' photos '' w0 = (Inr bucket1, w1)"
    using create1(1) by (intro prod_eqI) (simp_all add: w1_def)
  moreover have "upload_part sample fs0 7 (Some 5) [[104], [105]] w1 = (5, w2)"
    using upload2(3) by (intro prod_eqI) (simp_all add: w2_def)
  moreover have "commit_part sample fs0 200 1 5 w2 = (Inr object5, w3)"
    using commit3(1) by (intro prod_eqI) (simp_all add: w3_def)
  ultimately show ?thesis by (simp add: sample_requests_def)
qed

theorem store_refinement_witness:
  "run_requests (spec sample) sample_requests empty_shelf =
     ([Gives_bucket bucket1, Gives_part 5, Gives_object object5], shelf_of sample fs0 w3)"
  using store_refinement [OF sample_inv(1) sample_laws(2), of sample_requests "[''data'']" "0x12"]
  by (simp add: sample_served fs0_def [symmetric] w0_def [symmetric])

section \<open>Clients\<close>

text \<open>C30: Client, protocol, server and store together are the specification of the store: whatever calls a client
  makes in whatever order, it gets what \<open>client_spec\<close> says of the shelf (objects, buckets, numbers, whole contents,
  and the exceptions of the protocol), and a call whose upload is sent in any pieces, by \<open>try_write\<close> or \<open>write\<close>, is
  the call with the whole data.\<close>

theorem client_refinement:
  assumes inv: "store_inv (cx_libs c) (cx_fs c) w" and trim: "trim_law (cx_libs c)" and split: "\<And>x. concat (split x) = x"
  shows "apsnd (shelf_of (cx_libs c) (cx_fs c)) (run_requests (client_step c split) qs w) =
      run_requests (client_spec (cx_libs c) (cx_info c)) qs (shelf_of (cx_libs c) (cx_fs c) w) \<and>
    (\<forall>blocks st. arrives (length (concat (map snd blocks)))
        (foldl part_sends [] (concat (map (\<lambda>(room, data). send_block room data) blocks))) st \<longrightarrow>
      client_spec (cx_libs c) (cx_info c) (g, t, Add_object b req st) S =
      client_spec (cx_libs c) (cx_info c) (g, t, Add_object b req
        \<lparr>up_chunks = [concat (map snd blocks)], up_fault = None\<rparr>) S)"
proof -
  have "service_inv c split w" using assms by (simp add: service_inv_def)
  from binary_service.run_refines [OF this] arrived_upload send_blocks_send [of "[]"] show ?thesis
    by (metis append_Nil)
qed

text \<open>A client downloads object 5 of the sample store, in two chunks.\<close>

definition sample_service :: request_context where
  "sample_service = \<lparr>cx_libs = sample, cx_fs = fs0, cx_info = \<lparr>si_version = ''1''\<rparr>, cx_generated = 7, cx_now = 300\<rparr>"

lemma sample_listing:
  "listing (abstract (w_db w3)) 1 5 = Some object5" "listing (abstract (w_db w3)) 1 6 = None"
  by (simp_all add: listing_abstract commit3(2) entry_def object_of_def db3_def db1_def empty_database_def
      object5_def to_object_def contents_row_def)

theorem client_refinement_witness:
  "fst (run_requests (client_step sample_service (\<lambda>x. [take 1 x, drop 1 x]))
     [(7, 300, Get_object 1 5), (7, 300, Get_object 1 6)] w3) =
   [Got_blob [104, 105], Thrown (object_not_found sample 1 6)]"
proof -
  let ?S = "shelf_of sample fs0 w3"
  note l5 = sample_listing(1) and l6 = sample_listing(2)
  let ?i = "\<lparr>si_version = ''1''\<rparr>"
  have s5: "client_spec sample ?i (7, 300, Get_object 1 5) ?S = (Got_blob [104, 105], ?S)"
    by (simp add: l5 content3) (simp add: object5_def)
  have "error_code (object_not_found sample 1 6) = Some 1" by (simp only: object_not_found_def error_code.simps)
  then have s6: "client_spec sample ?i (7, 300, Get_object 1 6) ?S = (Thrown (object_not_found sample 1 6), ?S)"
    by (simp add: l6)
  let ?split = "\<lambda>x. [take 1 x, drop 1 x] :: blob list"
  have cx: "cx_libs sample_service = sample" "cx_fs sample_service = fs0" "cx_info sample_service = \<lparr>si_version = ''1''\<rparr>"
    by (simp_all add: sample_service_def)
  have split: "\<And>x :: blob. concat [take 1 x, drop 1 x] = x" by simp
  have "fst (run_requests (client_step sample_service ?split) qs w3) =
      fst (apsnd (shelf_of sample fs0) (run_requests (client_step sample_service ?split) qs w3))" for qs
    by simp
  also have "\<dots> qs = fst (run_requests (client_spec sample \<lparr>si_version = ''1''\<rparr>) qs ?S)" for qs
    using client_refinement [of sample_service w3 ?split qs, unfolded cx, OF sample_inv(4) sample_laws(2) split] by (simp only: simp_thms)
  finally have r: "fst (run_requests (client_step sample_service ?split) qs w3) =
      fst (run_requests (client_spec sample \<lparr>si_version = ''1''\<rparr>) qs ?S)" for qs .
  show ?thesis
    unfolding r by (simp only: run_requests.simps s5 s6 prod.case fst_conv)
qed

end
