(* ===== verification/Interleaving.thy ===== *)
theory Interleaving
  imports Store_Behaviour Check_Laws Transitions
begin

text \<open>
  Requests in parallel and crashes.  The server runs its requests as coroutines, commands run in
  processes of their own beside it, and any of them may be killed.  \<open>commit_part\<close> and \<open>prune\<close> change the
  database and the disk, and suspend in between: here each is two steps, split at the database call
  (\<open>commit_record\<close> and \<open>settle\<close> are the halves of \<open>commit_part\<close>), and the steps of all requests interleave freely.
\<close>

section \<open>The halves of \<open>prune\<close>\<close>

text \<open>\<open>prune\<close> up to the rows it gets from the database; then it removes their files one by one.\<close>

definition prune_record :: "world \<Rightarrow> (error, db_object list, world) outcome" where
  "prune_record w = on_db (connection_remove_orphan_objects connect) w"

lemma prune_record_eq:
  "prune_record w = (Inr (fst (sql_remove_orphan_objects (w_db w))), w\<lparr>w_db := snd (sql_remove_orphan_objects (w_db w))\<rparr>)"
  by (cases "sql_remove_orphan_objects (w_db w)") (simp add: prune_record_def on_db_def
      connection_remove_orphan_objects_def fetch_rows_prepared_def prepared_provide)

definition remove_file :: "libs \<Rightarrow> filesystem \<Rightarrow> uuid \<Rightarrow> world \<Rightarrow> (error, unit, world) outcome" where
  "remove_file L fs x w = on_disk (remove_object_file fs (uuid_text L x)) w"

section \<open>The halves of a download\<close>

text \<open>\<open>get_object\<close> gets the row from the database, and then opens the file.\<close>

definition finish_download :: "libs \<Rightarrow> filesystem \<Rightarrow> uuid \<Rightarrow> object \<Rightarrow> world \<Rightarrow> (error, object \<times> blob, world) outcome" where
  "finish_download L fs x meta w = and_then (from_disk (open_object fs (uuid_text L x)) w) (\<lambda>fd w. (Inr (meta, fd), w))"

lemma get_object_halves: "get_object L fs b x w = and_then (get_object_metadata L b x w) (finish_download L fs x)"
  by (simp add: get_object_def finish_download_def [abs_def])

lemma finish_download_eq:
  assumes "uuid_law L" and "disk_inv fs (w_disk w)"
  shows "finish_download L fs x meta w =
    (case stored L fs (w_disk w) x of None \<Rightarrow> (Inl (File_error No_such_file), w) | Some c \<Rightarrow> (Inr (meta, c), w))"
  using open_object_eq [OF assms, of x] by (simp add: finish_download_def from_disk_def and_then_def split: option.split)

section \<open>The system\<close>

text \<open>
  The world, the commits whose row is recorded and whose part is not settled, and the files that a
  \<open>prune\<close> has still to remove.
\<close>

record system =
  sy_world :: world
  sy_commits :: "(uuid \<times> db_object) list"
  sy_removals :: "uuid list"

abbreviation sy_db :: "system \<Rightarrow> database" where
  "sy_db s \<equiv> w_db (sy_world s)"

abbreviation sy_disk :: "system \<Rightarrow> disk" where
  "sy_disk s \<equiv> w_disk (sy_world s)"

definition ids :: "database \<Rightarrow> uuid set" where
  "ids db = ob_id ` set (tb_object db)"

text \<open>
  The steps, with what each does as its label.  Any request can take any step at any time; \<open>commit_record\<close> takes a
  part's digest and records it with one database call.  A crash loses what the processes had in hand.
\<close>

datatype deed = Writes uuid | Records uuid | Refuses uuid | Settles uuid | Lists_orphans | Erases uuid
  | Changes_buckets | Crashes

inductive server_step :: "libs \<Rightarrow> filesystem \<Rightarrow> system \<Rightarrow> deed \<Rightarrow> system \<Rightarrow> bool" for L fs where
  Write: "server_step L fs s (Writes i) (s\<lparr>sy_world := snd (upload_part L fs g (Some i) chunks (sy_world s))\<rparr>)"
| Record: "commit_record L fs now b i (sy_world s) = (Inr e, w') \<Longrightarrow>
    server_step L fs s (Records i) (s\<lparr>sy_world := w', sy_commits := (i, e) # sy_commits s\<rparr>)"
| Refuse: "commit_record L fs now b i (sy_world s) = (Inl err, w') \<Longrightarrow>
    server_step L fs s (Refuses i) (s\<lparr>sy_world := w'\<rparr>)"
| Settle: "(i, e) \<in> set (sy_commits s) \<Longrightarrow> settle L fs i e (sy_world s) = (r, w') \<Longrightarrow>
    server_step L fs s (Settles i) (s\<lparr>sy_world := w', sy_commits := remove1 (i, e) (sy_commits s)\<rparr>)"
| Orphans: "prune_record (sy_world s) = (Inr orphans, w') \<Longrightarrow>
    server_step L fs s Lists_orphans (s\<lparr>sy_world := w', sy_removals := sy_removals s @ map db_o_id orphans\<rparr>)"
| Erase: "x \<in> set (sy_removals s) \<Longrightarrow> remove_file L fs x (sy_world s) = (r, w') \<Longrightarrow>
    server_step L fs s (Erases x) (s\<lparr>sy_world := w', sy_removals := remove1 x (sy_removals s)\<rparr>)"
| Create_bucket: "server_step L fs s Changes_buckets (s\<lparr>sy_world := snd (store_create_bucket L i now name (sy_world s))\<rparr>)"
| Remove_bucket: "server_step L fs s Changes_buckets (s\<lparr>sy_world := snd (store_remove_bucket b (sy_world s))\<rparr>)"
| Remove_object: "server_step L fs s Changes_buckets (s\<lparr>sy_world := snd (store_remove_object L b x (sy_world s))\<rparr>)"
| Remove_objects: "server_step L fs s Changes_buckets (s\<lparr>sy_world := snd (store_remove_objects L b xs (sy_world s))\<rparr>)"
| Rename_bucket: "server_step L fs s Changes_buckets (s\<lparr>sy_world := snd (store_rename_bucket L b name (sy_world s))\<rparr>)"
| Crash: "server_step L fs s Crashes (s\<lparr>sy_commits := [], sy_removals := []\<rparr>)"

inductive_cases server_stepE: "server_step L fs s a t"

text \<open>
  What the clients do, and the server does not enforce: ids of parts are generated at random, so nothing writes to a
  part whose commit has begun or that has become an object, a part is not committed twice at once, and an id whose
  file is waiting to be removed is not committed again.  \<open>Part_Reuse\<close> has what happens otherwise.
\<close>

fun part_ids_apart :: "deed \<Rightarrow> system \<Rightarrow> bool" where
  "part_ids_apart (Writes i) s \<longleftrightarrow> i \<notin> ids (sy_db s) \<and> i \<notin> fst ` set (sy_commits s)"
| "part_ids_apart (Records i) s \<longleftrightarrow> i \<notin> fst ` set (sy_commits s) \<and> i \<notin> set (sy_removals s)"
| "part_ids_apart _ s \<longleftrightarrow> True"

abbreviation apart_step :: "libs \<Rightarrow> filesystem \<Rightarrow> system \<Rightarrow> system \<Rightarrow> bool" where
  "apart_step L fs s t \<equiv> \<exists>a. server_step L fs s a t \<and> part_ids_apart a s"

section \<open>What holds however part ids are used\<close>

definition consistent :: "libs \<Rightarrow> filesystem \<Rightarrow> system \<Rightarrow> bool" where
  "consistent L fs s \<longleftrightarrow> laws L \<and> db_inv (sy_db s) \<and> disk_inv fs (sy_disk s)"

lemma consistentD:
  assumes "consistent L fs s"
  shows "laws L" "uuid_law L" "db_inv (sy_db s)" "disk_inv fs (sy_disk s)"
  using assms by (simp_all add: consistent_def laws_def)

lemma settle_consistent:
  assumes law: "uuid_law L" and inv: "disk_inv fs (w_disk w)" and st: "settle L fs i e w = (r, w')"
  shows "w_db w' = w_db w \<and> disk_inv fs (w_disk w') \<and>
    (r = Inr (to_object e) \<longleftrightarrow> db_o_id e \<noteq> i \<or> staged L fs (w_disk w) i \<noteq> None)"
proof (cases "staged L fs (w_disk w) i")
  case (Some c)
  then show ?thesis using st by (rule_tac settle_eq [OF law inv Some, of e]) auto
next
  case None
  then show ?thesis
    using st commit_miss_disk [OF law inv None] drop_disk [OF inv, of L i]
    by (auto simp: settle_def and_then_def on_disk_def split: if_splits)
qed

lemma commit_record_consistent:
  assumes laws: "laws L" and inv: "db_inv (w_db w)" "disk_inv fs (w_disk w)"
    and c: "commit_record L fs now b i w = (r, w')"
  shows "db_inv (w_db w') \<and> w_disk w' = w_disk w"
proof (cases r)
  case (Inl e)
  then have "commit_part L fs now b i w = (Inl e, w')" using c by (simp add: commit_part_halves)
  from commit_part_error [OF laws inv this] show ?thesis using inv by simp
next
  case (Inr e)
  with c have ok: "commit_record L fs now b i w = (Inr e, w')" by simp
  obtain c where hit: "staged L fs (w_disk w) i = Some c"
    using ok commit_record_miss [OF inv(2)] by (cases "staged L fs (w_disk w) i") auto
  obtain m rows db' where "split_mime (magic_file L c) = Inr m"
    "sql_add_object b i (sha256sum L c) (recorded_size c) (m_type m) (m_subtype m) now (w_db w) = Inr (rows, db')"
    "w' = w\<lparr>w_db := db'\<rparr>"
    using ok unfolding commit_record_hit [OF laws inv hit] by (auto split: sum.splits prod.splits)
  then show ?thesis using sql_add_object_Inr [OF inv(1) recorded_size_int64] by fastforce
qed

lemma server_step_consistent:
  assumes inv: "consistent L fs s" and step: "server_step L fs s a t" shows "consistent L fs t"
  using step
proof cases
  case (Write i g chunks)
  then show ?thesis using inv stage_disk(1) by (simp add: consistent_def upload_part_eq)
next
  case (Record now b i e w')
  then show ?thesis
    using inv commit_record_consistent [OF consistentD(1,3,4) [OF inv] Record(3)] by (simp add: consistent_def)
next
  case (Refuse now b i e w')
  then show ?thesis
    using inv commit_record_consistent [OF consistentD(1,3,4) [OF inv] Refuse(3)] by (simp add: consistent_def)
next
  case (Settle i e r w')
  then show ?thesis
    using inv settle_consistent [OF consistentD(2,4) [OF inv] Settle(4)] by (simp add: consistent_def)
next
  case (Orphans orphans w')
  then show ?thesis using inv sql_prune_inv by (auto simp: consistent_def prune_record_eq)
next
  case (Erase x r w')
  then show ?thesis
    using inv erase_disk [OF consistentD(2,4) [OF inv], of x] by (auto simp: consistent_def remove_file_def on_disk_def)
qed (use inv in \<open>simp_all add: consistent_def store_create_bucket_def store_remove_bucket_def store_remove_object_def
      store_remove_objects_def store_rename_bucket_def connection_inv split: sum.split\<close>)

interpretation any_ids: guarded_system "server_step L fs" "\<lambda>_ _. True" "consistent L fs" for L fs
  by unfold_locales (rule server_step_consistent)

section \<open>The invariant\<close>

text \<open>The content of an object: that of its part as long as there is one, else that of its file.\<close>

definition content_at :: "libs \<Rightarrow> filesystem \<Rightarrow> disk \<Rightarrow> uuid \<Rightarrow> blob option" where
  "content_at L fs d x = (case staged L fs d x of Some c \<Rightarrow> Some c | None \<Rightarrow> stored L fs d x)"

definition recoverable :: "libs \<Rightarrow> filesystem \<Rightarrow> world \<Rightarrow> bool" where
  "recoverable L fs w \<longleftrightarrow> (\<forall>r \<in> set (tb_object (w_db w)).
     map_option (sha256sum L) (content_at L fs (w_disk w) (ob_id r)) = Some (ob_hash r))"

definition commits_inv :: "libs \<Rightarrow> filesystem \<Rightarrow> system \<Rightarrow> bool" where
  "commits_inv L fs s \<longleftrightarrow> distinct (map fst (sy_commits s)) \<and>
     (\<forall>(i, e) \<in> set (sy_commits s). staged L fs (sy_disk s) i \<noteq> None \<and>
        (db_o_id e \<noteq> i \<longrightarrow> i \<notin> ids (sy_db s)))"

definition system_inv :: "libs \<Rightarrow> filesystem \<Rightarrow> system \<Rightarrow> bool" where
  "system_inv L fs s \<longleftrightarrow> laws L \<and> db_inv (sy_db s) \<and> disk_inv fs (sy_disk s) \<and>
     recoverable L fs (sy_world s) \<and> commits_inv L fs s \<and> set (sy_removals s) \<inter> ids (sy_db s) = {}"

lemma system_invD:
  assumes "system_inv L fs s"
  shows "laws L" "uuid_law L" "db_inv (sy_db s)" "disk_inv fs (sy_disk s)" "recoverable L fs (sy_world s)"
    "commits_inv L fs s" "set (sy_removals s) \<inter> ids (sy_db s) = {}"
  using assms by (simp_all add: system_inv_def laws_def)

text \<open>A step that changes neither the disk nor the catalogue's objects.\<close>

lemma system_inv_on_db:
  assumes "system_inv L fs s" and "db_inv (w_db w)" and "w_disk w = sy_disk s"
    and "tb_object (w_db w) = tb_object (sy_db s)"
  shows "system_inv L fs (s\<lparr>sy_world := w\<rparr>)"
  using assms by (simp add: system_inv_def recoverable_def commits_inv_def ids_def)

lemma db_steps_inv:
  assumes inv: "system_inv L fs s"
  shows "system_inv L fs (s\<lparr>sy_world := snd (store_create_bucket L i now n (sy_world s))\<rparr>)"
    and "system_inv L fs (s\<lparr>sy_world := snd (store_remove_bucket b (sy_world s))\<rparr>)"
    and "system_inv L fs (s\<lparr>sy_world := snd (store_remove_object L b x (sy_world s))\<rparr>)"
    and "system_inv L fs (s\<lparr>sy_world := snd (store_remove_objects L b xs (sy_world s))\<rparr>)"
    and "system_inv L fs (s\<lparr>sy_world := snd (store_rename_bucket L b n (sy_world s))\<rparr>)"
  using system_invD(3) [OF inv] inv
  by (auto simp: store_create_bucket_def store_remove_bucket_def store_remove_object_def
      store_remove_objects_def store_rename_bucket_def connection_objects connection_inv
      intro!: system_inv_on_db split: sum.split)

section \<open>Every step keeps it\<close>

lemma commit_record_add:
  assumes laws: "laws L" and inv: "db_inv (w_db w)" "disk_inv fs (w_disk w)"
    and ok: "commit_record L fs now b i w = (Inr e, w')"
  obtains c and m :: mime and db' where "staged L fs (w_disk w) i = Some c" "w' = w\<lparr>w_db := db'\<rparr>" "db_inv db'"
    "entry db' b (db_o_id e) = Some e" "db_o_hash e = sha256sum L c"
    "sql_add_object b i (sha256sum L c) (recorded_size c) (m_type m) (m_subtype m) now (w_db w) = Inr ([e], db')"
proof -
  obtain c where c: "staged L fs (w_disk w) i = Some c"
    using ok commit_record_miss [OF inv(2)] by (cases "staged L fs (w_disk w) i") auto
  obtain m rows db' where "split_mime (magic_file L c) = Inr m" and
    add: "sql_add_object b i (sha256sum L c) (recorded_size c) (m_type m) (m_subtype m) now (w_db w) = Inr (rows, db')"
    and w': "e = hd rows" "w' = w\<lparr>w_db := db'\<rparr>"
    using ok unfolding commit_record_hit [OF laws inv c] by (auto split: sum.splits prod.splits)
  obtain e' where "rows = [e']" "entry db' b (db_o_id e') = Some e'" "db_o_hash e' = sha256sum L c" "db_inv db'"
    using sql_add_object_Inr [OF inv(1) recorded_size_int64 add] by metis
  with c add w' show ?thesis by (intro that [of c db' m]) simp_all
qed

lemma commit_record_ok:
  assumes laws: "laws L" and inv: "db_inv (w_db w)" "disk_inv fs (w_disk w)"
    and ok: "commit_record L fs now b i w = (Inr e, w')"
  obtains c r where "staged L fs (w_disk w) i = Some c" "w_disk w' = w_disk w" "db_inv (w_db w')"
    "r \<in> set (tb_object (w_db w'))" "ob_id r = db_o_id e" "ob_hash r = sha256sum L c"
    "tb_object (w_db w') = tb_object (w_db w) \<or>
     (\<exists>q. tb_object (w_db w') = tb_object (w_db w) @ [q] \<and> ob_id q = i \<and> ob_hash q = sha256sum L c)"
proof (rule commit_record_add [OF assms])
  fix c db' and m :: mime
  assume c: "staged L fs (w_disk w) i = Some c" and w': "w' = w\<lparr>w_db := db'\<rparr>" "db_inv db'"
    and e: "entry db' b (db_o_id e) = Some e" "db_o_hash e = sha256sum L c"
    and add: "sql_add_object b i (sha256sum L c) (recorded_size c) (m_type m) (m_subtype m) now (w_db w) = Inr ([e], db')"
  let ?r = "object_of db' (db_o_id e)"
  have "?r \<in> set (tb_object db')" "ob_id ?r = db_o_id e" "ob_hash ?r = sha256sum L c"
    using entry_SomeD(3,4) [OF w'(2) e(1)] object_of_ref [OF w'(2)] e(2) by auto
  with c w' sql_add_object_objects(1) [OF inv(1) add] show ?thesis
    by (intro that [of c ?r]) (auto split: if_splits)
qed

lemma write_step_inv:
  assumes inv: "system_inv L fs s" and new: "i \<notin> ids (sy_db s)" "i \<notin> fst ` set (sy_commits s)"
  shows "system_inv L fs (s\<lparr>sy_world := snd (upload_part L fs g (Some i) chunks (sy_world s))\<rparr>)"
proof -
  note D = system_invD [OF inv] and S = stage_disk [OF system_invD(4) [OF inv], of L i chunks]
  have st: "staged L fs (write_part L fs i chunks (sy_disk s)) u = staged L fs (sy_disk s) u" if "u \<noteq> i" for u
    using S(3) [OF D(2)] that by simp
  have "content_at L fs (write_part L fs i chunks (sy_disk s)) u = content_at L fs (sy_disk s) u" if "u \<noteq> i" for u
    using st [OF that] S(2) by (simp add: content_at_def split: option.split)
  moreover have "ob_id r \<noteq> i" if "r \<in> set (tb_object (sy_db s))" for r using that new(1) by (auto simp: ids_def)
  moreover have "j \<noteq> i" if "(j, e) \<in> set (sy_commits s)" for j e using that new(2) by force
  ultimately show ?thesis
    using inv S(1) st by (auto simp: system_inv_def recoverable_def commits_inv_def upload_part_eq)
qed

lemma record_step_inv:
  assumes inv: "system_inv L fs s" and new: "i \<notin> fst ` set (sy_commits s)" "i \<notin> set (sy_removals s)"
    and ok: "commit_record L fs now b i (sy_world s) = (Inr e, w')"
  shows "system_inv L fs (s\<lparr>sy_world := w', sy_commits := (i, e) # sy_commits s\<rparr>)"
proof -
  note D = system_invD [OF inv]
  show ?thesis
  proof (rule commit_record_ok [OF D(1,3,4) ok])
    fix c r
    let ?rows = "tb_object (sy_db s)"
    assume c: "staged L fs (sy_disk s) i = Some c" and disk: "w_disk w' = sy_disk s" and db: "db_inv (w_db w')"
      and r: "r \<in> set (tb_object (w_db w'))" "ob_id r = db_o_id e" "ob_hash r = sha256sum L c"
      and rows: "tb_object (w_db w') = ?rows \<or>
        (\<exists>q. tb_object (w_db w') = ?rows @ [q] \<and> ob_id q = i \<and> ob_hash q = sha256sum L c)"
    have rec: "recoverable L fs w'"
      using D(5) rows c by (auto simp: recoverable_def disk content_at_def)
    have sub: "ids (w_db w') \<subseteq> insert i (ids (sy_db s))" using rows by (auto simp: ids_def)
    have own: "i \<notin> ids (w_db w')" if "db_o_id e \<noteq> i"
    proof
      assume "i \<in> ids (w_db w')"
      then obtain q where q: "q \<in> set (tb_object (w_db w'))" "ob_id q = i" by (auto simp: ids_def)
      then have "ob_hash q = ob_hash r" using rec c r(3) by (force simp: recoverable_def disk content_at_def)
      then have "q = r" using db_invD(4) [OF db] q(1) r(1) by (auto simp: distinct_map dest: inj_onD)
      with that q r(2) show False by simp
    qed
    from inv c disk db rec own sub new show ?thesis
      by (force simp: system_inv_def commits_inv_def)
  qed
qed

lemma settle_step_inv:
  assumes inv: "system_inv L fs s" and mem: "(i, e) \<in> set (sy_commits s)"
    and st: "settle L fs i e (sy_world s) = (r, w')"
  shows "system_inv L fs (s\<lparr>sy_world := w', sy_commits := remove1 (i, e) (sy_commits s)\<rparr>)"
proof -
  note D = system_invD [OF inv]
  obtain c where c: "staged L fs (sy_disk s) i = Some c" and own: "db_o_id e \<noteq> i \<longrightarrow> i \<notin> ids (sy_db s)"
    using D(6) mem by (auto simp: commits_inv_def)
  have keys: "inj_on fst (set (sy_commits s))" "distinct (sy_commits s)"
    using D(6) by (simp_all add: commits_inv_def distinct_map)
  have once: "set (remove1 (i, e) (sy_commits s)) = set (sy_commits s) - {(i, e)}"
    using keys(2) by (rule set_remove1_eq)
  have other: "j \<noteq> i" if "(j, e') \<in> set (sy_commits s)" "(j, e') \<noteq> (i, e)" for j e'
    using inj_onD [OF keys(1) _ that(1) mem] that by auto
  show ?thesis
  proof (rule settle_eq [OF D(2,4) c, of e])
    fix d'
    assume s': "settle L fs i e (sy_world s) = (Inr (to_object e), (sy_world s)\<lparr>w_disk := d'\<rparr>)"
      and d': "disk_inv fs d'" "staged L fs d' = (staged L fs (sy_disk s))(i := None)"
        "stored L fs d' = (if db_o_id e = i then (stored L fs (sy_disk s))(i \<mapsto> c) else stored L fs (sy_disk s))"
    have w': "w' = (sy_world s)\<lparr>w_disk := d'\<rparr>" using st s' by simp
    have "content_at L fs d' x = content_at L fs (sy_disk s) x" if "x \<in> ids (sy_db s)" for x
      using own that c by (auto simp: content_at_def d'(2,3) split: option.split)
    then have "recoverable L fs w'" using D(5) by (auto simp: recoverable_def w' ids_def)
    moreover have "distinct (map fst (remove1 (i, e) (sy_commits s)))"
      using keys by (simp add: distinct_map distinct_remove1 once) (rule inj_on_subset, auto)
    moreover have "staged L fs d' j \<noteq> None \<and> (db_o_id e' \<noteq> j \<longrightarrow> j \<notin> ids (sy_db s))"
      if "(j, e') \<in> set (remove1 (i, e) (sy_commits s))" for j e'
      using that other [of j e'] D(6) by (auto simp: commits_inv_def d'(2) once)
    ultimately show ?thesis
      using inv d'(1) by (auto simp: system_inv_def commits_inv_def w')
  qed
qed

lemma orphans_step_inv:
  assumes inv: "system_inv L fs s" and ok: "prune_record (sy_world s) = (Inr orphans, w')"
  shows "system_inv L fs (s\<lparr>sy_world := w', sy_removals := sy_removals s @ map db_o_id orphans\<rparr>)"
proof -
  note D = system_invD [OF inv]
  let ?db = "sy_db s" and ?db' = "snd (sql_remove_orphan_objects (sy_db s))"
  have o: "map db_o_id orphans = map ob_id (filter (\<lambda>r. ob_id r \<notin> referenced ?db) (tb_object ?db))"
    and w': "w' = (sy_world s)\<lparr>w_db := ?db'\<rparr>"
    using ok by (auto simp: prune_record_eq sql_prune_eq(1))
  have ids': "ids ?db' = {x \<in> ids ?db. x \<in> referenced ?db}" by (auto simp: ids_def sql_prune_eq(2))
  have "recoverable L fs w'" using D(5) by (simp add: recoverable_def w' sql_prune_eq(2))
  moreover have "commits_inv L fs (s\<lparr>sy_world := w', sy_removals := rs\<rparr>)" for rs
    using D(6) ids' by (auto simp: commits_inv_def w')
  moreover have "set (sy_removals s @ map db_o_id orphans) \<inter> ids ?db' = {}"
    using D(7) ids' by (auto simp: o)
  ultimately show ?thesis
    using D(1,4) sql_prune_inv [OF D(3)] by (simp add: system_inv_def w')
qed

lemma erase_step_inv:
  assumes inv: "system_inv L fs s" and x: "x \<in> set (sy_removals s)"
    and ok: "remove_file L fs x (sy_world s) = (r, w')"
  shows "system_inv L fs (s\<lparr>sy_world := w', sy_removals := remove1 x (sy_removals s)\<rparr>)"
proof -
  note D = system_invD [OF inv]
  obtain d' where d': "remove_object_file fs (uuid_text L x) (sy_disk s) = (Inr (), d')" "disk_inv fs d'"
    "stored L fs d' = (stored L fs (sy_disk s))(x := None)" "staged L fs d' = staged L fs (sy_disk s)"
    using erase_disk [OF D(2,4)] by blast
  have w': "w' = (sy_world s)\<lparr>w_disk := d'\<rparr>" using ok d'(1) by (simp add: remove_file_def on_disk_def)
  have "x \<notin> ids (sy_db s)" using D(7) x by blast
  then have "content_at L fs d' u = content_at L fs (sy_disk s) u" if "u \<in> ids (sy_db s)" for u
    using that d'(3,4) by (auto simp: content_at_def split: option.split)
  then have "recoverable L fs w'" using D(5) by (auto simp: recoverable_def w' ids_def)
  moreover have "set (remove1 x (sy_removals s)) \<inter> ids (sy_db s) = {}"
    using D(7) set_remove1_subset [of x "sy_removals s"] by blast
  ultimately show ?thesis using inv d'(2,4) by (simp add: system_inv_def commits_inv_def w')
qed

lemma refuse_step_inv:
  assumes inv: "system_inv L fs s" and err: "commit_record L fs now b i (sy_world s) = (Inl e, w')"
  shows "system_inv L fs (s\<lparr>sy_world := w'\<rparr>)"
proof -
  note D = system_invD [OF inv]
  have "commit_part L fs now b i (sy_world s) = (Inl e, w')" using err by (simp add: commit_part_halves)
  then have "w' = sy_world s" using commit_part_error [OF D(1,3,4)] by simp
  then show ?thesis using inv by simp
qed

lemma crash_inv: "system_inv L fs s \<Longrightarrow> system_inv L fs (s\<lparr>sy_commits := [], sy_removals := []\<rparr>)"
  by (simp add: system_inv_def commits_inv_def)

lemma server_step_inv:
  assumes "system_inv L fs s" and "server_step L fs s a t" and "part_ids_apart a s" shows "system_inv L fs t"
  using assms(2,3)
  by cases (auto simp: assms(1) db_steps_inv crash_inv write_step_inv record_step_inv settle_step_inv
      orphans_step_inv erase_step_inv refuse_step_inv)

interpretation server: guarded_system "server_step L fs" part_ids_apart "system_inv L fs" for L fs
  by unfold_locales (rule server_step_inv)

section \<open>The content of one object\<close>

text \<open>What the two places an object's content may be in hold: the one content, or nothing; with \<open>gone\<close> there is no part.\<close>

definition holds_only :: "libs \<Rightarrow> filesystem \<Rightarrow> uuid \<Rightarrow> blob \<Rightarrow> bool \<Rightarrow> system \<Rightarrow> bool" where
  "holds_only L fs x c gone s \<longleftrightarrow> staged L fs (sy_disk s) x \<in> {None, Some c} \<and> (gone \<longrightarrow> staged L fs (sy_disk s) x = None) \<and> stored L fs (sy_disk s) x \<in> {None, Some c}"

lemma holds_only_write:
  assumes inv: "system_inv L fs s" and h: "holds_only L fs x c gone s" and "i \<noteq> x"
  shows "holds_only L fs x c gone (s\<lparr>sy_world := snd (upload_part L fs g (Some i) chunks (sy_world s))\<rparr>)"
  using h assms(3) stage_disk(2,3) [OF system_invD(4) [OF inv]] system_invD(2) [OF inv]
  by (auto simp: holds_only_def upload_part_eq)

lemma holds_only_settle:
  assumes inv: "system_inv L fs s" and h: "holds_only L fs x c gone s"
    and st: "(i, e) \<in> set (sy_commits s)" "settle L fs i e (sy_world s) = (r, w')"
  shows "holds_only L fs x c gone (s\<lparr>sy_world := w', sy_commits := cs\<rparr>)"
proof -
  note D = system_invD [OF inv]
  obtain k where k: "staged L fs (sy_disk s) i = Some k" using D(6) st(1) by (fastforce simp: commits_inv_def)
  show ?thesis
    by (rule settle_eq [OF D(2,4) k, of e]) (use h k st in \<open>auto simp: holds_only_def\<close>)
qed

lemma holds_only_erase:
  assumes inv: "system_inv L fs s" and h: "holds_only L fs x c gone s" and ok: "remove_file L fs y (sy_world s) = (r, w')"
  shows "holds_only L fs x c gone (s\<lparr>sy_world := w', sy_removals := rs\<rparr>)"
  using h ok erase_disk [OF system_invD(2,4) [OF inv], of y]
  by (auto simp: holds_only_def remove_file_def on_disk_def split: if_splits)

text \<open>No new upload takes the object's id.\<close>

lemma server_holds_only:
  assumes inv: "system_inv L fs s \<and> holds_only L fs x c gone s" and step: "server_step L fs s a t"
    and apart: "part_ids_apart a s \<and> a \<noteq> Writes x"
  shows "system_inv L fs t \<and> holds_only L fs x c gone t"
proof -
  have s: "system_inv L fs s" and h: "holds_only L fs x c gone s" using inv by simp_all
  note D = system_invD [OF s]
  from step have "holds_only L fs x c gone t"
  proof cases
    case (Write i g chunks)
    then show ?thesis using holds_only_write [OF s h] apart by auto
  next
    case (Record now b i e w')
    then show ?thesis using h commit_record_consistent [OF D(1,3,4) Record(3)] by (simp add: holds_only_def)
  next
    case (Refuse now b i e w')
    then show ?thesis using h commit_record_consistent [OF D(1,3,4) Refuse(3)] by (simp add: holds_only_def)
  next
    case (Settle i e r w')
    then show ?thesis using holds_only_settle [OF s h] by simp
  next
    case (Orphans orphans w')
    then show ?thesis using h by (auto simp: holds_only_def prune_record_eq)
  next
    case (Erase y r w')
    then show ?thesis using holds_only_erase [OF s h] by simp
  qed (use h in \<open>simp_all add: holds_only_def store_create_bucket_def store_remove_bucket_def store_remove_object_def
      store_remove_objects_def store_rename_bucket_def split: sum.split\<close>)
  with server_step_inv [OF s step] apart show ?thesis by blast
qed

interpretation kept: guarded_system "server_step L fs" "\<lambda>a s. part_ids_apart a s \<and> a \<noteq> Writes x"
    "\<lambda>s. system_inv L fs s \<and> holds_only L fs x c gone s" for L fs x c gone
  by unfold_locales (rule server_holds_only)

lemma metadata_entry:
  assumes inv: "system_inv L fs s"
  shows "fst (get_object_metadata L b x (sy_world s)) =
    (case entry (sy_db s) b x of None \<Rightarrow> Inl (object_not_found L b x) | Some e \<Rightarrow> Inr (to_object e))"
proof -
  note D = system_invD [OF inv]
  have "fetch_law L" using D(1) by (simp add: laws_def)
  then show ?thesis using D(3) by (simp add: metadata_on split: option.split)
qed

end
