(* ===== verification/Linear.thy ===== *)
theory Linear
  imports Store_Refinement Interleaving
begin

text \<open>
  Requests that run at the same time, against the specification of requests that run one after the other: a
  commit and a \<open>prune\<close> take effect at their database call, although the files follow later.
\<close>

section \<open>The shelf of a working server\<close>

text \<open>The part of a commit that is recorded is the content of its object already, and is no part any more.\<close>

definition settled_shelf :: "libs \<Rightarrow> filesystem \<Rightarrow> system \<Rightarrow> shelf" where
  "settled_shelf L fs s = \<lparr>sf_catalogue = abstract (sy_db s),
     sf_content = content_at L fs (sy_disk s) |` ids (sy_db s),
     sf_parts = staged L fs (sy_disk s) |` (- fst ` set (sy_commits s))\<rparr>"

lemma settled_shelf_simps [simp]:
  "sf_catalogue (settled_shelf L fs s) = abstract (sy_db s)"
  "sf_content (settled_shelf L fs s) = content_at L fs (sy_disk s) |` ids (sy_db s)"
  "sf_parts (settled_shelf L fs s) = staged L fs (sy_disk s) |` (- fst ` set (sy_commits s))"
  by (simp_all add: settled_shelf_def)

text \<open>
  The steps of \<open>server_step\<close>, with the request and its answer where it takes effect, and the requests that only concern
  the database.  A download is no step: it is two, with others in between.
\<close>

inductive live_step :: "libs \<Rightarrow> filesystem \<Rightarrow> system \<Rightarrow> (request \<times> answer) option \<Rightarrow> system \<Rightarrow> bool" for L fs where
  Uploads: "live_step L fs s (Some (Ask_upload g (Some i) chunks, Gives_part i))
      (s\<lparr>sy_world := snd (upload_part L fs g (Some i) chunks (sy_world s))\<rparr>)"
| Commits: "commit_record L fs now b i (sy_world s) = (Inr e, w') \<Longrightarrow>
    live_step L fs s (Some (Ask_commit now b i, Gives_object (to_object e)))
      (s\<lparr>sy_world := w', sy_commits := (i, e) # sy_commits s\<rparr>)"
| Refuses: "commit_record L fs now b i (sy_world s) = (Inl err, w') \<Longrightarrow>
    live_step L fs s (Some (Ask_commit now b i, Refused err)) (s\<lparr>sy_world := w'\<rparr>)"
| Settles: "(i, e) \<in> set (sy_commits s) \<Longrightarrow> settle L fs i e (sy_world s) = (r, w') \<Longrightarrow>
    live_step L fs s None (s\<lparr>sy_world := w', sy_commits := remove1 (i, e) (sy_commits s)\<rparr>)"
| Prunes: "prune_record (sy_world s) = (Inr orphans, w') \<Longrightarrow>
    live_step L fs s (Some (Ask_prune, Gives_pruned (mset (map to_object orphans))))
      (s\<lparr>sy_world := w', sy_removals := sy_removals s @ map db_o_id orphans\<rparr>)"
| Erases: "x \<in> set (sy_removals s) \<Longrightarrow> remove_file L fs x (sy_world s) = (r, w') \<Longrightarrow>
    live_step L fs s None (s\<lparr>sy_world := w', sy_removals := remove1 x (sy_removals s)\<rparr>)"
| Answers: "db_request q \<Longrightarrow> serve L fs q (sy_world s) = (a, w') \<Longrightarrow>
    live_step L fs s (Some (q, a)) (s\<lparr>sy_world := w'\<rparr>)"

inductive_cases live_stepE: "live_step L fs s l t"

text \<open>Part ids are kept apart; this is what the clients do, not what the server enforces.\<close>

fun live_apart :: "(request \<times> answer) option \<Rightarrow> system \<Rightarrow> bool" where
  "live_apart (Some (Ask_upload g (Some i) chunks, a)) s \<longleftrightarrow> part_ids_apart (Writes i) s"
| "live_apart (Some (Ask_commit now b i, a)) s \<longleftrightarrow> part_ids_apart (Records i) s"
| "live_apart _ s \<longleftrightarrow> True"

text \<open>The requests of a run with their answers.\<close>

fun served :: "('s \<times> 'a option) list \<Rightarrow> 'a list" where
  "served [] = []"
| "served ((s, None) # tr) = served tr"
| "served ((s, Some a) # tr) = a # served tr"

lemma served_append [simp]: "served (tr @ tr') = served tr @ served tr'"
  by (induction tr rule: served.induct) simp_all

fun uploads_to :: "uuid \<Rightarrow> (request \<times> answer) option \<Rightarrow> bool" where
  "uploads_to x (Some (Ask_upload g (Some i) chunks, a)) \<longleftrightarrow> i = x"
| "uploads_to x _ \<longleftrightarrow> False"

section \<open>They keep the invariant\<close>

lemma serve_db_objects: "db_request q \<Longrightarrow> tb_object (w_db (snd (serve L fs q w))) = tb_object (w_db w)"
  by (cases q) (simp_all add: store_create_bucket_def store_rename_bucket_def store_remove_bucket_def
      store_remove_object_def store_remove_objects_def connection_objects split: sum.split)

lemma serve_db_inv: "db_request q \<Longrightarrow> db_inv (w_db w) \<Longrightarrow> db_inv (w_db (snd (serve L fs q w)))"
  by (cases q) (simp_all add: store_create_bucket_def store_rename_bucket_def store_remove_bucket_def
      store_remove_object_def store_remove_objects_def connection_inv split: sum.split)

lemma answers_inv:
  assumes inv: "system_inv L fs s" and q: "db_request q" and a: "serve L fs q (sy_world s) = (a, w')"
  shows "system_inv L fs (s\<lparr>sy_world := w'\<rparr>)"
  using serve_db_inv [OF q system_invD(3) [OF inv], of L fs] serve_db_disk [OF q, of L fs "sy_world s"]
    serve_db_objects [OF q, of L fs "sy_world s"] a
  by (intro system_inv_on_db [OF inv]) simp_all

lemma live_step_inv:
  assumes inv: "system_inv L fs s" and step: "live_step L fs s l t" and apart: "live_apart l s"
  shows "system_inv L fs t"
  using step
proof cases
  case (Answers q a w')
  then show ?thesis using answers_inv [OF inv] by blast
qed (use apart in \<open>simp_all add: inv write_step_inv record_step_inv settle_step_inv orphans_step_inv erase_step_inv
      refuse_step_inv\<close>)

interpretation live: guarded_system "live_step L fs" live_apart "system_inv L fs" for L fs
  by unfold_locales (rule live_step_inv)

lemma live_holds_only:
  assumes inv: "system_inv L fs s \<and> holds_only L fs x c gone s" and step: "live_step L fs s l t"
    and apart: "live_apart l s \<and> \<not> uploads_to x l"
  shows "system_inv L fs t \<and> holds_only L fs x c gone t"
proof -
  have s: "system_inv L fs s" and h: "holds_only L fs x c gone s" using inv by simp_all
  note D = system_invD [OF s]
  from step have "holds_only L fs x c gone t"
  proof cases
    case (Uploads g i chunks)
    then show ?thesis using holds_only_write [OF s h] apart by auto
  next
    case (Commits now b i e w')
    then show ?thesis using h commit_record_consistent [OF D(1,3,4) Commits(3)] by (simp add: holds_only_def)
  next
    case (Refuses now b i e w')
    then show ?thesis using h commit_record_consistent [OF D(1,3,4) Refuses(3)] by (simp add: holds_only_def)
  next
    case (Settles i e r w')
    then show ?thesis using holds_only_settle [OF s h] by simp
  next
    case (Prunes orphans w')
    then show ?thesis using h by (auto simp: holds_only_def prune_record_eq)
  next
    case (Erases y r w')
    then show ?thesis using holds_only_erase [OF s h] by simp
  next
    case (Answers q a w')
    then show ?thesis using h serve_db_disk [of q L fs "sy_world s"] by (simp add: holds_only_def)
  qed
  with live_step_inv [OF s step] apart show ?thesis by blast
qed

interpretation one_content: guarded_system "live_step L fs" "\<lambda>l s. live_apart l s \<and> \<not> uploads_to x l"
    "\<lambda>s. system_inv L fs s \<and> holds_only L fs x c gone s" for L fs x c gone
  by unfold_locales (rule live_holds_only)

section \<open>They are steps of the specification\<close>

lemma map_restrict_insert: "m i = Some c \<Longrightarrow> m |` insert i X = (m |` X)(i \<mapsto> c)"
  by (auto simp: restrict_map_def fun_eq_iff)

lemma ids_abstract: "ids db = dom (cg_objects (abstract db))"
  by (simp add: ids_def abstract_objects(2))

lemma uploads_spec:
  assumes inv: "system_inv L fs s" and new: "i \<notin> ids (sy_db s)" "i \<notin> fst ` set (sy_commits s)"
  shows "spec L (Ask_upload g (Some i) chunks) (settled_shelf L fs s) = (Gives_part i,
    settled_shelf L fs (s\<lparr>sy_world := snd (upload_part L fs g (Some i) chunks (sy_world s))\<rparr>))"
proof -
  note D = system_invD [OF inv] and S = stage_disk [OF system_invD(4) [OF inv], of L i chunks]
  let ?d = "write_part L fs i chunks (sy_disk s)"
  have "content_at L fs ?d |` ids (sy_db s) = content_at L fs (sy_disk s) |` ids (sy_db s)"
    using new(1) S(2) S(3) [OF D(2)] by (auto simp: content_at_def restrict_map_def fun_eq_iff split: option.split)
  moreover have "staged L fs ?d |` (- fst ` set (sy_commits s)) =
      (staged L fs (sy_disk s) |` (- fst ` set (sy_commits s)))
        (i \<mapsto> (case staged L fs (sy_disk s) i of None \<Rightarrow> [] | Some c \<Rightarrow> c) @ concat chunks)"
    using new(2) S(3) [OF D(2)] by (auto simp: restrict_map_def fun_eq_iff)
  ultimately show ?thesis
    using new(2) by (simp add: upload_part_eq settled_shelf_def Let_def)
qed

lemma settles_spec:
  assumes inv: "system_inv L fs s" and mem: "(i, e) \<in> set (sy_commits s)"
    and st: "settle L fs i e (sy_world s) = (r, w')"
  shows "r = Inr (to_object e)" and "settled_shelf L fs (s\<lparr>sy_world := w', sy_commits := remove1 (i, e) (sy_commits s)\<rparr>) =
    settled_shelf L fs s"
proof -
  note D = system_invD [OF inv]
  obtain c where c: "staged L fs (sy_disk s) i = Some c" and own: "db_o_id e \<noteq> i \<longrightarrow> i \<notin> ids (sy_db s)"
    using D(6) mem by (auto simp: commits_inv_def)
  have keys: "inj_on fst (set (sy_commits s))" "distinct (sy_commits s)"
    using D(6) by (simp_all add: commits_inv_def distinct_map)
  have left: "fst ` (set (sy_commits s) - {(i, e)}) = fst ` set (sy_commits s) - {i}"
    using inj_on_image_set_diff [OF keys(1), of "set (sy_commits s)" "{(i, e)}"] mem by simp
  have "r = Inr (to_object e) \<and> settled_shelf L fs (s\<lparr>sy_world := w', sy_commits := remove1 (i, e) (sy_commits s)\<rparr>) =
    settled_shelf L fs s"
  proof (rule settle_eq [OF D(2,4) c, of e])
    fix d'
    assume s': "settle L fs i e (sy_world s) = (Inr (to_object e), (sy_world s)\<lparr>w_disk := d'\<rparr>)"
      and d': "staged L fs d' = (staged L fs (sy_disk s))(i := None)"
        "stored L fs d' = (if db_o_id e = i then (stored L fs (sy_disk s))(i \<mapsto> c) else stored L fs (sy_disk s))"
    have "content_at L fs d' |` ids (sy_db s) = content_at L fs (sy_disk s) |` ids (sy_db s)"
      using own c by (auto simp: content_at_def d' restrict_map_def fun_eq_iff split: option.split)
    moreover have "staged L fs d' |` (- (fst ` set (sy_commits s) - {i})) =
        staged L fs (sy_disk s) |` (- fst ` set (sy_commits s))"
      using imageI [OF mem, of fst] by (auto simp: d'(1) restrict_map_def fun_eq_iff)
    moreover have "r = Inr (to_object e)" "w' = (sy_world s)\<lparr>w_disk := d'\<rparr>" using st s' by simp_all
    ultimately show ?thesis by (simp add: settled_shelf_def left set_remove1_eq [OF keys(2)])
  qed
  then show "r = Inr (to_object e)" and "settled_shelf L fs (s\<lparr>sy_world := w', sy_commits := remove1 (i, e) (sy_commits s)\<rparr>) =
    settled_shelf L fs s" by simp_all
qed

lemma erases_spec:
  assumes inv: "system_inv L fs s" and x: "x \<in> set (sy_removals s)" and ok: "remove_file L fs x (sy_world s) = (r, w')"
  shows "r = Inr ()" and "settled_shelf L fs (s\<lparr>sy_world := w', sy_removals := rs\<rparr>) = settled_shelf L fs s"
proof -
  note D = system_invD [OF inv]
  obtain d' where d': "remove_object_file fs (uuid_text L x) (sy_disk s) = (Inr (), d')"
    "stored L fs d' = (stored L fs (sy_disk s))(x := None)" "staged L fs d' = staged L fs (sy_disk s)"
    using erase_disk [OF D(2,4)] by blast
  have w': "r = Inr ()" "w' = (sy_world s)\<lparr>w_disk := d'\<rparr>" using ok d'(1) by (simp_all add: remove_file_def on_disk_def)
  have "content_at L fs d' |` ids (sy_db s) = content_at L fs (sy_disk s) |` ids (sy_db s)"
    using D(7) x by (auto simp: content_at_def d'(2,3) restrict_map_def fun_eq_iff split: option.split)
  with w' show "r = Inr ()" and "settled_shelf L fs (s\<lparr>sy_world := w', sy_removals := rs\<rparr>) = settled_shelf L fs s"
    by (simp_all add: settled_shelf_def d'(3))
qed

lemma prunes_spec:
  assumes inv: "system_inv L fs s" and ok: "prune_record (sy_world s) = (Inr orphans, w')"
  shows "spec L Ask_prune (settled_shelf L fs s) = (Gives_pruned (mset (map to_object orphans)),
    settled_shelf L fs (s\<lparr>sy_world := w', sy_removals := rs\<rparr>))"
proof -
  note D = system_invD [OF inv]
  have o: "map to_object orphans =
      map (to_object \<circ> object_view) (filter (\<lambda>r. ob_id r \<notin> referenced (sy_db s)) (tb_object (sy_db s)))"
    and w': "w' = (sy_world s)\<lparr>w_db := snd (sql_remove_orphan_objects (sy_db s))\<rparr>"
    using ok by (auto simp: prune_record_eq sql_prune_eq(1))
  have "ids (w_db w') = ids (sy_db s) - spec_unused (abstract (sy_db s))"
    by (auto simp: w' ids_def sql_prune_eq(2) spec_unused_abstract)
  then have "content_at L fs (sy_disk s) |` ids (w_db w') =
      content_at L fs (sy_disk s) |` ids (sy_db s) |` (- spec_unused (abstract (sy_db s)))"
    by (simp add: restrict_restrict Diff_eq)
  then show ?thesis
    using pruned_answer [OF D(3)] o refine_prune [OF D(3)]
    by (simp add: Let_def settled_shelf_def w')
qed

lemma created_ids:
  assumes inv: "db_inv db" and add: "sql_add_object b i h sz ty sub now db = Inr (rows, db')"
    and c: "sql_create_object i h sz ty sub now db = (Some x, db1)"
  shows "ids db' = (if x = i then insert i (ids db) else ids db)"
  using inv
proof (cases rule: create_object_cases [where h = h and i = i and sz = sz and ty = ty and sub = sub and now = now])
  case (known r)
  then have "tb_object db' = tb_object db" using sql_add_object_objects(1) [OF inv add] by auto
  moreover have "x \<in> ids db" using known(1,3) c by (auto simp: ids_def)
  ultimately show ?thesis by (auto simp: ids_def)
next
  case new
  then show ?thesis using sql_add_object_objects(1) [OF inv add] c by (auto simp: ids_def)
qed (use c in simp)

text \<open>A commit at its database call: the row the client will get, or why it is refused.\<close>

lemma record_spec:
  assumes inv: "system_inv L fs s" and new: "i \<notin> fst ` set (sy_commits s)"
  shows "commit_record L fs now b i (sy_world s) = (Inr e, w') \<Longrightarrow>
      spec L (Ask_commit now b i) (settled_shelf L fs s) = (Gives_object (to_object e),
        settled_shelf L fs (s\<lparr>sy_world := w', sy_commits := (i, e) # sy_commits s\<rparr>))"
    and "commit_record L fs now b i (sy_world s) = (Inl err, w') \<Longrightarrow>
      spec L (Ask_commit now b i) (settled_shelf L fs s) = (Refused err, settled_shelf L fs (s\<lparr>sy_world := w'\<rparr>))"
proof -
  note D = system_invD [OF inv]
  let ?w = "sy_world s" and ?C = "abstract (sy_db s)"
  have part: "sf_parts (settled_shelf L fs s) i = staged L fs (sy_disk s) i" using new by simp
  show "spec L (Ask_commit now b i) (settled_shelf L fs s) = (Gives_object (to_object e),
      settled_shelf L fs (s\<lparr>sy_world := w', sy_commits := (i, e) # sy_commits s\<rparr>))"
    if ok: "commit_record L fs now b i ?w = (Inr e, w')"
  proof -
    obtain c where c: "staged L fs (sy_disk s) i = Some c"
      using ok commit_record_miss [OF D(4)] by (cases "staged L fs (sy_disk s) i") auto
    let ?h = "sha256sum L c"
    obtain m rows db' where m: "split_mime (magic_file L c) = Inr m" and
      add: "sql_add_object b i ?h (recorded_size c) (m_type m) (m_subtype m) now (sy_db s) = Inr (rows, db')"
      and w': "e = hd rows" "w' = ?w\<lparr>w_db := db'\<rparr>"
      using ok unfolding commit_record_hit [OF D(1,3,4) c] by (auto split: sum.splits prod.splits)
    obtain x db1 where x: "sql_create_object i ?h (recorded_size c) (m_type m) (m_subtype m) now (sy_db s) = (Some x, db1)"
      "entry db' b x = Some e" "db_o_id e = x"
      using sql_add_object_Inr [OF D(3) recorded_size_int64 add] w'(1) by (metis list.sel(1))
    let ?r = "\<lparr>ob_id = i, ob_hash = ?h, ob_size = recorded_size c, ob_type = m_type m, ob_subtype = m_subtype m, ob_added = now\<rparr>"
    have C': "spec_add b ?r now ?C = Inr (abstract db')"
      using refine_add [OF D(3) recorded_size_int64, of b i ?h c "m_type m" "m_subtype m" now] add by simp
    have x': "(if known ?h ?C = {} then i else the_elem (known ?h ?C)) = x" by (rule created_object [OF D(3) x(1)])
    have same: "content_at L fs (sy_disk s) i = Some c" using c by (simp add: content_at_def)
    have ids': "ids db' = (if x = i then insert i (ids (sy_db s)) else ids (sy_db s))"
      using created_ids [OF D(3) add x(1)] .
    have "content_at L fs (sy_disk s) |` ids db' = (if x = i then (content_at L fs (sy_disk s) |` ids (sy_db s))(i \<mapsto> c)
        else content_at L fs (sy_disk s) |` ids (sy_db s))"
      by (simp add: ids' map_restrict_insert [of "content_at L fs (sy_disk s)", OF same])
    moreover have "staged L fs (sy_disk s) |` (- insert i (fst ` set (sy_commits s))) =
        (staged L fs (sy_disk s) |` (- fst ` set (sy_commits s)))(i := None)"
      by (auto simp: restrict_map_def fun_eq_iff)
    moreover have "listing (abstract db') b x = Some (to_object e)" by (simp add: listing_abstract x(2))
    ultimately show ?thesis
      using c part m C' x' by (simp add: spec_commit_def Let_def settled_shelf_def w'(2))
  qed
  show "spec L (Ask_commit now b i) (settled_shelf L fs s) = (Refused err, settled_shelf L fs (s\<lparr>sy_world := w'\<rparr>))"
    if err: "commit_record L fs now b i ?w = (Inl err, w')"
  proof -
    have "commit_part L fs now b i ?w = (Inl err, w')" using err by (simp add: commit_part_halves)
    from commit_part_error [OF D(1,3,4) this] have w': "w' = ?w" .
    show ?thesis
    proof (cases "staged L fs (sy_disk s) i")
      case None
      then show ?thesis using err part commit_record_miss [OF D(4) None] by (simp add: spec_commit_def w')
    next
      case (Some c)
      show ?thesis
      proof (cases "split_mime (magic_file L c)")
        case (Inl e')
        then show ?thesis using err part Some commit_record_hit [OF D(1,3,4) Some] by (simp add: spec_commit_def w')
      next
        case (Inr m)
        then obtain e' where "sql_add_object b i (sha256sum L c) (recorded_size c) (m_type m) (m_subtype m) now (sy_db s) = Inl e'"
          "err = Sql_error e'"
          using err commit_record_hit [OF D(1,3,4) Some, of now b] by (auto split: sum.splits prod.splits)
        moreover from this have "spec_add b \<lparr>ob_id = i, ob_hash = sha256sum L c, ob_size = recorded_size c, ob_type = m_type m,
            ob_subtype = m_subtype m, ob_added = now\<rparr> now ?C = Inl e'"
          using refine_add [OF D(3) recorded_size_int64, of b i "sha256sum L c" c "m_type m" "m_subtype m" now] by simp
        ultimately show ?thesis using part Some Inr by (simp add: spec_commit_def Let_def w')
      qed
    qed
  qed
qed

lemma answers_spec:
  assumes inv: "system_inv L fs s" and trim: "trim_law L" and q: "db_request q" and a: "serve L fs q (sy_world s) = (a, w')"
  shows "spec L q (settled_shelf L fs s) = (a, settled_shelf L fs (s\<lparr>sy_world := w'\<rparr>))"
proof -
  note D = system_invD [OF inv]
  have law: "fetch_law L" using D(1) by (simp add: laws_def)
  have same: "with_db (settled_shelf L fs s) (sy_db s) = settled_shelf L fs s" by (simp add: with_db_def settled_shelf_def)
  have "w_disk w' = sy_disk s" "ids (w_db w') = ids (sy_db s)"
    using serve_db_disk [OF q, of L fs "sy_world s"] serve_db_objects [OF q, of L fs "sy_world s"] a by (simp_all add: ids_def)
  then have "with_db (settled_shelf L fs s) (w_db w') = settled_shelf L fs (s\<lparr>sy_world := w'\<rparr>)"
    by (simp add: with_db_def settled_shelf_def)
  then show ?thesis
    using serves_db [OF law trim D(3) q, of "settled_shelf L fs s" fs, unfolded same] a by simp
qed

text \<open>A download whose row was there gives, at its turn in the order, the content of the object.\<close>

lemma download_spec:
  assumes inv: "system_inv L fs s" and e: "entry (sy_db s) b x = Some e"
  obtains c where "content_at L fs (sy_disk s) x = Some c"
    "spec L (Ask_object b x) (settled_shelf L fs s) = (Gives_file (to_object e) c, settled_shelf L fs s)"
proof -
  note D = system_invD [OF inv]
  have x: "x \<in> ids (sy_db s)" using entry_SomeD(3) [OF D(3) e] by (simp add: ids_def)
  then obtain c where "content_at L fs (sy_disk s) x = Some c"
    using D(5) by (fastforce simp: recoverable_def ids_def)
  with x e show ?thesis by (intro that [of c]) (simp_all add: listing_abstract)
qed

lemma refused_download_spec:
  "entry (sy_db s) b x = None \<Longrightarrow>
    spec L (Ask_object b x) (settled_shelf L fs s) = (Refused (object_not_found L b x), settled_shelf L fs s)"
  by (simp add: listing_abstract)

lemma live_step_spec:
  assumes inv: "system_inv L fs s" and trim: "trim_law L" and step: "live_step L fs s l t" and apart: "live_apart l s"
  shows "case l of None \<Rightarrow> settled_shelf L fs t = settled_shelf L fs s
    | Some (q, a) \<Rightarrow> spec L q (settled_shelf L fs s) = (a, settled_shelf L fs t)"
  using step
proof cases
  case (Commits now b i e w')
  then show ?thesis using record_spec(1) [OF inv] apart by simp
next
  case (Refuses now b i err w')
  then show ?thesis using record_spec(2) [OF inv] apart by simp
next
  case (Settles i e r w')
  then show ?thesis using settles_spec(2) [OF inv] by simp
next
  case (Erases x r w')
  then show ?thesis using erases_spec(2) [OF inv] by simp
next
  case (Answers q a w')
  then show ?thesis using answers_spec [OF inv trim] by simp
qed (use uploads_spec [OF inv] prunes_spec [OF inv] apart in \<open>simp_all del: spec.simps\<close>)

text \<open>After a crash the catalogue and the contents are what they were; parts whose commit had not ended are parts again.\<close>

lemma crash_shelf:
  "settled_shelf L fs (s\<lparr>sy_commits := [], sy_removals := []\<rparr>) =
     (settled_shelf L fs s)\<lparr>sf_parts := staged L fs (sy_disk s)\<rparr>"
  by (simp add: settled_shelf_def restrict_map_def)

lemma live_trace_spec:
  assumes "trace (live_step L fs) s tr t" and "allowed live_apart tr" and "system_inv L fs s" and "trim_law L"
  shows "run_requests (spec L) (map fst (served tr)) (settled_shelf L fs s) = (map snd (served tr), settled_shelf L fs t)"
  using assms
proof (induction rule: trace.induct)
  case (trace_step s l t tr u)
  then show ?case
    using live_step_spec [of L fs s l t] live_step_inv [of L fs s l t] by (cases l) auto
qed simp

end
