(* ===== verification/Sizes.thy ===== *)
theory Sizes
  imports Interleaving
begin

text \<open>
  The size in an object's row is the length of its content, in every system that interleaved requests reach while
  they keep part ids apart: what a download announces and sends is the whole object.
\<close>

definition measured :: "libs \<Rightarrow> filesystem \<Rightarrow> world \<Rightarrow> bool" where
  "measured L fs w \<longleftrightarrow> (\<forall>r \<in> set (tb_object (w_db w)). \<forall>c.
     content_at L fs (w_disk w) (ob_id r) = Some c \<longrightarrow> ob_size r = recorded_size c)"

lemma measured_frame:
  assumes "measured L fs w" and "set (tb_object (w_db w')) \<subseteq> set (tb_object (w_db w))"
    and "\<And>x. x \<in> ids (w_db w) \<Longrightarrow> content_at L fs (w_disk w') x = content_at L fs (w_disk w) x"
  shows "measured L fs w'"
  using assms by (auto simp: measured_def ids_def)

lemma commit_record_rows:
  assumes laws: "laws L" and inv: "db_inv (w_db w)" "disk_inv fs (w_disk w)"
    and ok: "commit_record L fs now b i w = (Inr e, w')"
  obtains c where "staged L fs (w_disk w) i = Some c" "w_disk w' = w_disk w"
    "tb_object (w_db w') = tb_object (w_db w) \<or>
     (\<exists>q. tb_object (w_db w') = tb_object (w_db w) @ [q] \<and> ob_id q = i \<and> ob_size q = recorded_size c)"
proof -
  obtain c where c: "staged L fs (w_disk w) i = Some c"
    using ok commit_record_miss [OF inv(2)] by (cases "staged L fs (w_disk w) i") auto
  obtain m rows db' where "split_mime (magic_file L c) = Inr m" and
    add: "sql_add_object b i (sha256sum L c) (recorded_size c) (m_type m) (m_subtype m) now (w_db w) = Inr (rows, db')"
    and w': "e = hd rows" "w' = w\<lparr>w_db := db'\<rparr>"
    using ok unfolding commit_record_hit [OF laws inv c] by (auto split: sum.splits prod.splits)
  show ?thesis
    by (rule that [OF c]) (use w' sql_add_object_objects(1) [OF inv(1) add] in \<open>auto split: if_splits\<close>)
qed

lemma write_measured:
  assumes inv: "system_inv L fs s" and new: "i \<notin> ids (sy_db s)" and m: "measured L fs (sy_world s)"
  shows "measured L fs (snd (upload_part L fs g (Some i) chunks (sy_world s)))"
proof (rule measured_frame [OF m])
  fix x assume "x \<in> ids (sy_db s)"
  with new have "x \<noteq> i" by blast
  then show "content_at L fs (w_disk (snd (upload_part L fs g (Some i) chunks (sy_world s)))) x =
      content_at L fs (sy_disk s) x"
    using stage_disk [OF system_invD(4) [OF inv], of L i chunks] system_invD(2) [OF inv]
    by (simp add: upload_part_eq content_at_def split: option.split)
qed (simp add: upload_part_eq)

lemma record_measured:
  assumes inv: "system_inv L fs s" and m: "measured L fs (sy_world s)"
    and ok: "commit_record L fs now b i (sy_world s) = (Inr e, w')"
  shows "measured L fs w'"
  using m by (rule_tac commit_record_rows [OF system_invD(1,3,4) [OF inv] ok]) (auto simp: measured_def content_at_def)

lemma settle_measured:
  assumes inv: "system_inv L fs s" and m: "measured L fs (sy_world s)" and mem: "(i, e) \<in> set (sy_commits s)"
    and st: "settle L fs i e (sy_world s) = (r, w')"
  shows "measured L fs w'"
proof -
  note D = system_invD [OF inv]
  obtain c where c: "staged L fs (sy_disk s) i = Some c" and own: "db_o_id e \<noteq> i \<longrightarrow> i \<notin> ids (sy_db s)"
    using D(6) mem by (auto simp: commits_inv_def)
  show ?thesis
    by (rule settle_eq [OF D(2,4) c, of e], rule measured_frame [OF m])
       (use st own c in \<open>auto simp: content_at_def split: option.split if_splits\<close>)
qed

lemma erase_measured:
  assumes inv: "system_inv L fs s" and m: "measured L fs (sy_world s)" and x: "x \<in> set (sy_removals s)"
    and ok: "remove_file L fs x (sy_world s) = (r, w')"
  shows "measured L fs w'"
proof (rule measured_frame [OF m])
  note D = system_invD [OF inv]
  obtain d' where d': "remove_object_file fs (uuid_text L x) (sy_disk s) = (Inr (), d')"
    "stored L fs d' = (stored L fs (sy_disk s))(x := None)" "staged L fs d' = staged L fs (sy_disk s)"
    using erase_disk [OF D(2,4)] by blast
  have w': "w' = (sy_world s)\<lparr>w_disk := d'\<rparr>" using ok d'(1) by (simp add: remove_file_def on_disk_def)
  show "set (tb_object (w_db w')) \<subseteq> set (tb_object (sy_db s))" by (simp add: w')
  show "content_at L fs (w_disk w') u = content_at L fs (sy_disk s) u" if "u \<in> ids (sy_db s)" for u
    using that D(7) x by (auto simp: w' content_at_def d'(2,3) split: option.split)
qed

definition sized_inv :: "libs \<Rightarrow> filesystem \<Rightarrow> system \<Rightarrow> bool" where
  "sized_inv L fs s \<longleftrightarrow> system_inv L fs s \<and> measured L fs (sy_world s)"

lemma db_steps_measured:
  assumes m: "measured L fs w"
  shows "measured L fs (snd (store_create_bucket L i now n w))" and "measured L fs (snd (store_remove_bucket b w))"
    and "measured L fs (snd (store_remove_object L b x w))" and "measured L fs (snd (store_remove_objects L b xs w))"
    and "measured L fs (snd (store_rename_bucket L b n w))"
  by (rule measured_frame [OF m];
      simp add: store_create_bucket_def store_remove_bucket_def store_remove_object_def
        store_remove_objects_def store_rename_bucket_def connection_objects split: sum.split)+

lemma sized_step:
  assumes inv: "sized_inv L fs s" and step: "server_step L fs s a t" and apart: "part_ids_apart a s"
  shows "sized_inv L fs t"
proof -
  have s: "system_inv L fs s" "measured L fs (sy_world s)" using inv by (simp_all add: sized_inv_def)
  note D = system_invD [OF s(1)]
  from step have "measured L fs (sy_world t)"
  proof cases
    case (Write i g chunks)
    then show ?thesis using write_measured [OF s(1) _ s(2)] apart by simp
  next
    case (Record now b i e w')
    then show ?thesis using record_measured [OF s] by simp
  next
    case (Refuse now b i err w')
    then have "commit_part L fs now b i (sy_world s) = (Inl err, w')" by (simp add: commit_part_halves)
    from commit_part_error [OF D(1,3,4) this] have "w' = sy_world s" .
    then show ?thesis using Refuse(2) s(2) by simp
  next
    case (Settle i e z w')
    then show ?thesis using settle_measured [OF s] by simp
  next
    case (Orphans orphans w')
    then show ?thesis
      by (auto simp: prune_record_eq sql_prune_eq(2) intro!: measured_frame [OF s(2)])
  next
    case (Erase x z w')
    then show ?thesis using erase_measured [OF s] by simp
  qed (simp_all add: s db_steps_measured)
  with server_step_inv [OF s(1) step apart] show ?thesis by (simp add: sized_inv_def)
qed

interpretation sized: guarded_system "server_step L fs" part_ids_apart "sized_inv L fs" for L fs
  by unfold_locales (rule sized_step)

text \<open>A length below 2^63 survives being recorded.\<close>

lemma recorded_size_exact:
  assumes "length c < 2 ^ 63"
  shows "recorded_size c = int (length c)"
proof -
  have "is_int64 (int (length c))" using assms by (simp add: is_int64_def)
  from sint_word_of_int64 [OF this] show ?thesis by (simp add: recorded_size_def)
qed

end
