(* ===== verification/Recovery_Properties.thy ===== *)
theory Recovery_Properties
  imports Sizes Client Sample
begin

text \<open>
  The properties of the store under requests that interleave and processes that are killed.
\<close>

section \<open>Reachable systems\<close>

definition started :: "path \<Rightarrow> mode \<Rightarrow> system" where
  "started home m = \<lparr>sy_world = new_store home m, sy_commits = [], sy_removals = []\<rparr>"

text \<open>The systems that are reached while requests keep part ids apart.\<close>

definition reachable :: "libs \<Rightarrow> path \<Rightarrow> system \<Rightarrow> bool" where
  "reachable L home s \<longleftrightarrow> laws L \<and> (\<exists>m. (apart_step L (home_fs home))\<^sup>*\<^sup>* (started home m) s)"

lemma reachable_trace:
  "reachable L home s \<longleftrightarrow> laws L \<and>
     (\<exists>m tr. trace (server_step L (home_fs home)) (started home m) tr s \<and> allowed part_ids_apart tr)"
  by (simp add: reachable_def rtranclp_trace)

lemma started_inv: "laws L \<Longrightarrow> system_inv L (home_fs home) (started home m)"
  using store_invD(4,5) [OF new_store_inv [of L home m]]
  by (simp add: system_inv_def started_def recoverable_def commits_inv_def ids_def new_store_def empty_database_def)

lemma started_consistent: "laws L \<Longrightarrow> consistent L (home_fs home) (started home m)"
  using started_inv [of L home m] by (simp add: consistent_def system_inv_def)

lemma reachable_inv: "reachable L home s \<Longrightarrow> system_inv L (home_fs home) s"
  using server.inv_reachable started_inv unfolding reachable_def by blast

lemma reachable_measured: "reachable L home s \<Longrightarrow> measured L (home_fs home) (sy_world s)"
  using sized.inv_reachable started_inv unfolding reachable_def
  by (fastforce simp: sized_inv_def measured_def started_def new_store_def empty_database_def)

lemma reachable_step:
  "reachable L home s \<Longrightarrow> server_step L (home_fs home) s a t \<Longrightarrow> part_ids_apart a s \<Longrightarrow> reachable L home t"
  unfolding reachable_def by (blast intro: rtranclp.rtrancl_into_rtrancl)

section \<open>A commit that is cut off\<close>

text \<open>The sample upload, with its row recorded; then killed, or settled.\<close>

definition e5 :: db_object where
  "e5 = \<lparr>db_o_id = 5, db_o_hash = ''6869'', db_o_size = 2, db_o_type = ''text'', db_o_subtype = ''plain'',
     db_o_date_added = 200\<rparr>"

definition recorded5 :: system where
  "recorded5 = \<lparr>sy_world = w2\<lparr>w_db := db3\<rparr>, sy_commits = [(5, e5)], sy_removals = []\<rparr>"

definition killed5 :: system where
  "killed5 = \<lparr>sy_world = w2\<lparr>w_db := db3\<rparr>, sy_commits = [], sy_removals = []\<rparr>"

definition settled5 :: system where
  "settled5 = \<lparr>sy_world = w3, sy_commits = [], sy_removals = []\<rparr>"

lemma record5: "commit_record sample fs0 200 1 5 w2 = (Inr e5, w2\<lparr>w_db := db3\<rparr>)"
  using add3 upload2 by (simp add: commit_record_hit [OF store_invD(1,4,5) [OF sample_inv(3)]] mime_hi hash_hi size_hi e5_def)

text \<open>The run that leads there: the bucket is created, the part written, and its commit recorded.\<close>

definition created5 :: system where
  "created5 = \<lparr>sy_world = w1, sy_commits = [], sy_removals = []\<rparr>"

definition staged5 :: system where
  "staged5 = \<lparr>sy_world = w2, sy_commits = [], sy_removals = []\<rparr>"

definition run5 :: "(system \<times> deed) list" where
  "run5 = [(started [''data''] 0x12, Changes_buckets), (created5, Writes 5), (staged5, Records 5)]"

lemma settle5: "settle sample fs0 5 e5 (sy_world recorded5) = (Inr object5, w3)"
proof -
  have "commit_part sample fs0 200 1 5 w2 = settle sample fs0 5 e5 (w2\<lparr>w_db := db3\<rparr>)"
    by (simp add: commit_part_halves record5)
  then show ?thesis using commit3(1) by (metis w3_def prod.collapse recorded5_def system.select_convs(1))
qed

lemma recorded5_run: "trace (server_step sample fs0) (started [''data''] 0x12) run5 recorded5"
proof -
  have "server_step sample fs0 (started [''data''] 0x12) Changes_buckets created5"
    using server_step.Create_bucket [of sample fs0 "started [''data''] 0x12" 1 100 "'' photos ''"]
    by (simp add: started_def created5_def w1_def w0_def)
  moreover have "server_step sample fs0 created5 (Writes 5) staged5"
    using server_step.Write [of sample fs0 created5 5 7 "[[104], [105]]"]
    by (simp add: created5_def staged5_def w2_def)
  moreover have "server_step sample fs0 staged5 (Records 5) recorded5"
    using server_step.Record [of sample fs0 200 1 5 staged5 e5 "w2\<lparr>w_db := db3\<rparr>"] record5
    by (simp add: staged5_def recorded5_def)
  ultimately show ?thesis by (auto simp: run5_def)
qed

lemma run5_apart: "allowed part_ids_apart run5"
  by (simp add: run5_def created5_def staged5_def ids_def create1(2) db1_def empty_database_def)

lemma killed5_run: "trace (server_step sample fs0) (started [''data''] 0x12) (run5 @ [(recorded5, Crashes)]) killed5"
  using trace_snoc [OF recorded5_run server_step.Crash] by (simp add: recorded5_def killed5_def)

lemma settled5_run: "trace (server_step sample fs0) (started [''data''] 0x12) (run5 @ [(recorded5, Settles 5)]) settled5"
  using trace_snoc [OF recorded5_run server_step.Settle [OF _ settle5]] by (simp add: recorded5_def settled5_def)

lemma sample_reachable: "reachable sample [''data''] recorded5" "reachable sample [''data''] killed5"
  "reachable sample [''data''] settled5"
proof -
  have "allowed part_ids_apart (run5 @ [(recorded5, Crashes)])" "allowed part_ids_apart (run5 @ [(recorded5, Settles 5)])"
    by (simp_all add: run5_apart)
  then show "reachable sample [''data''] recorded5" "reachable sample [''data''] killed5"
    "reachable sample [''data''] settled5"
    using sample_laws(1) run5_apart recorded5_run killed5_run settled5_run
    unfolding reachable_trace fs0_def by blast+
qed

section \<open>Properties\<close>

lemma content_kept:
  assumes "reachable L home s" and "r \<in> set (tb_object (sy_db s))"
  obtains c where "content_at L (home_fs home) (sy_disk s) (ob_id r) = Some c" "sha256sum L c = ob_hash r"
  using system_invD(5) [OF reachable_inv [OF assms(1)]] assms(2) by (auto simp: recoverable_def)

lemma object_hash:
  assumes s: "reachable L home s" and e: "entry (sy_db s) b x = Some e"
  shows "\<exists>c. content_at L (home_fs home) (sy_disk s) x = Some c \<and> sha256sum L c = db_o_hash e"
proof -
  note D = system_invD [OF reachable_inv [OF s]]
  note r = object_of_ref [OF D(3) entry_SomeD(3) [OF D(3) e]]
  show ?thesis using content_kept [OF s r(1)] r(2) entry_SomeD(4) [OF D(3) e] by metis
qed

text \<open>What a row's file holds later on, when its content is in one place.\<close>

lemma later_content:
  assumes s: "reachable L home s" and later: "trace (server_step L (home_fs home)) s tr' t"
    and apart: "allowed part_ids_apart tr'" and new: "\<forall>(u, a) \<in> set tr'. a \<noteq> Writes x"
    and c: "content_at L (home_fs home) (sy_disk s) x = Some c"
    and place: "staged L (home_fs home) (sy_disk s) x = None \<or> \<not> gone \<and> stored L (home_fs home) (sy_disk s) x = None"
  shows "system_inv L (home_fs home) t" and "holds_only L (home_fs home) x c gone t"
proof -
  have "allowed (\<lambda>a s. part_ids_apart a s \<and> a \<noteq> Writes x) tr'" using apart new by (auto simp: allowed_def)
  moreover have "holds_only L (home_fs home) x c gone s"
    using c place by (auto simp: holds_only_def content_at_def split: option.splits)
  ultimately show "system_inv L (home_fs home) t" "holds_only L (home_fs home) x c gone t"
    using kept.inv_trace [OF later] reachable_inv [OF s] by blast+
qed

text \<open>C9: Whatever requests interleave, and wherever processes are killed, the database meets its constraints and the
  disk its layout, however part ids are used.  As long as the clients keep part ids apart (none is written to once
  its commit has begun, committed twice at once, or committed while its file is to be removed), which the server does
  not enforce, no content is lost: every object of the catalogue has its content on the disk, in its file, or still in
  the part it was uploaded as.\<close>

theorem interleaved_content_kept:
  assumes laws: "laws L" and run: "trace (server_step L (home_fs home)) (started home m) tr s"
  shows "db_inv (sy_db s) \<and> disk_inv (home_fs home) (sy_disk s) \<and>
    (allowed part_ids_apart tr \<longrightarrow> (\<forall>r \<in> set (tb_object (sy_db s)).
      \<exists>c. sha256sum L c = ob_hash r \<and> (staged L (home_fs home) (sy_disk s) (ob_id r) = Some c \<or>
        staged L (home_fs home) (sy_disk s) (ob_id r) = None \<and> stored L (home_fs home) (sy_disk s) (ob_id r) = Some c)))"
proof -
  have "consistent L (home_fs home) s"
    using any_ids.inv_trace [OF run _ started_consistent [OF laws]] by (simp add: allowed_def)
  moreover have "\<exists>c. sha256sum L c = ob_hash r \<and> (staged L (home_fs home) (sy_disk s) (ob_id r) = Some c \<or>
        staged L (home_fs home) (sy_disk s) (ob_id r) = None \<and> stored L (home_fs home) (sy_disk s) (ob_id r) = Some c)"
    if "allowed part_ids_apart tr" and r: "r \<in> set (tb_object (sy_db s))" for r
  proof -
    have "reachable L home s" using laws run that(1) unfolding reachable_trace by blast
    from content_kept [OF this r] show ?thesis by (fastforce simp: content_at_def split: option.splits)
  qed
  ultimately show ?thesis by (auto simp: consistent_def)
qed

theorem interleaved_content_kept_witness:
  "\<exists>c. sha256sum sample c = ''6869'' \<and> (staged sample fs0 (sy_disk killed5) 5 = Some c \<or>
     stored sample fs0 (sy_disk killed5) 5 = Some c)"
  using interleaved_content_kept [OF sample_laws(1) killed5_run [unfolded fs0_def]] run5_apart
  by (auto simp: killed5_def db3_def fs0_def)

text \<open>C10: As long as the clients keep part ids apart, whatever else is running, an object whose part is gone is sound
  and its row is got in every bucket that lists it; and whenever the download goes on to open the file, after any
  further steps in which no new upload takes the object's id, it reads content of the object's digest, unless a
  \<open>prune\<close> has removed the row from the catalogue in between: then it may find no file.\<close>

theorem interleaved_read:
  assumes laws: "laws L" and run: "trace (server_step L (home_fs home)) (started home m) tr s"
    and later: "trace (server_step L (home_fs home)) s tr' t" and apart: "allowed part_ids_apart (tr @ tr')"
    and new: "\<forall>(u, a) \<in> set tr'. a \<noteq> Writes x"
    and e: "entry (sy_db s) b x = Some e" and settled: "staged L (home_fs home) (sy_disk s) x = None"
  shows "get_object_metadata L b x (sy_world s) = (Inr (to_object e), sy_world s) \<and>
    check_object L (home_fs home) (sy_disk s) (object_view (object_of (sy_db s) x)) = [] \<and>
    (\<exists>c. sha256sum L c = db_o_hash e \<and>
      get_object L (home_fs home) b x (sy_world s) = (Inr (to_object e, c), sy_world s) \<and>
      (finish_download L (home_fs home) x (to_object e) (sy_world t) = (Inr (to_object e, c), sy_world t) \<or>
       x \<notin> ids (sy_db t) \<and>
       finish_download L (home_fs home) x (to_object e) (sy_world t) = (Inl (File_error No_such_file), sy_world t)))"
proof -
  let ?fs = "home_fs home"
  have s: "reachable L home s" using laws run apart unfolding reachable_trace by auto
  note D = system_invD [OF reachable_inv [OF s]] and h = object_hash [OF s e]
  obtain c where c: "content_at L ?fs (sy_disk s) x = Some c" "sha256sum L c = db_o_hash e" using h by blast
  then have st: "stored L ?fs (sy_disk s) x = Some c" using settled by (simp add: content_at_def)
  have "get_object_metadata L b x (sy_world s) = (Inr (to_object e), sy_world s)"
    using metadata_on [of L "sy_world s" b x] D(1,3) e by (simp add: laws_def)
  moreover have "get_object L ?fs b x (sy_world s) = (Inr (to_object e, c), sy_world s)"
    using e st by (simp add: get_object_on [OF D(1,3,4)])
  moreover have "check_object L ?fs (sy_disk s) (object_view (object_of (sy_db s) x)) = []"
    using st c(2) object_of_ref [OF D(3) entry_SomeD(3) [OF D(3) e]] entry_SomeD(4) [OF D(3) e]
    by (simp add: check_object_eq [OF D(2,4)] object_view_def)
  moreover have t: "system_inv L ?fs t" and only: "holds_only L ?fs x c True t"
    using later_content [OF s later _ new c(1), of True] apart settled by simp_all
  note T = system_invD [OF t]
  have "stored L ?fs (sy_disk t) x = Some c" if "x \<in> ids (sy_db t)"
    using that T(5) only by (auto simp: recoverable_def ids_def content_at_def holds_only_def)
  then have "finish_download L ?fs x (to_object e) (sy_world t) = (Inr (to_object e, c), sy_world t) \<or>
      x \<notin> ids (sy_db t) \<and>
      finish_download L ?fs x (to_object e) (sy_world t) = (Inl (File_error No_such_file), sy_world t)"
    using only by (auto simp: finish_download_eq [OF T(2,4)] holds_only_def)
  ultimately show ?thesis using c(2) by blast
qed

lemma settled5_staged: "staged sample fs0 (w_disk w3) 5 = None"
proof -
  have ok: "commit_part sample fs0 200 1 5 w2 = (Inr object5, w3)"
    by (rule prod_eqI) (simp_all only: commit3(1) w3_def fst_conv snd_conv)
  show ?thesis by (rule commit_part_ok [OF store_invD(1,4,5) [OF sample_inv(3)] ok]) simp
qed

theorem interleaved_read_witness:
  "\<exists>c. get_object sample fs0 1 5 (sy_world settled5) = (Inr (to_object e5, c), sy_world settled5) \<and>
     sha256sum sample c = ''6869''"
proof -
  have "entry (sy_db settled5) 1 5 = Some e5"
    by (simp add: settled5_def commit3(2) entry_def object_of_def db3_def db1_def empty_database_def
        contents_row_def e5_def)
  moreover have "staged sample (home_fs [''data'']) (sy_disk settled5) 5 = None"
    using settled5_staged by (simp add: settled5_def fs0_def)
  ultimately show ?thesis
    using interleaved_read [OF sample_laws(1) settled5_run [unfolded fs0_def] trace_done, of 5 1 e5] run5_apart
    unfolding fs0_def by (auto simp: e5_def)
qed

text \<open>C13: A commit that was cut off between the database and the disk is completed by committing the same
  part again: the row is found by its hash, its id is the part's, and the part becomes the object.\<close>

theorem cut_off_commit_completes:
  assumes s: "reachable L home s" and r: "r \<in> set (tb_object (sy_db s))"
    and c: "staged L (home_fs home) (sy_disk s) (ob_id r) = Some c"
    and m: "split_mime (magic_file L c) = Inr m" and b: "b \<in> bk_id ` set (tb_bucket (sy_db s))"
  shows "\<exists>x w'. commit_part L (home_fs home) now b (ob_id r) (sy_world s) = (Inr x, w') \<and> o_id x = ob_id r \<and>
    tb_object (w_db w') = tb_object (sy_db s) \<and>
    stored L (home_fs home) (w_disk w') (ob_id r) = Some c \<and>
    staged L (home_fs home) (w_disk w') (ob_id r) = None \<and>
    check_object L (home_fs home) (w_disk w') (object_view r) = []"
proof -
  let ?fs = "home_fs home" and ?i = "ob_id r"
  note D = system_invD [OF reachable_inv [OF s]]
  have h: "sha256sum L c = ob_hash r"
    using content_kept [OF s r] c by (auto simp: content_at_def)
  have known: "sha256sum L c \<in> ob_hash ` set (tb_object (sy_db s))" using r h by (metis imageI)
  have "commit_record L ?fs now b ?i (sy_world s) \<noteq> (Inl err, w')" for err w'
    using sql_add_object_Inl_iff [OF D(3) recorded_size_int64, of b ?i "sha256sum L c" c "m_type m" "m_subtype m" now]
      known b m by (auto simp: commit_record_hit [OF D(1,3,4) c] split: sum.splits prod.splits)
  then obtain e v where e: "commit_record L ?fs now b ?i (sy_world s) = (Inr e, v)"
    by (metis prod.exhaust sum.exhaust)
  show ?thesis
  proof (rule commit_record_ok [OF D(1,3,4) e])
    fix c' q
    assume c': "staged L ?fs (sy_disk s) ?i = Some c'" and v: "w_disk v = sy_disk s" "db_inv (w_db v)"
      and q: "q \<in> set (tb_object (w_db v))" "ob_id q = db_o_id e" "ob_hash q = sha256sum L c'"
      and rows: "tb_object (w_db v) = tb_object (sy_db s) \<or>
        (\<exists>p. tb_object (w_db v) = tb_object (sy_db s) @ [p] \<and> ob_id p = ?i \<and> ob_hash p = sha256sum L c')"
    have same: "tb_object (w_db v) = tb_object (sy_db s)"
    proof (rule ccontr)
      assume "tb_object (w_db v) \<noteq> tb_object (sy_db s)"
      then obtain p where "tb_object (w_db v) = tb_object (sy_db s) @ [p]" "ob_id p = ?i" using rows by blast
      with db_invD(3) [OF v(2)] r show False by auto
    qed
    have "q = r" using db_invD(4) [OF D(3)] q(1,3) r h c c' by (auto simp: same distinct_map dest: inj_onD)
    then have id: "db_o_id e = ?i" using q(2) by simp
    show ?thesis
    proof (rule settle_eq [OF D(2), of ?fs v ?i c e])
      show "disk_inv ?fs (w_disk v)" "staged L ?fs (w_disk v) ?i = Some c" using D(4) c v(1) by simp_all
      fix d'
      assume "settle L ?fs ?i e v = (Inr (to_object e), v\<lparr>w_disk := d'\<rparr>)" "disk_inv ?fs d'"
        "staged L ?fs d' = (staged L ?fs (w_disk v))(?i := None)"
        "stored L ?fs d' = (if db_o_id e = ?i then (stored L ?fs (w_disk v))(?i \<mapsto> c) else stored L ?fs (w_disk v))"
      then show ?thesis
        using e id same h by (simp add: commit_part_halves check_object_eq [OF D(2)] object_view_def)
    qed
  qed
qed

theorem cut_off_commit_completes_witness:
  "\<exists>x w'. commit_part sample fs0 300 1 5 (sy_world killed5) = (Inr x, w') \<and> o_id x = 5 \<and>
     stored sample fs0 (w_disk w') 5 = Some [104, 105]"
proof -
  let ?r = "\<lparr>ob_id = 5, ob_hash = ''6869'', ob_size = 2, ob_type = ''text'', ob_subtype = ''plain'', ob_added = 200\<rparr>"
  have "?r \<in> set (tb_object (sy_db killed5))" "1 \<in> bk_id ` set (tb_bucket (sy_db killed5))"
    "staged sample (home_fs [''data'']) (sy_disk killed5) (ob_id ?r) = Some [104, 105]"
    using upload2(2) by (simp_all add: killed5_def db3_def db1_def fs0_def)
  from cut_off_commit_completes [OF sample_reachable(2) this(1,3) mime_hi this(2), of 300] show ?thesis
    by (auto simp: fs0_def)
qed

text \<open>C14: The second halves.  Whatever is running and however part ids are used, \<open>prune\<close> ends well at every file it
  has still to remove, and a commit whose row is recorded ends well exactly when its object is another one or its part is still
  there.  As long as the clients keep part ids apart every such commit ends well, and no file that is to be removed
  is the file of an object of the catalogue.\<close>

theorem second_halves_succeed:
  assumes laws: "laws L" and run: "trace (server_step L (home_fs home)) (started home m) tr s"
  shows "(\<forall>x \<in> set (sy_removals s). fst (remove_file L (home_fs home) x (sy_world s)) = Inr ()) \<and>
    (\<forall>(i, e) \<in> set (sy_commits s). fst (settle L (home_fs home) i e (sy_world s)) = Inr (to_object e) \<longleftrightarrow>
      db_o_id e \<noteq> i \<or> staged L (home_fs home) (sy_disk s) i \<noteq> None) \<and>
    (allowed part_ids_apart tr \<longrightarrow>
      (\<forall>(i, e) \<in> set (sy_commits s). fst (settle L (home_fs home) i e (sy_world s)) = Inr (to_object e)) \<and>
      (\<forall>x \<in> set (sy_removals s). x \<notin> ids (sy_db s)))"
proof -
  let ?fs = "home_fs home"
  have C: "consistent L ?fs s"
    using any_ids.inv_trace [OF run _ started_consistent [OF laws]] by (simp add: allowed_def)
  note C = consistentD(2,4) [OF C]
  have rem: "fst (remove_file L ?fs x (sy_world s)) = Inr ()" for x
    using erase_disk [OF C, of x] by (auto simp: remove_file_def on_disk_def)
  have iff: "fst (settle L ?fs i e (sy_world s)) = Inr (to_object e) \<longleftrightarrow>
      db_o_id e \<noteq> i \<or> staged L ?fs (sy_disk s) i \<noteq> None" for i e
    using settle_consistent [OF C, of i e] by (metis prod.collapse)
  have "system_inv L ?fs s" if "allowed part_ids_apart tr"
    using laws run that reachable_inv unfolding reachable_trace by blast
  then have "(\<forall>(i, e) \<in> set (sy_commits s). staged L ?fs (sy_disk s) i \<noteq> None) \<and> set (sy_removals s) \<inter> ids (sy_db s) = {}"
    if "allowed part_ids_apart tr"
    using that by (auto simp: system_inv_def commits_inv_def)
  with rem iff show ?thesis by fastforce
qed

theorem second_halves_succeed_witness:
  "fst (settle sample fs0 5 e5 (sy_world recorded5)) = Inr (to_object e5)"
  using second_halves_succeed [OF sample_laws(1) recorded5_run [unfolded fs0_def]] run5_apart
  by (simp add: recorded5_def fs0_def)

text \<open>C12: What a download announces and sends is the whole object.  While the clients keep part ids apart, whatever
  requests interleave and wherever processes are killed: when a download got the row of an object whose content is in
  one place, its part or its file, and opens the file after any further steps in which no new upload takes the
  object's id, the size in the row is the length of the content read, for contents below 2^63 bytes, so the encoder of
  \<open>file\<close> neither cuts it off nor announces more than there is.\<close>

theorem download_is_whole:
  assumes laws: "laws L" and run: "trace (server_step L (home_fs home)) (started home m) tr s"
    and later: "trace (server_step L (home_fs home)) s tr' t" and apart: "allowed part_ids_apart (tr @ tr')"
    and new: "\<forall>(u, a) \<in> set tr'. a \<noteq> Writes x"
    and place: "staged L (home_fs home) (sy_disk s) x = None \<or> stored L (home_fs home) (sy_disk s) x = None"
    and got: "get_object_metadata L b x (sy_world s) = (Inr row, v)"
    and read: "finish_download L (home_fs home) x row (sy_world t) = (Inr (meta, content), w)"
    and small: "length content < 2 ^ 63"
  shows "meta = row \<and> int (unat (o_size meta)) = int (length content) \<and>
    encode_file meta content = (of_nat (length content), content)"
proof -
  let ?fs = "home_fs home"
  have s: "reachable L home s" using laws run apart unfolding reachable_trace by auto
  note D = system_invD [OF reachable_inv [OF s]]
  obtain e where e: "entry (sy_db s) b x = Some e" "row = to_object e"
    using got metadata_entry [OF reachable_inv [OF s], of b x] by (auto split: option.splits)
  obtain c where c: "content_at L ?fs (sy_disk s) x = Some c" using object_hash [OF s e(1)] by blast
  have t: "system_inv L ?fs t" and only: "holds_only L ?fs x c False t"
    using later_content [OF s later _ new c, of False] apart place by simp_all
  have opened: "meta = to_object e" "content = c"
    using read only e(2) by (auto simp: finish_download_eq [OF system_invD(2,4) [OF t]] holds_only_def split: option.splits)
  note r = object_of_ref [OF D(3) entry_SomeD(3) [OF D(3) e(1)]]
  have "ob_size (object_of (sy_db s) x) = recorded_size content"
    using reachable_measured [OF s] r c opened(2) by (auto simp: measured_def)
  then have size: "db_o_size e = int (length content)"
    using entry_SomeD(5) [OF D(3) e(1)] recorded_size_exact [OF small] by simp
  have "is_int64 (int (length content))" using small by (simp add: is_int64_def)
  then have "int (unat (o_size meta)) = int (length content)"
    using unat_word_of_int64 [of "int (length content)"] by (simp add: opened(1) size)
  moreover from this have "unat (o_size meta) = length content" by (simp only: of_nat_eq_iff)
  moreover have "o_size meta = of_nat (length content)" by (simp add: opened(1) size)
  ultimately show ?thesis using e(2) opened(1) by (metis encode_file_def order_refl take_all)
qed

lemma recorded5_stored: "stored sample fs0 (w_disk w2) = Map.empty"
proof -
  have "stored sample fs0 (w_disk w0) = Map.empty"
    using filesystem_new_blank [of "[''data'']" "0x12"] by (auto simp: w0_def new_store_def stored_def fs0_def)
  then show ?thesis
    using stage_disk(2) [OF store_invD(5) [OF sample_inv(2)]] by (simp add: w2_def upload_part_eq create1(3))
qed

theorem download_is_whole_witness:
  "fst (get_object_metadata sample 1 5 (sy_world recorded5)) = Inr (to_object e5) \<and>
   (\<exists>c w. finish_download sample fs0 5 (to_object e5) (sy_world settled5) = (Inr (to_object e5, c), w) \<and>
     encode_file (to_object e5) c = (2, c))"
proof -
  let ?fs = "home_fs [''data'']" and ?tr = "[(recorded5, Settles 5)]"
  note inv = reachable_inv [OF sample_reachable(1)] reachable_inv [OF sample_reachable(3)]
  have e: "entry (sy_db recorded5) 1 5 = Some e5"
    by (simp add: recorded5_def entry_def object_of_def db3_def db1_def empty_database_def contents_row_def e5_def)
  then have "fst (get_object_metadata sample 1 5 (sy_world recorded5)) = Inr (to_object e5)"
    by (simp add: metadata_entry [OF inv(1)])
  then obtain v where got: "get_object_metadata sample 1 5 (sy_world recorded5) = (Inr (to_object e5), v)"
    by (metis prod.collapse)
  have later: "trace (server_step sample ?fs) recorded5 ?tr settled5"
    using settled5_run by (simp add: trace_append fs0_def)
  have place: "staged sample ?fs (sy_disk recorded5) 5 = None \<or> stored sample ?fs (sy_disk recorded5) 5 = None"
    by (simp add: recorded5_def recorded5_stored fs0_def [symmetric])
  have read: "finish_download sample ?fs 5 (to_object e5) (sy_world settled5) = (Inr (to_object e5, [104, 105]), sy_world settled5)"
    using content3 finish_download_eq [OF system_invD(2,4) [OF inv(2)]] by (simp add: settled5_def fs0_def)
  have "allowed part_ids_apart (run5 @ ?tr)" "\<forall>(u, a) \<in> set ?tr. a \<noteq> Writes 5" by (simp_all add: run5_apart)
  then have "encode_file (to_object e5) [104, 105] = (2, [104, 105])"
    using download_is_whole [OF sample_laws(1) recorded5_run [unfolded fs0_def] later _ _ place got read] by simp
  with got read show ?thesis by (simp add: fs0_def)
qed

text \<open>A check that meets an object between the two halves of its commit reports its file as missing, and records that
  until the next check, although the commit goes on to put the file in its place.\<close>

theorem check_beside_commit:
  assumes s: "reachable L home s" and e: "(ob_id r, e) \<in> set (sy_commits s)" "db_o_id e = ob_id r"
    and r: "r \<in> set (tb_object (sy_db s))" and "stored L (home_fs home) (sy_disk s) (ob_id r) = None"
  shows "check_object L (home_fs home) (sy_disk s) (object_view r) = ''file missing'' \<and>
    (\<exists>w'. settle L (home_fs home) (ob_id r) e (sy_world s) = (Inr (to_object e), w') \<and>
      check_object L (home_fs home) (w_disk w') (object_view r) = [])"
proof -
  let ?fs = "home_fs home"
  note D = system_invD [OF reachable_inv [OF s]]
  obtain c where c: "staged L ?fs (sy_disk s) (ob_id r) = Some c"
    using D(6) e(1) by (fastforce simp: commits_inv_def)
  have h: "sha256sum L c = ob_hash r" using content_kept [OF s r] c by (auto simp: content_at_def)
  have "\<exists>w'. settle L ?fs (ob_id r) e (sy_world s) = (Inr (to_object e), w') \<and>
      check_object L ?fs (w_disk w') (object_view r) = []"
    by (rule settle_eq [OF D(2,4) c, of e]) (auto simp: check_object_eq [OF D(2)] e(2) h object_view_def)
  then show ?thesis using assms(5) by (simp add: check_object_eq [OF D(2,4)] object_view_def)
qed

end
