(* ===== verification/Linear_Properties.thy ===== *)
theory Linear_Properties
  imports Linear Recovery_Properties
begin

text \<open>
  The property that concurrent requests are served as if one after the other.
\<close>

text \<open>C8: As long as the clients keep part ids apart, requests that run at the same time are linearizable: from every
  state the server can be in, crashes included, whatever the interleaving of their halves, their answers are those
  \<open>spec\<close> gives to the same requests one after the other, in the order of their database calls, and the shelf is the one
  \<open>spec\<close> leaves; the second half of a commit gives the client the answer of its first, and that of a \<open>prune\<close> cannot
  fail.  A download that got its row at \<open>u\<close> and opens the file at \<open>t\<close>, when no new upload has taken the object's id and
  no earlier one has left a file, gives what \<open>spec\<close> gives at \<open>u\<close>, or finds no file; the latter only when the commit has not
  put the file in its place yet, or a \<open>prune\<close> has taken the object away.\<close>

theorem server_linearizable:
  assumes start: "reachable L home s" and trim: "trim_law L"
    and run: "trace (live_step L (home_fs home)) s h u" "trace (live_step L (home_fs home)) u h' t"
    and apart: "allowed live_apart (h @ h')"
  shows "run_requests (spec L) (map fst (served (h @ h'))) (settled_shelf L (home_fs home) s) =
      (map snd (served (h @ h')), settled_shelf L (home_fs home) t) \<and>
    (\<forall>i e r w'. (i, e) \<in> set (sy_commits t) \<and> settle L (home_fs home) i e (sy_world t) = (r, w') \<longrightarrow> r = Inr (to_object e)) \<and>
    (\<forall>x r w'. x \<in> set (sy_removals t) \<and> remove_file L (home_fs home) x (sy_world t) = (r, w') \<longrightarrow> r = Inr ()) \<and>
    (\<forall>b x. case fst (get_object_metadata L b x (sy_world u)) of
        Inl err \<Rightarrow> spec L (Ask_object b x) (settled_shelf L (home_fs home) u) =
          (Refused err, settled_shelf L (home_fs home) u)
      | Inr meta \<Rightarrow> (\<forall>(v, l) \<in> set h'. \<not> uploads_to x l) \<and>
          (staged L (home_fs home) (sy_disk u) x \<noteq> None \<longrightarrow> stored L (home_fs home) (sy_disk u) x = None) \<longrightarrow>
          (\<exists>c. spec L (Ask_object b x) (settled_shelf L (home_fs home) u) =
              (Gives_file meta c, settled_shelf L (home_fs home) u) \<and>
            (fst (finish_download L (home_fs home) x meta (sy_world t)) = Inr (meta, c) \<or>
             fst (finish_download L (home_fs home) x meta (sy_world t)) = Inl (File_error No_such_file) \<and>
               (staged L (home_fs home) (sy_disk t) x \<noteq> None \<or> x \<notin> ids (sy_db t)))))"
proof -
  let ?fs = "home_fs home"
  have s: "system_inv L ?fs s" by (rule reachable_inv [OF start])
  have ok: "allowed live_apart h" "allowed live_apart h'" using apart by simp_all
  have u: "system_inv L ?fs u" by (rule live.inv_trace [OF run(1) ok(1) s])
  have t: "system_inv L ?fs t" by (rule live.inv_trace [OF run(2) ok(2) u])
  have whole: "trace (live_step L ?fs) s (h @ h') t" using run by (auto simp: trace_append)
  have download: "\<exists>c. spec L (Ask_object b x) (settled_shelf L ?fs u) = (Gives_file (to_object e) c, settled_shelf L ?fs u) \<and>
      (fst (finish_download L ?fs x (to_object e) (sy_world t)) = Inr (to_object e, c) \<or>
       fst (finish_download L ?fs x (to_object e) (sy_world t)) = Inl (File_error No_such_file) \<and>
         (staged L ?fs (sy_disk t) x \<noteq> None \<or> x \<notin> ids (sy_db t)))"
    if e: "entry (sy_db u) b x = Some e" and new: "\<forall>(v, l) \<in> set h'. \<not> uploads_to x l"
      and fresh: "staged L ?fs (sy_disk u) x \<noteq> None \<longrightarrow> stored L ?fs (sy_disk u) x = None" for b x e
  proof -
    obtain c where c: "content_at L ?fs (sy_disk u) x = Some c"
      "spec L (Ask_object b x) (settled_shelf L ?fs u) = (Gives_file (to_object e) c, settled_shelf L ?fs u)"
      by (rule download_spec [OF u e])
    have "holds_only L ?fs x c False u" using c(1) fresh by (auto simp: holds_only_def content_at_def split: option.splits)
    moreover have "allowed (\<lambda>l s. live_apart l s \<and> \<not> uploads_to x l) h'" using ok(2) new by (auto simp: allowed_def)
    ultimately have h: "holds_only L ?fs x c False t" using one_content.inv_trace [OF run(2)] u by blast
    note D = system_invD [OF t]
    have "staged L ?fs (sy_disk t) x \<noteq> None \<or> x \<notin> ids (sy_db t)" if "stored L ?fs (sy_disk t) x = None"
      using D(5) that by (force simp: recoverable_def content_at_def ids_def split: option.splits)
    then show ?thesis
      using c(2) h by (auto simp: finish_download_eq [OF D(2,4)] holds_only_def simp del: spec.simps)
  qed
  have "case fst (get_object_metadata L b x (sy_world u)) of
      Inl err \<Rightarrow> spec L (Ask_object b x) (settled_shelf L ?fs u) = (Refused err, settled_shelf L ?fs u)
    | Inr meta \<Rightarrow> (\<forall>(v, l) \<in> set h'. \<not> uploads_to x l) \<and>
        (staged L ?fs (sy_disk u) x \<noteq> None \<longrightarrow> stored L ?fs (sy_disk u) x = None) \<longrightarrow>
        (\<exists>c. spec L (Ask_object b x) (settled_shelf L ?fs u) = (Gives_file meta c, settled_shelf L ?fs u) \<and>
          (fst (finish_download L ?fs x meta (sy_world t)) = Inr (meta, c) \<or>
           fst (finish_download L ?fs x meta (sy_world t)) = Inl (File_error No_such_file) \<and>
             (staged L ?fs (sy_disk t) x \<noteq> None \<or> x \<notin> ids (sy_db t))))" for b x
  proof (cases "entry (sy_db u) b x")
    case None
    then show ?thesis using refused_download_spec by (simp add: metadata_entry [OF u] del: spec.simps)
  next
    case (Some e)
    then show ?thesis using download [OF Some] by (simp add: metadata_entry [OF u] del: spec.simps)
  qed
  then show ?thesis
    using live_trace_spec [OF whole apart s trim] settles_spec(1) [OF t] erases_spec(1) [OF t] by blast
qed

text \<open>The commit of object 5 is recorded; its metadata is read, and a download has its row; then the part is settled, and
  the download opens the file.\<close>

theorem server_linearizable_witness:
  "run_requests (spec sample) [Ask_metadata 1 5] (settled_shelf sample fs0 recorded5) =
     ([Gives_object object5], settled_shelf sample fs0 settled5) \<and>
   fst (finish_download sample fs0 5 object5 (sy_world settled5)) = Inr (object5, [104, 105])"
proof -
  have u: "system_inv sample fs0 recorded5" using reachable_inv [OF sample_reachable(1)] by (simp add: fs0_def)
  have e: "entry (sy_db recorded5) 1 5 = Some e5"
    by (simp add: recorded5_def entry_def object_of_def db3_def db1_def empty_database_def contents_row_def e5_def)
  have obj: "to_object e5 = object5" by (simp add: e5_def object5_def to_object_def)
  have "serve sample fs0 (Ask_metadata 1 5) (sy_world recorded5) = (Gives_object object5, sy_world recorded5)"
    using e store_invD(3,4) [OF sample_inv(4)] obj by (simp add: recorded5_def metadata_on commit3(2))
  from live_step.Answers [OF _ this]
  have h: "trace (live_step sample fs0) recorded5 [(recorded5, Some (Ask_metadata 1 5, Gives_object object5))] recorded5" by simp
  have h': "trace (live_step sample fs0) recorded5 [(recorded5, None)] settled5"
    using live_step.Settles [OF _ settle5] by (simp add: recorded5_def settled5_def)
  have disk: "staged sample fs0 (sy_disk recorded5) 5 = Some [104, 105]" "stored sample fs0 (sy_disk recorded5) 5 = None"
    using upload2 store_invD(6) [OF sample_inv(3)]
    by (simp_all add: recorded5_def agree_def db1_def empty_database_def dom_def)
  have meta: "fst (get_object_metadata sample 1 5 (sy_world recorded5)) = Inr object5"
    using e obj by (simp add: metadata_entry [OF u])
  have apart: "allowed live_apart ([(recorded5, Some (Ask_metadata 1 5, Gives_object object5))] @ [(recorded5, None)])" by simp
  note C = server_linearizable [OF sample_reachable(1) sample_laws(2), folded fs0_def, OF h h' apart]
  note download = C [THEN conjunct2, THEN conjunct2, THEN conjunct2, THEN HOL.spec [of _ 1], THEN HOL.spec [of _ 5], unfolded meta]
  have "spec sample (Ask_object 1 5) (settled_shelf sample fs0 recorded5) =
      (Gives_file object5 [104, 105], settled_shelf sample fs0 recorded5)"
    using e obj disk by (simp add: listing_abstract content_at_def ids_def recorded5_def db3_def)
  then have "fst (finish_download sample fs0 5 object5 (sy_world settled5)) = Inr (object5, [104, 105])"
    using download disk settled5_staged by (simp add: settled5_def commit3(2) ids_def db3_def del: spec.simps)
  then show ?thesis using C by (simp del: spec.simps)
qed

end
