(* ===== verification/Bucket_Properties.thy ===== *)
theory Bucket_Properties
  imports Store_System Sample
begin

text \<open>
  The properties of the operations on buckets: naming, listing, accounting and bulk removal.
\<close>

section \<open>Creating and renaming\<close>

text \<open>A bucket row found by name, after a change of the table.\<close>

lemma bucket_named_iff:
  "db_inv db \<Longrightarrow> bucket_named db n = Some r \<longleftrightarrow> r \<in> set (tb_bucket db) \<and> bk_name r = n"
  unfolding bucket_named_def by (rule row_map_Some_iff [OF db_invD(2)])

lemma bucket_named_None_iff: "bucket_named db n = None \<longleftrightarrow> n \<notin> bk_name ` set (tb_bucket db)"
  by (simp add: bucket_named_def row_map_None_iff)

lemma members_unlisted:
  assumes "db_inv db" and "b \<notin> bk_id ` set (tb_bucket db)" shows "members db b = {}"
proof -
  have "entry db b x = None" for x
    using entry_SomeD(2) [OF assms(1), of b x] assms(2) by (cases "entry db b x") blast+
  then show ?thesis by (simp add: members_def)
qed

text \<open>A created bucket carries the trimmed name, is empty, and is what fetching that name returns;
  a name of white space only is refused, and so is a name in use, without any change.\<close>

theorem create_bucket_behaviour:
  assumes inv: "store_inv L fs w" and trim: "trim_law L"
  shows "case store_create_bucket L i now name w of
      (Inl e, w') \<Rightarrow> w' = w \<and>
        (e = Invalid_data ''bucket name cannot be empty'' \<and> (\<forall>c \<in> set name. is_space c) \<or>
         e = Unique_bucket_violation (strip name) \<and>
           (strip name \<in> bk_name ` set (tb_bucket (w_db w)) \<or> i \<in> bk_id ` set (tb_bucket (w_db w))))
    | (Inr b, w') \<Rightarrow> b = fresh_bucket i (strip name) now \<and>
        store_fetch_bucket L (strip name) w' = (Inr b, w') \<and>
        fst (store_create_bucket L j now' name w') = Inl (Unique_bucket_violation (strip name))"
proof (cases "\<forall>c \<in> set name. is_space c")
  case True
  then show ?thesis by (simp add: store_create_bucket_def process_bucket_name_eq [OF trim])
next
  case False
  then have n: "process_bucket_name L name = Inr (strip name)"
    by (simp add: process_bucket_name_eq [OF trim])
  let ?n = "strip name" and ?r = "\<lparr>bk_id = i, bk_name = strip name, bk_created = now\<rparr>"
  note D = store_invD [OF inv]
  show ?thesis
  proof (cases "i \<in> bk_id ` set (tb_bucket (w_db w)) \<or> ?n \<in> bk_name ` set (tb_bucket (w_db w))")
    case True
    then show ?thesis by (auto simp: store_create_bucket_eq [OF inv n])
  next
    case free: False
    define w' where "w' = w\<lparr>w_db := (w_db w)\<lparr>tb_bucket := tb_bucket (w_db w) @ [?r]\<rparr>\<rparr>"
    have ok: "store_create_bucket L i now name w = (Inr (fresh_bucket i ?n now), w')"
      using free by (simp add: store_create_bucket_eq [OF inv n] w'_def)
    have inv': "store_inv L fs w'" using store_changes_inv(1) [OF inv, of i now name] ok by simp
    have row: "bucket_named (w_db w') ?n = Some ?r"
      by (subst bucket_named_iff [OF store_invD(4) [OF inv']]) (simp add: w'_def)
    have "members (w_db w') i = members (w_db w) i"
      by (simp add: w'_def members_def entry_def object_of_def)
    then have "members (w_db w') i = {}" using members_unlisted [OF D(4)] free by blast
    then have "bucket_view (w_db w') ?r = Inr \<lparr>db_b_id = i, db_b_name = ?n, db_b_date_created = now,
        db_b_size = 0, db_b_space_used = 0\<rparr>"
      by (simp add: bucket_view_eq [OF store_invD(4) [OF inv']] Let_def int8_fits total_size_def)
    then have "sql_fetch_bucket ?n (w_db w') = Inr [\<lparr>db_b_id = i, db_b_name = ?n,
        db_b_date_created = now, db_b_size = 0, db_b_space_used = 0\<rparr>]"
      using row by (simp add: sql_fetch_bucket_eq [OF store_invD(4) [OF inv']] bucket_named_def)
    then have "store_fetch_bucket L ?n w' = (Inr (fresh_bucket i ?n now), w')"
      using D(3) by (simp add: store_fetch_bucket_def connection_fetch_bucket_def on_db_def reading_def
          step_simps prepared_provide fresh_bucket_def to_bucket_def)
    moreover have "fst (store_create_bucket L j now' name w') = Inl (Unique_bucket_violation ?n)"
      by (simp add: store_create_bucket_eq [OF inv' n]) (simp add: w'_def)
    ultimately show ?thesis by (simp add: ok)
  qed
qed

theorem create_bucket_behaviour_witness:
  "store_fetch_bucket sample ''photos'' w1 = (Inr bucket1, w1) \<and>
   fst (store_create_bucket sample 2 300 '' photos '' w1) = Inl (Unique_bucket_violation ''photos'')"
proof -
  have "store_create_bucket sample 1 100 '' photos '' w0 = (Inr bucket1, w1)"
    by (rule prod_eqI) (simp_all only: create1(1) w1_def fst_conv snd_conv)
  then show ?thesis
    using create_bucket_behaviour [OF sample_inv(1) sample_laws(2), where i = 1 and now = 100 and name = "'' photos ''"
        and j = 2 and now' = 300]
    by (simp add: strip_photos)
qed

text \<open>C20: Renaming a bucket moves its name and nothing else: it is found under the trimmed new name with
  the same id, date and contents, and no longer under the old name if that differs.\<close>

theorem rename_bucket_moves:
  assumes inv: "store_inv L fs w" and trim: "trim_law L"
    and old: "store_fetch_bucket L n w = (Inr i, w)"
    and ok: "store_rename_bucket L (b_id i) m w = (Inr (), w')"
  shows "store_fetch_bucket L (strip m) w' = (Inr (i\<lparr>b_name := strip m\<rparr>), w') \<and>
    (n \<noteq> strip m \<longrightarrow> fst (store_fetch_bucket L n w') = Inl (bucket_not_found n)) \<and>
    (\<forall>b x. fst (get_object L fs b x w') = fst (get_object L fs b x w))"
proof -
  note D = store_invD [OF inv]
  have inv': "store_inv L fs w'" using store_changes_inv(5) [OF inv, of "b_id i" m] ok by simp
  obtain r where r: "i = bucket_info (w_db w) r" "r \<in> set (tb_bucket (w_db w))" "bk_name r = n"
    and row: "bucket_named (w_db w) n = Some r"
    using store_fetch_bucket_Inr [OF inv old] by metis
  have name: "process_bucket_name L m = Inr (strip m)"
    using ok by (auto simp: store_rename_bucket_def process_bucket_name_eq [OF trim] split: if_splits)
  have id: "b_id i = bk_id r" using r(1) by (simp add: bucket_info_def)
  obtain db where db: "sql_rename_bucket (bk_id r) (strip m) (w_db w) = Inr db" and w': "w' = w\<lparr>w_db := db\<rparr>"
    using ok by (auto simp: store_rename_bucket_eq [OF name] id split: sum.splits)
  note F = sql_rename_bucket_frame [OF db]
  let ?r' = "rename_row (bk_id r) (strip m) r"
  have named: "bucket_named db (strip m) = Some ?r'"
    using r(2) F(4) store_invD(4) [OF inv'] by (simp add: bucket_named_iff w')
  have info: "bucket_info db ?r' = i\<lparr>b_name := strip m\<rparr>"
    by (simp add: bucket_info_def members_same [OF F(1,2)] total_size_same [OF F(1)] r(1))
  obtain v where v: "bucket_view (w_db w) r = Inr v"
    using old row by (cases "bucket_view (w_db w) r")
      (auto simp: store_fetch_bucket_def connection_fetch_bucket_def on_db_def reading_def step_simps
        prepared_provide sql_fetch_bucket_eq [OF D(4)] bucket_named_def)
  then obtain v' where v': "bucket_view db ?r' = Inr v'"
    using bucket_view_Inr(2,3) [OF D(4) v] store_invD(4) [OF inv']
    by (simp add: bucket_view_eq w' members_same [OF F(1,2)] total_size_same [OF F(1)] Let_def int8_fits)
  have "store_fetch_bucket L (strip m) w' = (Inr (i\<lparr>b_name := strip m\<rparr>), w')"
    using named v' D(3) info bucket_view_Inr(1) [OF _ v'] store_invD(4) [OF inv']
    by (simp add: store_fetch_bucket_def connection_fetch_bucket_def on_db_def reading_def step_simps
        prepared_provide sql_fetch_bucket_eq bucket_named_def w')
  moreover have "fst (store_fetch_bucket L n w') = Inl (bucket_not_found n)" if "n \<noteq> strip m"
  proof -
    have "c = r" if "c \<in> set (tb_bucket (w_db w))" "bk_name c = n" for c
      using that r(2,3) db_invD(2) [OF D(4)] by (auto simp: distinct_map dest: inj_onD)
    then have "bucket_named db n = None"
      using that by (auto simp: bucket_named_None_iff F(4) split: if_splits)
    then show ?thesis
      using D(3) store_invD(4) [OF inv'] by (simp add: store_fetch_bucket_def connection_fetch_bucket_def
          on_db_def reading_def step_simps prepared_provide sql_fetch_bucket_eq bucket_named_def w')
  qed
  moreover have "fst (get_object L fs b x w') = fst (get_object L fs b x w)" for b x
    by (cases "entry (w_db w) b x") (simp_all add: get_object_eq [OF inv] get_object_eq [OF inv'],
        simp_all add: w' entry_same [OF F(1,2)])
  ultimately show ?thesis by blast
qed

definition w1r :: world where
  "w1r = snd (store_rename_bucket sample 1 ''pictures'' w1)"

theorem rename_bucket_moves_witness:
  "store_fetch_bucket sample ''pictures'' w1r = (Inr (bucket1\<lparr>b_name := ''pictures''\<rparr>), w1r) \<and>
   fst (store_fetch_bucket sample ''photos'' w1r) = Inl (bucket_not_found ''photos'')"
proof -
  have strip: "strip ''pictures'' = ''pictures''" by (simp add: strip_def is_space_def)
  then have name: "process_bucket_name sample ''pictures'' = Inr ''pictures''"
    by (simp add: process_bucket_name_def sample_def)
  have "fst (store_rename_bucket sample 1 ''pictures'' w1) = Inr ()"
    by (simp add: store_rename_bucket_eq [OF name] sql_rename_bucket_def update_bucket_name_def create1(2) db1_def)
  then have "store_rename_bucket sample (b_id bucket1) ''pictures'' w1 = (Inr (), w1r)"
    by (simp add: w1r_def bucket1_def prod_eq_iff)
  from rename_bucket_moves [OF sample_inv(2) sample_laws(2) fetch1 this] show ?thesis
    by (simp add: strip)
qed

section \<open>Listing\<close>

text \<open>Fetching several buckets is fetching each name in turn, in the order of the names and with
  their repetitions, leaving out the names that are not found.\<close>

theorem fetch_buckets_each:
  assumes inv: "store_inv L fs w" and fit: "counts_fit (w_db w)"
  shows "store_fetch_buckets names w =
    (Inr (concat (map (\<lambda>n. case fst (store_fetch_bucket L n w) of Inr i \<Rightarrow> [i] | Inl _ \<Rightarrow> []) names)), w)"
proof -
  have "(case fst (store_fetch_bucket L n w) of Inr i \<Rightarrow> [i] | Inl _ \<Rightarrow> []) =
      map (bucket_info (w_db w)) (option_list (bucket_named (w_db w) n))" for n
    by (simp add: store_fetch_bucket_eq [OF inv fit] split: option.split)
  then show ?thesis
    by (simp add: store_fetch_buckets_eq [OF inv fit] map_concat comp_def)
qed

theorem fetch_buckets_each_witness:
  "store_fetch_buckets [''none'', ''photos'', ''photos''] w1 = (Inr [bucket1, bucket1], w1)"
proof -
  have fit: "counts_fit (w_db w1)"
    by (simp add: counts_fit_def create1(2) members1 total_size_def)
  have none: "fst (store_fetch_bucket sample ''none'' w1) = Inl (bucket_not_found ''none'')"
    by (simp add: store_fetch_bucket_eq [OF sample_inv(2) fit] bucket_named_def create1(2) db1_def)
  show ?thesis
    using fetch_buckets_each [OF sample_inv(2) fit, of "[''none'', ''photos'', ''photos'']"]
    by (simp add: none fetch1)
qed

text \<open>A bucket that is returned is the one row the statement has delivered.\<close>

lemma fetched_row:
  assumes inv: "store_inv L fs w" and ok: "store_fetch_bucket L n w = (Inr i, w')"
  obtains v where "sql_fetch_bucket n (w_db w) = Inr [v]" "i = to_bucket v"
proof (cases "sql_fetch_bucket n (w_db w)")
  case (Inr rows)
  have "\<exists>v. rows = [v] \<and> i = to_bucket v"
    using ok Inr store_invD(3) [OF inv] sql_fetch_bucket_eq [OF store_invD(4) [OF inv], of n]
    by (cases "row_map bk_name (tb_bucket (w_db w)) n")
       (auto simp: store_fetch_bucket_def connection_fetch_bucket_def on_db_def reading_def step_simps
         prepared_provide bind_sum_Inr_iff)
  with Inr that show ?thesis by blast
qed (use ok store_invD(3) [OF inv] in \<open>auto simp: store_fetch_bucket_def connection_fetch_bucket_def on_db_def
       reading_def step_simps prepared_provide\<close>)

section \<open>Removing\<close>

text \<open>The result of a bulk removal accounts for the change of the bucket: the objects left and the
  objects removed are the objects there were, and so are the sizes; the objects named are gone from
  the bucket, and the other objects and buckets read as before.\<close>

theorem remove_objects_accounts:
  assumes inv: "store_inv L fs w"
    and before: "store_fetch_bucket L n w = (Inr i, w)"
    and ok: "store_remove_objects L (b_id i) xs w = (Inr res, w')"
    and after: "store_fetch_bucket L n w' = (Inr i', w')"
  shows "b_size i' + rr_objects_removed res = b_size i \<and>
    b_space_used i' + rr_space_freed res = b_space_used i \<and>
    (\<forall>b x. fst (get_object_metadata L b x w') =
       (if b = b_id i \<and> x \<in> set xs then Inl (object_not_found L b x)
        else fst (get_object_metadata L b x w)))"
proof -
  note D = store_invD [OF inv]
  have inv': "store_inv L fs w'" using store_changes_inv(4) [OF inv, of "b_id i" xs] ok by simp
  note D' = store_invD [OF inv']
  obtain r where r: "i = bucket_info (w_db w) r" "r \<in> set (tb_bucket (w_db w))" "bk_name r = n"
    using store_fetch_bucket_Inr [OF inv before] by metis
  let ?M = "members (w_db w) (bk_id r)"
  have id: "b_id i = bk_id r" by (simp add: r(1) bucket_info_def)
  obtain db' where rm: "sql_remove_objects (bk_id r) xs (w_db w) =
      Inr ([\<lparr>db_rr_objects_removed = int (card (?M \<inter> set xs)),
             db_rr_space_freed = total_size (w_db w) (?M \<inter> set xs)\<rparr>], db')"
    and w': "w' = w\<lparr>w_db := db'\<rparr>"
    and res: "res = to_remove_result \<lparr>db_rr_objects_removed = int (card (?M \<inter> set xs)),
             db_rr_space_freed = total_size (w_db w) (?M \<inter> set xs)\<rparr>"
    using ok D(3) sql_remove_objects_eq [OF D(4), of "bk_id r" xs]
    by (cases "is_int64 (int (card (?M \<inter> set xs)))"; cases "is_int64 (total_size (w_db w) (?M \<inter> set xs))")
       (auto simp: store_remove_objects_def on_db_def connection_remove_objects_def id
          step_simps prepared_provide Let_def int8_def)
  note F = sql_remove_objects_frame [OF rm]
  obtain r' where r': "i' = bucket_info db' r'" "r' \<in> set (tb_bucket db')" "bk_name r' = n"
    using store_fetch_bucket_Inr [OF inv' after] w' by auto
  have "r' = r"
    using r r' F(1) db_invD(2) [OF D(4)] by (auto simp: distinct_map dest: inj_onD)
  have entry': "entry db' b x = (if b = bk_id r \<and> x \<in> set xs then None else entry (w_db w) b x)" for b x
    by (rule sql_remove_objects_entry [OF rm])
  then have left: "members db' (bk_id r) = ?M - set xs"
    by (auto simp: members_def split: if_splits)
  have "b_size i' + rr_objects_removed res = of_nat (card (?M - set xs) + card (?M \<inter> set xs))"
    by (simp add: r'(1) \<open>r' = r\<close> res bucket_info_def to_remove_result_def left)
  also have "\<dots> = b_size i" by (simp add: card_split r(1) bucket_info_def)
  finally have size: "b_size i' + rr_objects_removed res = b_size i" .
  have "b_space_used i' + rr_space_freed res =
      word_of_int (total_size (w_db w) (?M - set xs) + total_size (w_db w) (?M \<inter> set xs))"
    by (simp add: r'(1) \<open>r' = r\<close> res bucket_info_def to_remove_result_def left total_size_same [OF F(2)])
  also have "\<dots> = b_space_used i" by (simp add: total_size_split r(1) bucket_info_def)
  finally have space: "b_space_used i' + rr_space_freed res = b_space_used i" .
  have "fst (get_object_metadata L b x w') = (if b = b_id i \<and> x \<in> set xs
      then Inl (object_not_found L b x) else fst (get_object_metadata L b x w))" for b x
    using entry' [of b x]
    by (simp add: get_object_metadata_eq [OF inv] get_object_metadata_eq [OF inv'])
       (auto simp: w' id split: option.split)
  with size space show ?thesis by blast
qed

definition w5 :: world where
  "w5 = snd (store_remove_objects sample 1 [5, 9] w3)"

lemma removed5: "store_remove_objects sample 1 [5, 9] w3 = (Inr \<lparr>rr_objects_removed = 1, rr_space_freed = 2\<rparr>, w5)"
  by (simp add: prod_eq_iff w5_def store_remove_objects_eq [OF sample_inv(4)] commit3(2) members3 total3 is_int64_def)

lemma fetch5: "store_fetch_bucket sample ''photos'' w5 = (Inr bucket1, w5)"
proof -
  have inv: "store_inv sample fs0 w5"
    unfolding w5_def by (rule store_changes_inv(4) [OF sample_inv(4)])
  have db: "w_db w5 = db3\<lparr>tb_bucket_object := []\<rparr>"
    by (simp add: w5_def store_remove_objects_eq [OF sample_inv(4)] commit3(2) members3 total3 is_int64_def
        delete_links_def) (simp add: db3_def)
  have none: "members (w_db w5) b = {}" for b by (simp add: db members_def entry_def)
  have fit: "counts_fit (w_db w5)" by (simp add: counts_fit_def none total_size_def)
  have "bucket_named (w_db w5) ''photos'' = Some \<lparr>bk_id = 1, bk_name = ''photos'', bk_created = 100\<rparr>"
    by (simp add: bucket_named_def db db3_def db1_def)
  then show ?thesis
    by (simp add: store_fetch_bucket_eq [OF inv fit] bucket_info_def none total_size_def bucket1_def)
qed

theorem remove_objects_accounts_witness:
  "fst (get_object_metadata sample 1 5 w5) = Inl (object_not_found sample 1 5) \<and>
   b_size bucket1 + 1 = (1 :: uint64)"
  using remove_objects_accounts [OF sample_inv(4) fetch3 _ fetch5, of "[5, 9]"] removed5
  by (simp add: bucket1_def)

text \<open>Removing a bucket removes its listing and nothing else: its name is not found, its objects
  cannot be had through it, the other buckets read as before, and no object file is touched until the
  next \<open>prune\<close>.\<close>

theorem remove_bucket_isolated:
  assumes inv: "store_inv L fs w" and b: "store_fetch_bucket L n w = (Inr i, w)"
    and ok: "store_remove_bucket (b_id i) w = (res, w')"
  shows "res = Inr () \<and> fst (store_fetch_bucket L n w') = Inl (bucket_not_found n) \<and>
    (\<forall>b x. fst (get_object L fs b x w') = (if b = b_id i then Inl (object_not_found L b x)
       else fst (get_object L fs b x w))) \<and> w_disk w' = w_disk w"
proof -
  note D = store_invD [OF inv]
  have res: "res = Inr ()" and w': "w' = w\<lparr>w_db := sql_remove_bucket (b_id i) (w_db w)\<rparr>"
    using ok by (auto simp: store_remove_bucket_eq)
  have inv': "store_inv L fs w'" using store_changes_inv(2) [OF inv, of "b_id i"] ok by simp
  obtain r where r: "i = bucket_info (w_db w) r" "r \<in> set (tb_bucket (w_db w))" "bk_name r = n"
    using store_fetch_bucket_Inr [OF inv b] by metis
  have "c = r" if "c \<in> set (tb_bucket (w_db w))" "bk_name c = n" for c
    using that r(2,3) db_invD(2) [OF D(4)] by (auto simp: distinct_map dest: inj_onD)
  then have "bucket_named (w_db w') n = None"
    by (auto simp: bucket_named_None_iff w' r(1) bucket_info_def)
  then have "fst (store_fetch_bucket L n w') = Inl (bucket_not_found n)"
    using D(3) store_invD(4) [OF inv'] by (simp add: store_fetch_bucket_def connection_fetch_bucket_def
        on_db_def reading_def step_simps prepared_provide sql_fetch_bucket_eq bucket_named_def)
  moreover have "fst (get_object L fs b x w') = (if b = b_id i then Inl (object_not_found L b x)
       else fst (get_object L fs b x w))" for b x
    using sql_remove_bucket_entry [OF D(4), of "b_id i" b x]
    by (cases "b = b_id i"; cases "entry (w_db w) b x")
       (simp_all add: get_object_eq [OF inv] get_object_eq [OF inv'], simp_all add: w')
  ultimately show ?thesis using res by (simp add: w')
qed

theorem remove_bucket_isolated_witness:
  "fst (store_fetch_bucket sample ''photos'' (snd (store_remove_bucket 1 w3))) = Inl (bucket_not_found ''photos'')"
  using remove_bucket_isolated [OF sample_inv(4) fetch3] by (simp add: bucket1_def store_remove_bucket_eq)

text \<open>The totals are those of the files on the disk: the number of objects is the number of files
  under \<open>objects\<close>.\<close>

theorem totals_count_files:
  assumes inv: "store_inv L fs w" and ok: "store_fetch_totals L w = (Inr t, w')"
  shows "st_objects t = of_nat (card (dom (stored L fs (w_disk w)))) \<and>
    st_buckets t = of_nat (card (bk_name ` set (tb_bucket (w_db w)))) \<and>
    st_space_used t = word_of_int (total_size (w_db w) (dom (stored L fs (w_disk w)))) \<and> w' = w"
proof -
  note D = store_invD [OF inv]
  let ?db = "w_db w"
  have fit: "is_int64 (int (length (tb_bucket ?db)))" "is_int64 (int (length (tb_object ?db)))"
      "is_int64 (\<Sum>r \<leftarrow> tb_object ?db. ob_size r)"
    using ok by (auto simp: store_fetch_totals_def on_db_def connection_fetch_store_totals_def reading_def
        fetch_prepared_def prepared_provide sql_fetch_store_totals_def int8_def execute_def split: if_splits)
  note eq = store_fetch_totals_eq [OF inv refl fit]
  have dom: "dom (stored L fs (w_disk w)) = ob_id ` set (tb_object ?db)" using D(6) by (simp add: agree_def)
  have "card (ob_id ` set (tb_object ?db)) = length (tb_object ?db)"
    using distinct_card [OF db_invD(3) [OF D(4)]] by simp
  moreover have "card (bk_name ` set (tb_bucket ?db)) = length (tb_bucket ?db)"
    using distinct_card [OF db_invD(2) [OF D(4)]] by simp
  moreover have "(\<Sum>r \<leftarrow> tb_object ?db. ob_size r) = total_size ?db (ob_id ` set (tb_object ?db))"
  proof -
    have "(\<Sum>r \<leftarrow> tb_object ?db. ob_size r) = (\<Sum>x \<leftarrow> map ob_id (tb_object ?db). ob_size (object_of ?db x))"
      using object_of_eq [OF D(4)] by (simp add: comp_def cong: map_cong)
    also have "\<dots> = total_size ?db (ob_id ` set (tb_object ?db))"
      using sum_list_distinct_conv_sum_set [OF db_invD(3) [OF D(4)]] by (simp add: total_size_def)
    finally show ?thesis .
  qed
  moreover have "w' = w" "t = \<lparr>st_buckets = of_nat (length (tb_bucket ?db)),
      st_objects = of_nat (length (tb_object ?db)),
      st_space_used = word_of_int (\<Sum>r \<leftarrow> tb_object ?db. ob_size r)\<rparr>"
    using ok unfolding eq by (auto simp only: prod.inject sum.inject)
  ultimately show ?thesis by (simp add: dom)
qed

theorem totals_count_files_witness:
  "fst (store_fetch_totals sample w3) = Inr \<lparr>st_buckets = 1, st_objects = 1, st_space_used = 2\<rparr> \<and>
   (1 :: uint64) = of_nat (card (dom (stored sample fs0 (w_disk w3))))"
proof -
  have ok: "store_fetch_totals sample w3 = (Inr \<lparr>st_buckets = 1, st_objects = 1, st_space_used = 2\<rparr>, w3)"
    using store_fetch_totals_eq [OF sample_inv(4) refl]
    by (simp add: commit3(2) is_int64_def) (simp add: db3_def db1_def)
  from totals_count_files [OF sample_inv(4) ok] show ?thesis by (simp add: ok)
qed

section \<open>Numbers\<close>

text \<open>C21: No answer of the store carries a number that has wrapped: whenever an operation returns a bucket, the totals or the
  result of a removal, each count in it is, as an unsigned 64-bit value, the true count, and each size, as a
  signed one, the true sum of the recorded sizes; otherwise it fails.\<close>

theorem answers_exact:
  assumes inv: "store_inv L fs w"
  shows "(\<forall>n i w'. store_fetch_bucket L n w = (Inr i, w') \<longrightarrow>
      unat (b_size i) = card (members (w_db w) (b_id i)) \<and>
      sint (b_space_used i) = total_size (w_db w) (members (w_db w) (b_id i))) \<and>
    (\<forall>t w'. store_fetch_totals L w = (Inr t, w') \<longrightarrow>
      unat (st_buckets t) = length (tb_bucket (w_db w)) \<and> unat (st_objects t) = length (tb_object (w_db w)) \<and>
      sint (st_space_used t) = (\<Sum>r \<leftarrow> tb_object (w_db w). ob_size r)) \<and>
    (\<forall>b xs res w'. store_remove_objects L b xs w = (Inr res, w') \<longrightarrow>
      unat (rr_objects_removed res) = card (members (w_db w) b \<inter> set xs) \<and>
      sint (rr_space_freed res) = total_size (w_db w) (members (w_db w) b \<inter> set xs))"
proof -
  note D = store_invD [OF inv]
  have count: "unat (word_of_int (int n) :: uint64) = n" if "is_int64 (int n)" for n
    using unat_word_of_int64 [OF _ that] by (metis of_nat_0_le_iff of_nat_eq_iff)
  have bucket: "unat (b_size i) = card (members (w_db w) (b_id i)) \<and>
      sint (b_space_used i) = total_size (w_db w) (members (w_db w) (b_id i))"
    if ok: "store_fetch_bucket L n w = (Inr i, w')" for n i w'
  proof -
    obtain v where v: "i = to_bucket v" and rows: "sql_fetch_bucket n (w_db w) = Inr [v]"
      using fetched_row [OF inv ok] by metis
    obtain r where r: "bucket_view (w_db w) r = Inr v"
      using rows by (auto simp: sql_fetch_bucket_eq [OF D(4)] option_list_def bind_sum_Inr_iff split: option.splits)
    then show ?thesis
      using count sint_word_of_int64
      by (auto simp: v bucket_view_eq [OF D(4)] Let_def bind_sum_Inr_iff int8_Inr_iff to_bucket_def)
  qed
  have totals: "unat (st_buckets t) = length (tb_bucket (w_db w)) \<and> unat (st_objects t) = length (tb_object (w_db w)) \<and>
      sint (st_space_used t) = (\<Sum>r \<leftarrow> tb_object (w_db w). ob_size r)"
    if ok: "store_fetch_totals L w = (Inr t, w')" for t w'
  proof -
    have fit: "is_int64 (int (length (tb_bucket (w_db w))))" "is_int64 (int (length (tb_object (w_db w))))"
        "is_int64 (\<Sum>r \<leftarrow> tb_object (w_db w). ob_size r)"
      using ok by (auto simp: store_fetch_totals_def on_db_def connection_fetch_store_totals_def reading_def
          fetch_prepared_def prepared_provide sql_fetch_store_totals_def int8_def execute_def split: if_splits)
    show ?thesis
      using ok count [OF fit(1)] count [OF fit(2)] sint_word_of_int64 [OF fit(3)]
      unfolding store_fetch_totals_eq [OF inv refl fit] by auto
  qed
  have removed: "unat (rr_objects_removed res) = card (members (w_db w) b \<inter> set xs) \<and>
      sint (rr_space_freed res) = total_size (w_db w) (members (w_db w) b \<inter> set xs)"
    if ok: "store_remove_objects L b xs w = (Inr res, w')" for b xs res w'
  proof -
    let ?X = "members (w_db w) b \<inter> set xs"
    have fit: "is_int64 (int (card ?X))" "is_int64 (total_size (w_db w) ?X)"
      using ok sql_remove_objects_eq [OF D(4), of b xs]
      by (auto simp: store_remove_objects_def on_db_def connection_remove_objects_def fetch_prepared_def
          prepared_provide execute_def Let_def int8_def split: if_splits)
    show ?thesis
      using ok count [OF fit(1)] sint_word_of_int64 [OF fit(2)]
      unfolding store_remove_objects_eq [OF inv fit] by auto
  qed
  from bucket totals removed show ?thesis by blast
qed

theorem answers_exact_witness:
  "unat (b_size bucket1) = card (members (w_db w1) (b_id bucket1)) \<and>
   sint (b_space_used bucket1) = total_size (w_db w1) (members (w_db w1) (b_id bucket1))"
  by (rule answers_exact [OF sample_inv(2), THEN conjunct1, rule_format, OF fetch1])

end
