(* ===== verification/Check_Beside.thy ===== *)
theory Check_Beside
  imports Store_System Interleaving
begin

text \<open>
  A check beside other requests: each of its steps meets the disk of that moment, and between its steps
  others change the database its transaction sees, as long as they take no object out of the catalogue.
\<close>

inductive beside_step :: "libs \<Rightarrow> filesystem \<Rightarrow> int \<Rightarrow> check_state \<Rightarrow> check_state \<Rightarrow> bool" for L fs bs where
  Own: "check_step L fs d bs s t \<Longrightarrow> beside_step L fs bs s t"
| Other: "db_inv db \<Longrightarrow> ids (ck_db s) \<subseteq> ids db \<Longrightarrow> beside_step L fs bs s (s\<lparr>ck_db := db\<rparr>)"

section \<open>The invariant\<close>

text \<open>The ids the check has still to write a record for.\<close>

definition pending :: "check_state \<Rightarrow> uuid list" where
  "pending s = map db_o_id (concat (ck_portal s) @ ck_running s) @ map oe_id (ck_out s @ ck_in s)"

definition beside_inv :: "check_state \<Rightarrow> bool" where
  "beside_inv s \<longleftrightarrow> db_inv (ck_db s) \<and> distinct (pending s) \<and> set (pending s) \<subseteq> ids (ck_db s) \<and> control_inv s"

lemma task_pending:
  assumes "obj \<in> set (ck_running s)" shows "mset (pending (task_done L fs d obj s)) = mset (pending s)"
proof -
  have "mset (ck_running s) = add_mset obj (mset (remove1 obj (ck_running s)))" using assms by simp
  then have "mset (map db_o_id (ck_running s)) = add_mset (db_o_id obj) (mset (map db_o_id (remove1 obj (ck_running s))))"
    by (simp only: mset_map image_mset_add_mset)
  then show ?thesis
    by (simp add: pending_def task_done_def Let_def check_record_def del: mset_map mset_remove1)
qed

lemma check_step_pending:
  assumes "check_step L fs d bs s t" shows "mset (pending t) \<subseteq># mset (pending s)"
  using assms
proof cases
  case (Task obj)
  then show ?thesis using task_pending by simp
next
  case Fetch
  then show ?thesis by (cases "ck_portal s") (auto simp: pending_def fetch_batch_def ac_simps)
next
  case Update
  then show ?thesis by (auto simp: pending_def update_done_def split: prod.split sum.split)
qed (auto simp: pending_def swap_records_def ac_simps)

lemma update_beside:
  assumes inv: "beside_inv s"
  obtains db' where "update_done s = s\<lparr>ck_pc := Fetching, ck_db := db', ck_out := []\<rparr>" "db_inv db'"
    "ids db' = ids (ck_db s)"
proof -
  have dist: "distinct (map oe_id (ck_out s))" and sub: "oe_id ` set (ck_out s) \<subseteq> ids (ck_db s)"
    using inv by (auto simp: beside_inv_def pending_def)
  obtain db' where ok: "sql_update_object_errors (ck_out s) (ck_db s) = Inr db'"
    using update_errors_Inl_iff [OF dist, of "ck_db s"] sub
    by (cases "sql_update_object_errors (ck_out s) (ck_db s)") (auto simp: ids_def)
  show ?thesis
  proof (rule that)
    show "update_done s = s\<lparr>ck_pc := Fetching, ck_db := db', ck_out := []\<rparr>"
      by (simp add: update_done_def connection_update_eq [OF ok])
    show "db_inv db'" using inv update_errors_inv [OF _ ok] by (simp add: beside_inv_def)
    show "ids db' = ids (ck_db s)" using update_errors_frame [OF ok] by (simp add: ids_def)
  qed
qed

lemma mset_sub_distinct:
  assumes "mset xs \<subseteq># mset ys" and "distinct ys" shows "distinct xs"
proof -
  obtain zs where "mset ys = mset (xs @ zs)"
    using assms(1) by (metis ex_mset mset_append subset_mset.add_diff_inverse)
  then have "distinct (xs @ zs)" using assms(2) mset_eq_imp_distinct_iff by blast
  then show ?thesis by simp
qed

lemma own_step_inv:
  assumes inv: "beside_inv s" and step: "check_step L fs d bs s t"
  shows "beside_inv t"
proof -
  have sub: "mset (pending t) \<subseteq># mset (pending s)" by (rule check_step_pending [OF step])
  have "distinct (pending s)" "set (pending s) \<subseteq> ids (ck_db s)" using inv by (simp_all add: beside_inv_def)
  then have p: "distinct (pending t)" "set (pending t) \<subseteq> ids (ck_db s)"
    using mset_sub_distinct [OF sub] set_mset_mono [OF sub] by auto
  have ctl: "control_inv s" and db: "db_inv (ck_db s)" using inv by (simp_all add: beside_inv_def)
  from step show ?thesis
  proof cases
    case Update
    obtain db' where "update_done s = s\<lparr>ck_pc := Fetching, ck_db := db', ck_out := []\<rparr>" "db_inv db'"
      "ids db' = ids (ck_db s)"
      using update_beside [OF inv] .
    then show ?thesis
      using p ctl Update by (auto simp: beside_inv_def control_inv_def quiet_def)
  qed (use p ctl db in \<open>auto simp: beside_inv_def control_inv_def quiet_def task_done_def Let_def fetch_batch_def
      swap_records_def await_limit_def\<close>)
qed

lemma other_step_inv:
  assumes "beside_inv s" and "db_inv db" and "ids (ck_db s) \<subseteq> ids db"
  shows "beside_inv (s\<lparr>ck_db := db\<rparr>)"
proof -
  have "set (pending s) \<subseteq> ids db" using assms by (auto simp: beside_inv_def)
  with assms(1,2) show ?thesis by (simp add: beside_inv_def control_inv_def quiet_def pending_def)
qed

lemma beside_step_inv:
  assumes "beside_inv s" and "beside_step L fs bs s t" shows "beside_inv t"
  using assms(2) by cases (simp_all add: own_step_inv [OF assms(1)] other_step_inv [OF assms(1)])

interpretation beside: invariant_system "beside_step L fs bs" beside_inv for L fs bs
  by unfold_locales (rule beside_step_inv)

lemma beside_start:
  assumes "db_inv db" and "portal_law batches db"
  shows "beside_inv (check_start n batches db)"
  using assms get_objects_distinct [OF assms(1)] get_objects_set [of db]
  by (auto simp: beside_inv_def pending_def check_start_def portal_law_def control_inv_def quiet_def ids_def
      object_view_def)

end
