(* ===== verification/Check_Beside_Properties.thy ===== *)
theory Check_Beside_Properties
  imports Check_Beside Check_Properties
begin

text \<open>
  The property of a check that runs beside other requests.
\<close>

lemma beside_reachable:
  assumes "db_inv (w_db w)" and "portal_law batches (w_db w)" and "check_begin L batches before w = Inr s"
    and "(beside_step L fs bs)\<^sup>*\<^sup>* s t"
  shows "beside_inv t"
  using check_begin_Inr [OF assms(3)] beside_start [OF assms(1,2)] beside.inv_reachable [OF assms(4)] by auto

lemma beside_work: "beside_step L fs bs s t \<Longrightarrow> work_left t \<le> work_left s"
  by (erule beside_step.cases) (auto dest: check_step_work simp: work_left_def)

text \<open>C23: A check beside other requests that take no object out of the catalogue (uploads, commits, changes of
  buckets and of listings) is as safe as one that is alone: it never throws, leaves no task and no unsaved record when it
  returns, can always go on until then, whatever the disk, and takes only finitely many steps of its own.\<close>

theorem check_beside_uploads:
  assumes "0 \<le> batch_size" and "db_inv (w_db w)" and "portal_law batches (w_db w)" and "check_begin L batches before w = Inr s"
  shows "((beside_step L fs batch_size)\<^sup>*\<^sup>* s t \<longrightarrow>
      ck_pc t \<noteq> Threw e \<and> (ck_pc t = Returned \<longrightarrow> ck_running t = [] \<and> ck_in t = [] \<and> ck_out t = []) \<and>
      (check_final t \<or> (\<exists>u. check_step L fs d batch_size t u))) \<and>
    (f 0 = s \<and> (\<forall>n. beside_step L fs batch_size (f n) (f (Suc n))) \<longrightarrow>
      finite {n. \<exists>d. check_step L fs d batch_size (f n) (f (Suc n))})"
proof -
  have "ck_pc t \<noteq> Threw e \<and> (ck_pc t = Returned \<longrightarrow> ck_running t = [] \<and> ck_in t = [] \<and> ck_out t = []) \<and>
      (check_final t \<or> (\<exists>u. check_step L fs d batch_size t u))"
    if "(beside_step L fs batch_size)\<^sup>*\<^sup>* s t"
    using beside_reachable [OF assms(2-4) that] check_step_live [OF assms(1)]
    by (auto simp: beside_inv_def control_inv_def quiet_def)
  moreover have "finite {n. \<exists>d. check_step L fs d batch_size (f n) (f (Suc n))}"
    if "\<forall>n. beside_step L fs batch_size (f n) (f (Suc n))"
  proof -
    have "work_left (f (Suc n)) \<le> work_left (f n)" for n using that beside_work by blast
    then have "finite {n. work_left (f (Suc n)) < work_left (f n)}"
      by (rule finite_decreases [of "\<lambda>n. work_left (f n)"])
    moreover have "{n. \<exists>d. check_step L fs d batch_size (f n) (f (Suc n))} \<subseteq> {n. work_left (f (Suc n)) < work_left (f n)}"
      using check_step_work by blast
    ultimately show ?thesis by (rule rev_finite_subset)
  qed
  ultimately show ?thesis by blast
qed

theorem check_beside_uploads_witness:
  "\<exists>t. end3 t \<and> ck_pc t \<noteq> Threw Stream_error \<and> ck_running t = []"
proof -
  obtain t where t: "end3 t" using end3_exists by blast
  have "(beside_step sample fs0 500)\<^sup>*\<^sup>* (check_start 1 batches3 db3) t"
    using t mono_rtranclp [of "check_step sample fs0 (w_disk w3) 500" "beside_step sample fs0 500"] beside_step.Own
    unfolding end3_def by blast
  then show ?thesis
    using check_beside_uploads [OF _ db3_inv portal3 begin3, of 500 fs0 t Stream_error] t by (auto simp: end3_def)
qed

end
