(* ===== verification/Check_Race.thy ===== *)
theory Check_Race
  imports Check_Beside Check_Properties
begin

text \<open>
  A check beside \<open>prune\<close>, which takes objects out of the catalogue that the check has been given already.
\<close>

section \<open>The system\<close>

text \<open>
  The steps of the check, each with the disk of its moment, and the statement of a \<open>prune\<close>.  At the isolation level
  the connections have by default the check's transaction sees what others commit; what they commit also outlives its
  rollback.  The statement waits for rows that the transaction has locked by writing a record of them.
\<close>

inductive race_step :: "libs \<Rightarrow> filesystem \<Rightarrow> int \<Rightarrow> check_state \<Rightarrow> check_state \<Rightarrow> bool" for L fs bs where
  Check: "check_step L fs d bs s t \<Longrightarrow> race_step L fs bs s t"
| Pruned: "\<forall>x \<in> set (fst (sql_remove_orphan_objects (ck_db s))).
      message (ck_db s) (db_o_id x) = message (ck_saved s) (db_o_id x) \<Longrightarrow>
    race_step L fs bs s (s\<lparr>ck_db := snd (sql_remove_orphan_objects (ck_db s)),
      ck_saved := snd (sql_remove_orphan_objects (ck_saved s))\<rparr>)"

lemma check_steps_race: "(check_step L fs d bs)\<^sup>*\<^sup>* s t \<Longrightarrow> (race_step L fs bs)\<^sup>*\<^sup>* s t"
  using mono_rtranclp [of "check_step L fs d bs" "race_step L fs bs"] race_step.Check by blast

section \<open>How it can fail\<close>

lemma update_done_fails:
  assumes "sql_update_object_errors (ck_out s) (ck_db s) = Inl e"
  shows "update_done s = s\<lparr>ck_pc := Threw (Sql_error e), ck_db := ck_saved s\<rparr>"
  using assms by (simp add: update_done_def connection_update_object_errors_def query_prepared_def execute_def prepared_provide)

definition race_inv :: "check_state \<Rightarrow> bool" where
  "race_inv s \<longleftrightarrow> distinct (pending s) \<and> (\<forall>e. ck_pc s = Threw e \<longrightarrow> e = Sql_error Foreign_key_violation)"

lemma race_step_inv:
  assumes inv: "race_inv s" and step: "race_step L fs bs s t" shows "race_inv t"
  using step
proof cases
  case (Check d)
  have "distinct (pending t)"
    using mset_sub_distinct [OF check_step_pending [OF Check]] inv by (simp add: race_inv_def)
  moreover have "e = Sql_error Foreign_key_violation" if "ck_pc t = Threw e" for e
    using Check
  proof cases
    case Update
    have "distinct (map oe_id (ck_out s))" using inv by (simp add: race_inv_def pending_def)
    note iff = update_errors_Inl_iff [OF this, of "ck_db s"]
    show ?thesis
    proof (cases "sql_update_object_errors (ck_out s) (ck_db s)")
      case (Inl err)
      moreover have "err = Foreign_key_violation" using Inl iff by blast
      ultimately show ?thesis using that Update update_done_fails [of s err] by simp
    next
      case (Inr db')
      then show ?thesis using that Update by (simp add: update_done_def connection_update_eq)
    qed
  qed (use that inv in \<open>auto simp: race_inv_def task_done_def Let_def fetch_batch_def swap_records_def\<close>)
  ultimately show ?thesis by (simp add: race_inv_def)
next
  case Pruned
  then show ?thesis using inv by (simp add: race_inv_def pending_def)
qed

interpretation race: invariant_system "race_step L fs bs" race_inv for L fs bs
  by unfold_locales (rule race_step_inv)

text \<open>Some of the running tasks end, one after the other.\<close>

lemma tasks_end:
  "ck_running s = pre @ xs @ suf \<Longrightarrow> set pre \<inter> set xs = {} \<Longrightarrow>
   \<exists>p. (check_step L fs d bs)\<^sup>*\<^sup>* s (s\<lparr>ck_running := pre @ suf, ck_in := ck_in s @ map (check_record L fs d) xs, ck_progress := p\<rparr>)"
proof (induction xs arbitrary: s)
  case Nil
  then have "s\<lparr>ck_running := pre @ suf, ck_in := ck_in s @ map (check_record L fs d) [], ck_progress := ck_progress s\<rparr> = s" by simp
  then show ?case by (metis rtranclp.rtrancl_refl)
next
  case (Cons x xs)
  let ?t = "task_done L fs d x s"
  have t: "ck_running ?t = pre @ xs @ suf" "ck_in ?t = ck_in s @ [check_record L fs d x]"
    using Cons.prems by (simp_all add: task_done_def Let_def remove1_append)
  obtain p where "(check_step L fs d bs)\<^sup>*\<^sup>* ?t
      (?t\<lparr>ck_running := pre @ suf, ck_in := ck_in ?t @ map (check_record L fs d) xs, ck_progress := p\<rparr>)"
    using Cons.IH [OF t(1)] Cons.prems(2) by auto
  moreover have "?t\<lparr>ck_running := pre @ suf, ck_in := ck_in ?t @ map (check_record L fs d) xs, ck_progress := p\<rparr> =
      s\<lparr>ck_running := pre @ suf, ck_in := ck_in s @ map (check_record L fs d) (x # xs), ck_progress := p\<rparr>"
    unfolding t(2) by (simp add: task_done_def Let_def)
  moreover have "check_step L fs d bs s ?t" using Cons.prems(1) by (intro check_step.Task) simp
  ultimately show ?case by (metis converse_rtranclp_into_rtranclp)
qed

text \<open>C26: A check that runs beside a \<open>prune\<close> can fail: when it has found an object of a batch flawed that no bucket lists,
  goes on to write its records while a task of the batch is still running, and the object is removed before, the write violates
  the foreign key.  The exception leaves the coroutine, all its records are rolled back, and the task is left behind with
  references to its variables.  Nothing else can make it fail.\<close>

theorem check_prune_race:
  assumes db: "db_inv (w_db w)" and portal: "portal_law (batch # batch' # batches) (w_db w)"
    and start: "check_begin L (batch # batch' # batches) before w = Inr s" and size: "2 \<le> batch_size"
    and x: "x \<in> set batch" "check_object L fs (w_disk w) x \<noteq> []" "db_o_id x \<notin> referenced (w_db w)"
    and y: "y \<in> set batch" "y \<noteq> x"
  shows "(\<exists>t. (race_step L fs batch_size)\<^sup>*\<^sup>* s t \<and> ck_pc t = Threw (Sql_error Foreign_key_violation) \<and>
      ck_running t = [y] \<and> ck_db t = snd (sql_remove_orphan_objects (w_db w))) \<and>
    (\<forall>t e. (race_step L fs batch_size)\<^sup>*\<^sup>* s t \<and> ck_pc t = Threw e \<longrightarrow> e = Sql_error Foreign_key_violation)"
proof -
  let ?d = "w_disk w" and ?P = "snd (sql_remove_orphan_objects (w_db w))"
  obtain n where s: "s = check_start n (batch # batch' # batches) (w_db w)" using check_begin_Inr [OF start] by blast
  have "distinct (map db_o_id (concat (batch # batch' # batches)))"
    using get_objects_distinct [OF db] portal by (simp add: portal_law_def)
  then have dist: "distinct (map db_o_id batch)" by simp
  obtain us vs where b: "batch = us @ y # vs" using split_list [OF y(1)] by blast
  have fresh: "y \<notin> set us" "y \<notin> set vs" using dist b by auto
  let ?s1 = "fetch_batch s" and ?in = "map (check_record L fs ?d) (us @ vs)"
  have s1: "ck_running ?s1 = us @ y # vs" "ck_in ?s1 = []" "ck_pc ?s1 = Awaiting" "ck_portal ?s1 = batch' # batches"
    "ck_out ?s1 = []" "ck_db ?s1 = w_db w" "ck_saved ?s1 = w_db w"
    by (simp_all add: s b fetch_batch_def check_start_def)
  obtain p where p: "(check_step L fs ?d batch_size)\<^sup>*\<^sup>* ?s1
      (?s1\<lparr>ck_running := y # vs, ck_in := map (check_record L fs ?d) us, ck_progress := p\<rparr>)"
    using tasks_end [of ?s1 "[]" us "y # vs"] s1(1,2) by fastforce
  obtain p' where p': "(check_step L fs ?d batch_size)\<^sup>*\<^sup>*
      (?s1\<lparr>ck_running := y # vs, ck_in := map (check_record L fs ?d) us, ck_progress := p\<rparr>)
      (?s1\<lparr>ck_running := [y], ck_in := ?in, ck_progress := p'\<rparr>)"
    using tasks_end [of "?s1\<lparr>ck_running := y # vs, ck_in := map (check_record L fs ?d) us, ck_progress := p\<rparr>" "[y]" vs "[]"]
      fresh(2) by fastforce
  let ?s2 = "?s1\<lparr>ck_running := [y], ck_in := ?in, ck_progress := p'\<rparr>"
  let ?s3 = "swap_records ?s2"
  have "check_step L fs ?d batch_size s ?s1" by (intro check_step.Fetch) (simp_all add: s check_start_def)
  moreover have "check_step L fs ?d batch_size ?s2 ?s3"
    using size s1(3,4) by (intro check_step.Resume) (simp_all add: await_limit_def half_def)
  ultimately have "(check_step L fs ?d batch_size)\<^sup>*\<^sup>* s ?s3"
    using p p' by (meson converse_rtranclp_into_rtranclp rtranclp.rtrancl_into_rtrancl rtranclp_trans)
  then have run3: "(race_step L fs batch_size)\<^sup>*\<^sup>* s ?s3" by (rule check_steps_race)
  let ?s4 = "?s3\<lparr>ck_db := ?P, ck_saved := ?P\<rparr>"
  have s3: "ck_db ?s3 = w_db w" "ck_saved ?s3 = w_db w" "ck_pc ?s3 = Updating" "ck_out ?s3 = ?in" "ck_running ?s3 = [y]"
    using s1 by (simp_all add: swap_records_def)
  have run4: "race_step L fs batch_size ?s3 ?s4" using race_step.Pruned [of ?s3 L fs batch_size] s3(1,2) by simp
  have "sql_update_object_errors ?in ?P = Inl Foreign_key_violation"
  proof -
    have "distinct (map oe_id ?in)" using dist b by (auto simp: check_record_def comp_def)
    moreover have "check_record L fs ?d x \<in> set ?in" using x(1) y(2) b by auto
    moreover have "oe_message (check_record L fs ?d x) \<noteq> []" "oe_id (check_record L fs ?d x) \<notin> ob_id ` set (tb_object ?P)"
      using x(2,3) by (auto simp: check_record_def sql_prune_eq(2))
    ultimately show ?thesis using update_errors_Inl_iff by blast
  qed
  then have "update_done ?s4 = ?s4\<lparr>ck_pc := Threw (Sql_error Foreign_key_violation), ck_db := ?P\<rparr>"
    using update_done_fails [of ?s4] s3(4) by simp
  then have "race_step L fs batch_size ?s4 (?s4\<lparr>ck_pc := Threw (Sql_error Foreign_key_violation), ck_db := ?P\<rparr>)"
    using race_step.Check [OF check_step.Update [of ?s4 L fs ?d batch_size]] s3(3) by simp
  then have run5: "(race_step L fs batch_size)\<^sup>*\<^sup>* s (?s4\<lparr>ck_pc := Threw (Sql_error Foreign_key_violation), ck_db := ?P\<rparr>)"
    using run3 run4 by (meson rtranclp.rtrancl_into_rtrancl)
  have "\<exists>t. (race_step L fs batch_size)\<^sup>*\<^sup>* s t \<and> ck_pc t = Threw (Sql_error Foreign_key_violation) \<and>
      ck_running t = [y] \<and> ck_db t = ?P"
    by (rule exI, rule conjI [OF run5]) (simp add: swap_records_def)
  moreover have "race_inv s"
    using beside_start [OF db portal, of n] by (simp add: s race_inv_def beside_inv_def) (simp add: check_start_def)
  then have "e = Sql_error Foreign_key_violation" if "(race_step L fs batch_size)\<^sup>*\<^sup>* s t" "ck_pc t = Threw e" for t e
    using race.inv_reachable [OF that(1)] that(2) by (simp add: race_inv_def)
  ultimately show ?thesis by blast
qed

text \<open>A store whose three objects no bucket lists and whose files are lost, checked in batches of two.\<close>

definition lost_rows :: "object_row list" where
  "lost_rows = map (\<lambda>(i, h). \<lparr>ob_id = i, ob_hash = h, ob_size = 2, ob_type = ''text'', ob_subtype = ''plain'', ob_added = 200\<rparr>)
     [(5, ''05''), (6, ''06''), (7, ''07'')]"

definition lost :: world where
  "lost = w0\<lparr>w_db := empty_database\<lparr>tb_object := lost_rows\<rparr>\<rparr>"

definition lost_batches :: "db_object list list" where
  "lost_batches = [map object_view (take 2 lost_rows), map object_view (drop 2 lost_rows)]"

lemma lost_store: "db_inv (w_db lost)" "portal_law lost_batches (w_db lost)"
  "check_begin sample lost_batches (w_db lost) lost = Inr (check_start 3 lost_batches (w_db lost))"
proof -
  show "db_inv (w_db lost)" by (simp add: lost_def lost_rows_def db_inv_defs empty_database_def is_int64_def)
  have "sort_key ob_id lost_rows = lost_rows" by (simp add: lost_rows_def)
  then show "portal_law lost_batches (w_db lost)"
    by (simp add: portal_law_def lost_batches_def sql_get_objects_def lost_def lost_rows_def)
  have "sql_fetch_store_totals (w_db lost) = Inr [\<lparr>db_st_buckets = 0, db_st_objects = 3, db_st_space_used = 6\<rparr>]"
    by (simp add: sql_fetch_store_totals_def int8_def is_int64_def lost_def lost_rows_def empty_database_def)
  then have "reading sql_fetch_store_totals (w_db lost) =
      Inr ([\<lparr>db_st_buckets = 0, db_st_objects = 3, db_st_space_used = 6\<rparr>], w_db lost)"
    by (simp add: reading_def)
  then have "fst (connection_fetch_store_totals sample connect (w_db lost)) =
      Inr \<lparr>db_st_buckets = 0, db_st_objects = 3, db_st_space_used = 6\<rparr>"
    using sample_laws(1) unfolding connection_fetch_store_totals_def laws_def
    by (subst fetch_prepared_one) (auto simp: prepared_provide)
  then show "check_begin sample lost_batches (w_db lost) lost = Inr (check_start 3 lost_batches (w_db lost))"
    by (simp add: check_begin_def check_total_def to_store_totals_def)
qed

theorem check_prune_race_witness:
  "\<exists>t. (race_step sample fs0 2)\<^sup>*\<^sup>* (check_start 3 lost_batches (w_db lost)) t \<and>
    ck_pc t = Threw (Sql_error Foreign_key_violation) \<and> length (ck_running t) = 1"
proof -
  let ?x = "object_view (lost_rows ! 0)" and ?y = "object_view (lost_rows ! 1)"
  have "dom (stored sample fs0 (w_disk w0)) = {}"
    using store_invD(6) [OF sample_inv(1)] by (simp add: agree_def w0_parts(1) empty_database_def)
  then have "check_object sample fs0 (w_disk lost) ?x \<noteq> []"
    by (simp add: check_object_eq [OF sample_uuid_law store_invD(5) [OF sample_inv(1)]] lost_def)
  moreover have "db_o_id ?x \<notin> referenced (w_db lost)" by (simp add: referenced_def lost_def empty_database_def)
  moreover have "?x \<in> set (map object_view (take 2 lost_rows))" "?y \<in> set (map object_view (take 2 lost_rows))" "?y \<noteq> ?x"
    by (simp_all add: lost_rows_def object_view_def)
  ultimately obtain t where t: "(race_step sample fs0 2)\<^sup>*\<^sup>* (check_start 3 lost_batches (w_db lost)) t"
    "ck_pc t = Threw (Sql_error Foreign_key_violation)" "ck_running t = [?y]"
    using conjunct1 [OF check_prune_race [OF lost_store [unfolded lost_batches_def], of 2 ?x fs0 ?y]]
    unfolding lost_batches_def [symmetric] by (metis order_refl)
  then show ?thesis by (intro exI [of _ t]) simp
qed

end
