(* ===== verification/Http_Sample.thy ===== *)
theory Http_Sample
  imports Sample Server_Laws
begin

text \<open>
  Concrete functions for the HTTP layer: reading the canonical text of a uuid back, splitting and
  joining lines.
\<close>

lemma find_index_nth: "distinct xs \<Longrightarrow> i < length xs \<Longrightarrow> find_index (xs ! i) xs = Some i"
proof (induction xs arbitrary: i)
  case (Cons x xs)
  show ?case
  proof (cases i)
    case (Suc j)
    with Cons.prems have "xs ! j \<in> set xs" "j < length xs" by simp_all
    with Cons Suc show ?thesis by auto
  qed simp
qed simp

definition digit_value :: "char \<Rightarrow> 4 word" where
  "digit_value c = of_nat (the (find_index c ''0123456789abcdef''))"

lemma digit_value_hex [simp]: "digit_value (hex_digit x) = x"
proof -
  have "unat x < 2 ^ LENGTH(4)" by (rule unsigned_less)
  then have "find_index (''0123456789abcdef'' ! unat x) ''0123456789abcdef'' = Some (unat x)"
    by (intro find_index_nth) simp_all
  then have "digit_value (hex_digit x) = of_nat (unat x)"
    by (simp only: digit_value_def hex_digit_def option.sel)
  then show ?thesis by simp
qed

definition assemble :: "4 word list \<Rightarrow> uuid" where
  "assemble ds = foldr (OR) (map (\<lambda>k. push_bit (4 * k) (ucast (ds ! k))) [0..<length ds]) 0"

definition parse_canonical :: "string \<Rightarrow> error + uuid" where
  "parse_canonical s =
     (let ds = filter (\<lambda>c. c \<noteq> CHR ''-'') s
      in if length s = 36 \<and> length ds = 32 then Inr (assemble (map digit_value (rev ds)))
         else Inl (Runtime_error ''invalid uuid''))"

lemma bit_foldr_or: "bit (foldr (OR) xs (0 :: uuid)) n \<longleftrightarrow> (\<exists>x \<in> set xs. bit x n)"
  by (induction xs) (auto simp: bit_or_iff)

lemma assemble_nibbles: "assemble (map (nibble u) [0..<32]) = u"
proof (rule bit_word_eqI)
  fix n assume n: "n < LENGTH(128)"
  have "bit (push_bit (4 * k) (ucast (nibble u k)) :: uuid) n \<longleftrightarrow> k = n div 4 \<and> bit u n" for k
  proof -
    have "bit (push_bit (4 * k) (ucast (nibble u k)) :: uuid) n \<longleftrightarrow>
        4 * k \<le> n \<and> n - 4 * k < 4 \<and> bit u (4 * k + (n - 4 * k))"
      using n by (auto simp: bit_push_bit_iff bit_ucast_iff nibble_def bit_drop_bit_eq)
    also have "\<dots> \<longleftrightarrow> k = n div 4 \<and> bit u n" by auto
    finally show ?thesis .
  qed
  moreover have "n div 4 < 32" using n by simp
  ultimately show "bit (assemble (map (nibble u) [0..<32])) n = bit u n"
    by (auto simp: assemble_def bit_foldr_or)
qed

lemma hex_digit_chars: "hex_digit x \<noteq> CHR ''-''" "\<not> is_space (hex_digit x)"
proof -
  have "unat x < 2 ^ LENGTH(4)" by (rule unsigned_less)
  then have "hex_digit x \<in> set ''0123456789abcdef''"
    unfolding hex_digit_def by (intro nth_mem) simp
  then show "hex_digit x \<noteq> CHR ''-''" "\<not> is_space (hex_digit x)"
    by (auto simp: is_space_def)
qed

lemma dashed_parts:
  "length s = 32 \<Longrightarrow> s = take 8 s @ take 4 (drop 8 s) @ take 4 (drop 12 s) @ take 4 (drop 16 s) @ drop 20 s"
  using append_take_drop_id [of 8 s] append_take_drop_id [of 4 "drop 8 s"]
    append_take_drop_id [of 4 "drop 12 s"] append_take_drop_id [of 4 "drop 16 s"] by simp

lemma filter_dashed:
  assumes "length s = 32" and "CHR ''-'' \<notin> set s"
  shows "filter (\<lambda>c. c \<noteq> CHR ''-'') (dashed s) = s"
proof -
  have all: "filter (\<lambda>c. c \<noteq> CHR ''-'') t = t" if "set t \<subseteq> set s" for t
    using that assms(2) by (auto simp: filter_id_conv)
  have sub: "set (take m s) \<subseteq> set s" "set (drop m s) \<subseteq> set s" "set (take n (drop m s)) \<subseteq> set s" for m n
    by (auto dest: in_set_takeD in_set_dropD)
  have "filter (\<lambda>c. c \<noteq> CHR ''-'') (dashed s) =
      take 8 s @ take 4 (drop 8 s) @ take 4 (drop 12 s) @ take 4 (drop 16 s) @ drop 20 s"
    by (simp add: dashed_def all sub)
  with dashed_parts [OF assms(1)] show ?thesis by simp
qed

lemma set_dashed: "set (dashed s) \<subseteq> insert (CHR ''-'') (set s)"
  by (auto simp: dashed_def dest: in_set_takeD in_set_dropD)

lemma canonical_chars: "c \<in> set (canonical_text u) \<Longrightarrow> \<not> is_space c"
  using set_dashed [of "map (\<lambda>k. hex_digit (nibble u k)) (rev [0..<32])"] hex_digit_chars(2)
  by (fastforce simp: canonical_text_def is_space_def)

lemma parse_canonical_text: "parse_canonical (canonical_text u) = Inr u"
proof -
  let ?s = "map (\<lambda>k. hex_digit (nibble u k)) (rev [0..<32])"
  have f: "filter (\<lambda>c. c \<noteq> CHR ''-'') (canonical_text u) = ?s"
    unfolding canonical_text_def using hex_digit_chars(1) by (intro filter_dashed) (auto dest: sym)
  have "length (canonical_text u) = 36" using sample_uuid_law by (simp add: uuid_law_def sample_def)
  moreover have "map digit_value (rev ?s) = map (nibble u) [0..<32]"
    by (simp only: rev_map rev_rev_ident map_map) (simp only: comp_def digit_value_hex)
  ultimately show ?thesis
    by (simp only: parse_canonical_def f Let_def assemble_nibbles) simp
qed

definition http_sample :: http_libs where
  "http_sample = libs.extend sample \<lparr>string_range = (\<lambda>s sep. split_at_char (hd sep) s),
     join = (\<lambda>ss sep. join_with sep ss), parse_uuid = parse_canonical\<rparr>"

lemma http_sample_base [simp]: "base_libs http_sample = sample"
  by (simp add: base_libs_def http_sample_def libs.extend_def libs.truncate_def)

lemma http_sample_simps [simp]:
  "uuid_text http_sample = uuid_text sample" "parse_uuid http_sample = parse_canonical"
  by (simp_all add: http_sample_def libs.extend_def)

lemma http_sample_laws: "lines_law http_sample" "uuid_read_law http_sample"
proof -
  show "lines_law http_sample" by (simp add: lines_law_def http_sample_def libs.extend_def)
  show "uuid_read_law http_sample"
    using canonical_chars parse_canonical_text by (simp add: uuid_read_law_def sample_def)
qed

end
