(* ===== verification/Server_Properties.thy ===== *)
theory Server_Properties
  imports Http_Sample
begin

text \<open>
  The properties of the two protocols, server and client together.
\<close>

section \<open>The binary protocol\<close>

text \<open>Every call of the client reaches the operation it names: the event values agree with the
  order of the server's handlers, and the handlers pass the arguments on unchanged.\<close>

theorem zipline_calls_reach:
  "call c (client_add_object b req stream) w = Some (returning Sends_object
     (router_add_object (cx_libs c) (cx_fs c) (cx_generated c) (cx_now c) b req stream w)) \<and>
   call c (client_fetch_bucket name) w = Some (returning Sends_bucket (store_fetch_bucket (cx_libs c) name w)) \<and>
   call c (client_get_object b x) w =
     Some (returning (\<lambda>(m, fd). Sends_file m fd) (get_object (cx_libs c) (cx_fs c) b x w)) \<and>
   call c (client_get_object_metadata b x) w =
     Some (returning Sends_object (get_object_metadata (cx_libs c) b x w)) \<and>
   call c client_get_server_info w = Some (Inr (Sends_info (cx_info c)), w) \<and>
   call c (client_remove_object b x) w =
     Some (returning Sends_object (store_remove_object (cx_libs c) b x w)) \<and>
   call c (client_remove_objects b xs) w =
     Some (returning Sends_result (store_remove_objects (cx_libs c) b xs w))"
  by (simp add: call_def route_def make_router_def client_add_object_def client_fetch_bucket_def
      client_get_object_def client_get_object_metadata_def client_get_server_info_def
      client_remove_object_def client_remove_objects_def router_fetch_bucket_def router_get_object_def
      router_get_object_metadata_def router_get_server_info_def router_remove_object_def
      router_remove_objects_def)

text \<open>C32: An upload that is cut off changes nothing but its part, which keeps what had arrived; an
  upload under the same part id goes on where it stopped, and commits the whole.\<close>

theorem interrupted_upload_resumes:
  assumes inv: "store_inv L fs w" and new: "staged L fs (w_disk w) i = None"
    and cut: "router_add_object L fs g now b (Some i) \<lparr>up_chunks = cs, up_fault = Some e\<rparr> w = (r, v1)"
  shows "r = Inl e \<and> w_db v1 = w_db w \<and> stored L fs (w_disk v1) = stored L fs (w_disk w) \<and>
    staged L fs (w_disk v1) = (staged L fs (w_disk w))(i \<mapsto> concat cs) \<and>
    (\<exists>v2. staged L fs (w_disk v2) i = Some (concat cs @ concat cs') \<and> store_inv L fs v2 \<and>
       router_add_object L fs g' now' b (Some i) \<lparr>up_chunks = cs', up_fault = None\<rparr> v1 =
         commit_part L fs now' b i v2)"
proof -
  note D = store_invD [OF inv]
  have v1: "r = Inl e" "v1 = w\<lparr>w_disk := write_part L fs i cs (w_disk w)\<rparr>"
    using cut by (simp_all add: router_add_object_eq upload_part_eq)
  have inv1: "store_inv L fs v1" unfolding v1(2) by (rule write_part_store_inv [OF inv])
  have st1: "staged L fs (w_disk v1) = (staged L fs (w_disk w))(i \<mapsto> concat cs)"
    using stage_disk(3) [OF D(5,2), of i cs] new by (simp add: v1(2))
  let ?v2 = "v1\<lparr>w_disk := write_part L fs i cs' (w_disk v1)\<rparr>"
  have "staged L fs (w_disk ?v2) i = Some (concat cs @ concat cs')"
    using stage_disk(3) [OF store_invD(5,2) [OF inv1], of i cs'] st1 by simp
  moreover have "store_inv L fs ?v2" by (rule write_part_store_inv [OF inv1])
  moreover have "router_add_object L fs g' now' b (Some i) \<lparr>up_chunks = cs', up_fault = None\<rparr> v1 =
      commit_part L fs now' b i ?v2"
    by (simp add: router_add_object_eq upload_part_eq)
  ultimately show ?thesis
    using v1 st1 stage_disk(2) [OF D(5), of L i cs] by (intro conjI exI [of _ ?v2]) simp_all
qed

theorem interrupted_upload_resumes_witness:
  "\<exists>w2. staged sample fs0 (w_disk w2) 5 = Some [104, 105] \<and>
     router_add_object sample fs0 7 200 1 (Some 5) \<lparr>up_chunks = [[105]], up_fault = None\<rparr>
       (snd (router_add_object sample fs0 7 100 1 (Some 5) \<lparr>up_chunks = [[104]], up_fault = Some Stream_error\<rparr> w1)) =
     commit_part sample fs0 200 1 5 w2"
proof -
  have new: "staged sample fs0 (w_disk w1) 5 = None" using w0_parts(2) by (simp add: create1(3))
  have concat: "concat [[104]] @ concat [[105]] = [104, 105 :: byte]" by simp
  from interrupted_upload_resumes [OF sample_inv(2) new prod.collapse [symmetric], of 7 100 1 "[[104]]"
      Stream_error "[[105]]" 7 200] show ?thesis unfolding concat by blast
qed

text \<open>An exception of the program arrives at the client as the same exception, with its text; the
  exceptions that are not part of the protocol have no encoding.\<close>

theorem error_roundtrip:
  "(case encode_error L e of
      Some m \<Rightarrow> decode_error m = Some e
    | None \<Rightarrow> error_code e = None)"
  by (cases e) (simp_all add: encode_error_def decode_error_def)

text \<open>C33: A download gives the client the object: if the size in the metadata is the length of the
  content, each way to receive the chunks, whatever their sizes, yields the content, and the buffer of
  the caller keeps what follows it, as long as the object is smaller than 2 GiB.\<close>

theorem download_roundtrip:
  assumes "o_size meta = of_nat (length fd)" and "length fd < 2 ^ 64"
    and "concat chunks = snd (encode_file meta fd)"
  shows "decode_blob chunks = fd \<and> write_chunks out chunks = out @ fd \<and>
    (length fd < 2 ^ 31 \<and> length fd \<le> length buffer \<longrightarrow>
       get_object_into buffer chunks = Some (fd @ drop (length fd) buffer))"
proof -
  have fd: "concat chunks = fd"
    using assms unat_of_nat64 [OF assms(2)] by (simp add: encode_file_def)
  then show ?thesis
    using copy_chunks_eq [of "[]" chunks buffer]
    by (auto simp: decode_blob_eq write_chunks_eq get_object_into_def)
qed

theorem download_roundtrip_witness:
  "decode_blob [[104], [105]] = [104, 105] \<and>
   get_object_into [0, 0, 9] [[104], [105]] = Some [104, 105, 9]"
  using download_roundtrip [of object5 "[104, 105]" "[[104], [105]]" "[]" "[0, 0, 9]"]
  by (simp add: object5_def encode_file_def)

text \<open>C34: The buffer's index is an \<open>int\<close>, and it counts all bytes received so far: a non-empty chunk that follows
  2 GiB or more, however they were cut into chunks of at most 2 GiB, is written outside the buffer, whatever its size,
  while every chunk that begins below 2 GiB and fits is copied right behind what came before it.\<close>

theorem download_buffer_overflow:
  assumes "\<forall>c \<in> set cs. length c \<le> 2 ^ 31" and "chunk \<noteq> []"
  shows "(2 ^ 31 \<le> length (concat cs) \<longrightarrow> get_object_into buffer (cs @ chunk # chunks) = None) \<and>
    (length (concat cs) < 2 ^ 31 \<and> length (concat cs @ chunk) \<le> length buffer \<longrightarrow>
      get_object_into buffer (cs @ [chunk]) = Some (concat cs @ chunk @ drop (length (concat cs @ chunk)) buffer))"
  using copy_chunks_overflow [of 0 cs chunk buffer chunks] copy_chunks_last [of cs chunk buffer] assms
  by (auto simp: get_object_into_def)

theorem download_buffer_overflow_witness:
  "get_object_into (replicate (2 ^ 32) 0) [replicate (2 ^ 30) 1, [], replicate (2 ^ 30) 2, [2], [3]] = None"
  using download_buffer_overflow [of "[replicate (2 ^ 30) 1, [], replicate (2 ^ 30) 2]" "[2]"
      "replicate (2 ^ 32) 0" "[[3]]"] by simp

section \<open>HTTP\<close>

text \<open>An HTTP upload whose body arrives in full, in any chunks and with any empty reads between
  them, does what the binary protocol does with those chunks.\<close>

theorem http_upload_complete:
  assumes "\<forall>k<m. reads k = Inr (c k)" and "\<forall>k<m. bytes_read c k < unat content_length"
    and "unat content_length \<le> bytes_read c m" and "bytes_read c m < 2 ^ 64"
  shows "http_add_object L fs g now b content_length reads w =
    Some (router_add_object L fs g now b None \<lparr>up_chunks = map c [0..<m], up_fault = None\<rparr> w)"
proof -
  have "upload_loop reads content_length 0 0 p = Some (Inr (), foldl part_write p (map c [0..<m]))" for p
    using assms by (intro upload_loop_complete) auto
  then show ?thesis
    by (simp add: http_add_object_def router_add_object_def Let_def split: prod.split)
qed

theorem http_upload_complete_witness:
  "http_add_object sample fs0 5 200 1 2 (\<lambda>n. Inr ([[104], [], [105]] ! n)) w1 =
   Some (router_add_object sample fs0 5 200 1 None \<lparr>up_chunks = [[104], [], [105]], up_fault = None\<rparr> w1)"
proof -
  let ?c = "\<lambda>n. [[104], [], [105 :: byte]] ! n"
  have three: "k < 3 \<longleftrightarrow> k = 0 \<or> k = 1 \<or> k = 2" for k :: nat by auto
  have b: "bytes_read ?c 0 = 0" "bytes_read ?c 1 = 1" "bytes_read ?c 2 = 1" "bytes_read ?c 3 = 2"
    by (simp_all add: bytes_read_def eval_nat_numeral)
  have "map ?c [0..<3] = [[104], [], [105]]" by (simp add: upt_rec)
  with http_upload_complete [of 3 "\<lambda>n. Inr (?c n)" ?c 2 sample fs0 5 200 1 w1] b show ?thesis
    by (simp add: three all_conj_distrib)
qed

text \<open>C35: If the body ends before the announced length and the stream then returns empty chunks, the
  upload loop never ends: the request is never answered.\<close>

theorem http_upload_spins:
  assumes "\<forall>k<m. reads k = Inr (c k)" and "\<forall>k\<ge>m. reads k = Inr []"
    and "bytes_read c m < unat content_length"
  shows "http_add_object L fs g now b content_length reads w = None"
proof -
  have "upload_loop reads content_length 0 0 p = None" for p
    using assms by (intro upload_loop_diverges) auto
  then show ?thesis by (simp add: http_add_object_def split: prod.split)
qed

theorem http_upload_spins_witness:
  "http_add_object sample fs0 5 200 1 2 (\<lambda>n. if n = 0 then Inr [104] else Inr []) w1 = None"
  using http_upload_spins [of 1 "\<lambda>n. if n = 0 then Inr [104] else Inr []" "\<lambda>_. [104]" 2]
  by (simp add: bytes_read_def)

section \<open>Safety\<close>

lemma router_add_object_inv:
  assumes inv: "store_inv L fs w" shows "store_inv L fs (snd (router_add_object L fs g now b req stream w))"
proof (cases "upload_part L fs g req (up_chunks stream) w")
  case (Pair i v)
  have "store_inv L fs v" using upload_part_inv [OF inv, of g req "up_chunks stream"] Pair by simp
  then show ?thesis by (simp add: router_add_object_eq Pair commit_part_inv split: option.split)
qed

lemma upload_loop_part:
  assumes "upload_loop reads content_length n written p = Some (r, p')"
  shows "\<exists>cs. p' = foldl part_write p cs"
proof -
  have "\<exists>cs. snd (r, p') = foldl part_write p cs"
  proof (rule upload_loop.raw_induct [OF _ assms, where
      P = "\<lambda>reads content_length n written p res. \<exists>cs. snd res = foldl part_write p cs"])
    fix loop :: "body_stream \<Rightarrow> uint64 \<Rightarrow> nat \<Rightarrow> uint64 \<Rightarrow> part \<Rightarrow> ((error + unit) \<times> part) option"
    fix reads content_length n written p res
    assume IH: "\<And>reads content_length n written p res. loop reads content_length n written p = Some res \<Longrightarrow>
        \<exists>cs. snd res = foldl part_write p cs"
      and eq: "(if written < content_length then case reads n of Inl e \<Rightarrow> Some (Inl e, p)
         | Inr chunk \<Rightarrow> if chunk = [] then loop reads content_length (Suc n) written p
             else loop reads content_length (Suc n) (written + of_nat (length chunk)) (part_write p chunk)
         else Some (Inr (), p)) = Some res"
    have here: "snd res = p \<Longrightarrow> \<exists>cs. snd res = foldl part_write p cs" by (intro exI [of _ "[]"]) simp
    have further: "\<exists>cs. snd res = foldl part_write p cs" if "\<exists>cs. snd res = foldl part_write (part_write p c) cs" for c
    proof -
      from that obtain cs where "snd res = foldl part_write (part_write p c) cs" by blast
      then show ?thesis by (intro exI [of _ "c # cs"]) simp
    qed
    from eq show "\<exists>cs. snd res = foldl part_write p cs"
      by (auto split: if_splits sum.splits intro: further exI [of _ "[]"] dest: IH)
  qed
  then show ?thesis by simp
qed

lemma http_add_object_inv:
  assumes inv: "store_inv L fs w" and res: "http_add_object L fs g now b n reads w = Some (r, w')"
  shows "store_inv L fs w'"
proof (cases "store_get_part L fs g None w")
  case (Pair p v)
  obtain r' p' where loop: "upload_loop reads n 0 0 p = Some (r', p')"
    using res Pair by (auto simp: http_add_object_def split: option.splits)
  then obtain cs where cs: "p' = foldl part_write p cs" using upload_loop_part by blast
  have "store_inv L fs (v\<lparr>w_disk := part_close p' (w_disk v)\<rparr>)"
    using upload_part_inv [OF inv, of g None cs] by (simp add: upload_part_def Pair cs)
  then show ?thesis
    using res Pair loop commit_part_inv [of L fs "v\<lparr>w_disk := part_close p' (w_disk v)\<rparr>" now b "pt_id p"]
    by (auto simp: http_add_object_def Let_def split: sum.splits)
qed

lemma answer_inv: "(r, w') = returning g a \<Longrightarrow> store_inv L fs (snd a) \<Longrightarrow> store_inv L fs w'"
  by (metis returning_snd snd_conv)

fun_cases handle_add_objectE: "handle_add_object c args w = Some res"
fun_cases handle_fetch_bucketE: "handle_fetch_bucket c args w = Some res"
fun_cases handle_get_objectE: "handle_get_object c args w = Some res"
fun_cases handle_get_object_metadataE: "handle_get_object_metadata c args w = Some res"
fun_cases handle_get_server_infoE: "handle_get_server_info c args w = Some res"
fun_cases handle_remove_objectE: "handle_remove_object c args w = Some res"
fun_cases handle_remove_objectsE: "handle_remove_objects c args w = Some res"

lemmas handlerE = handle_add_objectE handle_fetch_bucketE handle_get_objectE handle_get_object_metadataE
  handle_get_server_infoE handle_remove_objectE handle_remove_objectsE

lemmas router_defs = router_fetch_bucket_def router_get_object_def router_get_object_metadata_def
  router_get_server_info_def router_remove_object_def router_remove_objects_def

lemma route_inv:
  assumes inv: "store_inv (cx_libs c) (cx_fs c) w" and res: "route c n args w = Some (r, w')"
  shows "store_inv (cx_libs c) (cx_fs c) w'"
proof -
  have "n < 7" and h: "(make_router ! n) c args w = Some (r, w')"
    using res by (auto simp: route_def make_router_def split: if_splits)
  then have "n \<in> {0, 1, 2, 3, 4, 5, 6}" by auto
  with h inv show ?thesis
    by (auto simp: make_router_def router_defs elim!: handlerE answer_inv intro: router_add_object_inv)
       (rule store_changes_inv, assumption)+
qed

fun_cases http_routeE: "http_route H fs info g now meth p body w = Some (Some res)"

lemma with_ids_inv:
  "store_inv L fs w \<Longrightarrow> (\<And>b x. store_inv L fs (snd (k b x w))) \<Longrightarrow> store_inv L fs (snd (with_ids H b x k w))"
  by (auto simp: with_ids_def split: sum.split)

lemma http_remove_objects_inv:
  "store_inv (base_libs H) fs w \<Longrightarrow> store_inv (base_libs H) fs (snd (http_remove_objects H b body w))"
  by (simp add: http_remove_objects_def store_changes_inv split: sum.split)

lemma http_handler_inv:
  assumes "store_inv (base_libs H) fs w"
  shows "store_inv (base_libs H) fs (snd (with_ids H b x
      (\<lambda>b x w. returning g (store_remove_object (base_libs H) b x w)) w))"
    and "store_inv (base_libs H) fs (snd (with_ids H b x
      (\<lambda>b x w. returning g (get_object_metadata (base_libs H) b x w)) w))"
    and "store_inv (base_libs H) fs (snd (with_ids H b x
      (\<lambda>b x w. returning g' (get_object (base_libs H) fs b x w)) w))"
  by (rule with_ids_inv [OF assms], simp add: assms store_changes_inv)+

lemma http_upload_inv:
  assumes inv: "store_inv L fs w"
    and res: "Some res = map_option (returning h) (http_add_object L fs g now b n reads w)"
  shows "store_inv L fs (snd res)"
proof -
  obtain r v where "http_add_object L fs g now b n reads w = Some (r, v)" "res = returning h (r, v)"
    using res by (cases "http_add_object L fs g now b n reads w") auto
  then show ?thesis using http_add_object_inv [OF inv] by simp
qed

lemma http_route_inv:
  assumes inv: "store_inv (base_libs H) fs w"
    and res: "http_route H fs info g now meth p body w = Some (Some res)"
  shows "store_inv (base_libs H) fs (snd res)"
  using res
  by (cases rule: http_routeE)
     (auto simp: inv http_handler_inv http_remove_objects_inv [OF inv] split: if_splits sum.splits
        dest: http_upload_inv [OF inv])

text \<open>C37: No request, over either protocol, well-formed or not, cut off or complete, takes the store out
  of its invariant.\<close>

theorem requests_keep_invariant:
  assumes inv: "store_inv (base_libs H) fs w" and c: "cx_libs c = base_libs H" "cx_fs c = fs"
  shows "(\<forall>n args r w'. route c n args w = Some (r, w') \<longrightarrow> store_inv (base_libs H) fs w') \<and>
    (\<forall>q r w'. http_serve H fs info g now q w = Some (Some (r, w')) \<longrightarrow> store_inv (base_libs H) fs w')"
proof (intro conjI allI impI)
  show "store_inv (base_libs H) fs w'" if "route c n args w = Some (r, w')" for n args r w'
    using route_inv [of c w n args r w'] that inv c by simp
  show "store_inv (base_libs H) fs w'" if "http_serve H fs info g now q w = Some (Some (r, w'))" for q r w'
    using http_route_inv [OF inv that [unfolded http_serve_def]] by simp
qed

theorem requests_keep_invariant_witness:
  "\<exists>w'. http_serve http_sample fs0 \<lparr>si_version = []\<rparr> 7 0 (request_remove_object http_sample 1 5) w3 =
     Some (Some (Inr (Json_object object5), w')) \<and> store_inv sample fs0 w'"
proof -
  let ?c = "\<lparr>cx_libs = sample, cx_fs = fs0, cx_info = \<lparr>si_version = []\<rparr>, cx_generated = 7, cx_now = 0\<rparr>"
  have "entry db3 1 5 = Some \<lparr>db_o_id = 5, db_o_hash = ''6869'', db_o_size = 2, db_o_type = ''text'',
      db_o_subtype = ''plain'', db_o_date_added = 200\<rparr>"
    by (simp add: entry_def object_of_def db3_def db1_def empty_database_def contents_row_def)
  then obtain v where "store_remove_object sample 1 5 w3 = (Inr object5, v)"
    by (simp add: store_remove_object_eq [OF sample_inv(4)] commit3(2) object5_def to_object_def)
  moreover have "parse_canonical (uuid_text sample u) = Inr u" for u
    using http_sample_laws(2) by (simp add: uuid_read_law_def)
  ultimately have "http_serve http_sample fs0 \<lparr>si_version = []\<rparr> 7 0 (request_remove_object http_sample 1 5) w3 =
      Some (Some (Inr (Json_object object5), v))"
    by (simp add: http_serve_def request_remove_object_def with_ids_def)
  moreover from this have "store_inv sample fs0 v"
    using requests_keep_invariant [of http_sample fs0 w3 ?c "\<lparr>si_version = []\<rparr>" 7 0] by simp
  ultimately show ?thesis by blast
qed

end
