(* ===== verification/Codec.thy ===== *)
theory Codec
  imports Model_Types
begin

text \<open>
  The two encodings of the public structs: JSON, by \<open>NLOHMANN_DEFINE_TYPE_NON_INTRUSIVE\<close>, and zipline's
  binary form, by \<open>ZIPLINE_OBJECT\<close>.  The libraries encode numbers, texts, ids and times; the program says
  which members there are, under which keys, and in which order.
\<close>

section \<open>JSON\<close>

text \<open>
  JSON values are the library's: an object is made from keys and values, \<open>at\<close> looks a key up and throws
  when there is none, \<open>get\<close> throws for a value of another type.
\<close>

record 'j json_lib =
  mk_object :: "(string \<times> 'j) list \<Rightarrow> 'j"
  member_at :: "string \<Rightarrow> 'j \<Rightarrow> error + 'j"
  put_uuid :: "uuid \<Rightarrow> 'j"
  get_uuid :: "'j \<Rightarrow> error + uuid"
  put_text :: "string \<Rightarrow> 'j"
  get_text :: "'j \<Rightarrow> error + string"
  put_u64 :: "uint64 \<Rightarrow> 'j"
  get_u64 :: "'j \<Rightarrow> error + uint64"
  put_time :: "time_point \<Rightarrow> 'j"
  get_time :: "'j \<Rightarrow> error + time_point"

definition json_law :: "'j json_lib \<Rightarrow> bool" where
  "json_law J \<longleftrightarrow>
     (\<forall>kvs k v. map_of kvs k = Some v \<longrightarrow> member_at J k (mk_object J kvs) = Inr v) \<and>
     (\<forall>x. get_uuid J (put_uuid J x) = Inr x) \<and> (\<forall>x. get_text J (put_text J x) = Inr x) \<and>
     (\<forall>x. get_u64 J (put_u64 J x) = Inr x) \<and> (\<forall>x. get_time J (put_time J x) = Inr x)"

definition get_member :: "'j json_lib \<Rightarrow> string \<Rightarrow> ('j \<Rightarrow> error + 'a) \<Rightarrow> 'j \<Rightarrow> error + 'a" where
  "get_member J k get j = bind_sum (member_at J k j) get"

definition bucket_to_json :: "'j json_lib \<Rightarrow> bucket \<Rightarrow> 'j" where
  "bucket_to_json J x = mk_object J [(''id'', put_uuid J (b_id x)), (''name'', put_text J (b_name x)),
     (''date_created'', put_time J (b_date_created x)), (''size'', put_u64 J (b_size x)),
     (''space_used'', put_u64 J (b_space_used x))]"

definition bucket_from_json :: "'j json_lib \<Rightarrow> 'j \<Rightarrow> error + bucket" where
  "bucket_from_json J j =
     bind_sum (get_member J ''id'' (get_uuid J) j) (\<lambda>i.
     bind_sum (get_member J ''name'' (get_text J) j) (\<lambda>n.
     bind_sum (get_member J ''date_created'' (get_time J) j) (\<lambda>d.
     bind_sum (get_member J ''size'' (get_u64 J) j) (\<lambda>s.
     bind_sum (get_member J ''space_used'' (get_u64 J) j) (\<lambda>u.
     Inr \<lparr>b_id = i, b_name = n, b_date_created = d, b_size = s, b_space_used = u\<rparr>)))))"

definition object_to_json :: "'j json_lib \<Rightarrow> object \<Rightarrow> 'j" where
  "object_to_json J x = mk_object J [(''id'', put_uuid J (o_id x)), (''hash'', put_text J (o_hash x)),
     (''size'', put_u64 J (o_size x)), (''type'', put_text J (o_type x)),
     (''subtype'', put_text J (o_subtype x)), (''date_added'', put_time J (o_date_added x))]"

definition object_from_json :: "'j json_lib \<Rightarrow> 'j \<Rightarrow> error + object" where
  "object_from_json J j =
     bind_sum (get_member J ''id'' (get_uuid J) j) (\<lambda>i.
     bind_sum (get_member J ''hash'' (get_text J) j) (\<lambda>h.
     bind_sum (get_member J ''size'' (get_u64 J) j) (\<lambda>s.
     bind_sum (get_member J ''type'' (get_text J) j) (\<lambda>t.
     bind_sum (get_member J ''subtype'' (get_text J) j) (\<lambda>u.
     bind_sum (get_member J ''date_added'' (get_time J) j) (\<lambda>d.
     Inr \<lparr>o_id = i, o_hash = h, o_size = s, o_type = t, o_subtype = u, o_date_added = d\<rparr>))))))"

definition remove_result_to_json :: "'j json_lib \<Rightarrow> remove_result \<Rightarrow> 'j" where
  "remove_result_to_json J x = mk_object J [(''objects_removed'', put_u64 J (rr_objects_removed x)),
     (''space_freed'', put_u64 J (rr_space_freed x))]"

definition remove_result_from_json :: "'j json_lib \<Rightarrow> 'j \<Rightarrow> error + remove_result" where
  "remove_result_from_json J j =
     bind_sum (get_member J ''objects_removed'' (get_u64 J) j) (\<lambda>n.
     bind_sum (get_member J ''space_freed'' (get_u64 J) j) (\<lambda>s.
     Inr \<lparr>rr_objects_removed = n, rr_space_freed = s\<rparr>))"

definition server_info_to_json :: "'j json_lib \<Rightarrow> server_info \<Rightarrow> 'j" where
  "server_info_to_json J x = mk_object J [(''version'', put_text J (si_version x))]"

definition server_info_from_json :: "'j json_lib \<Rightarrow> 'j \<Rightarrow> error + server_info" where
  "server_info_from_json J j =
     bind_sum (get_member J ''version'' (get_text J) j) (\<lambda>v. Inr \<lparr>si_version = v\<rparr>)"

lemma json_roundtrips:
  assumes "json_law J"
  shows "bucket_from_json J (bucket_to_json J b) = Inr b"
    and "object_from_json J (object_to_json J x) = Inr x"
    and "remove_result_from_json J (remove_result_to_json J r) = Inr r"
    and "server_info_from_json J (server_info_to_json J i) = Inr i"
  using assms
  by (simp_all add: json_law_def get_member_def bucket_from_json_def bucket_to_json_def object_from_json_def
      object_to_json_def remove_result_from_json_def remove_result_to_json_def server_info_from_json_def
      server_info_to_json_def)

section \<open>Zipline\<close>

text \<open>
  A decoder reads its value from the front of the stream and leaves the rest; members follow each other
  without keys, so both sides have to agree on their order.
\<close>

type_synonym 'a reader = "byte list \<Rightarrow> error + 'a \<times> byte list"

record wire_lib =
  enc_uuid :: "uuid \<Rightarrow> byte list"
  dec_uuid :: "uuid reader"
  enc_text :: "string \<Rightarrow> byte list"
  dec_text :: "string reader"
  enc_u64 :: "uint64 \<Rightarrow> byte list"
  dec_u64 :: "uint64 reader"
  enc_time :: "time_point \<Rightarrow> byte list"
  dec_time :: "time_point reader"

definition reads_back :: "('a \<Rightarrow> byte list) \<Rightarrow> 'a reader \<Rightarrow> bool" where
  "reads_back enc dec \<longleftrightarrow> (\<forall>x rest. dec (enc x @ rest) = Inr (x, rest))"

definition wire_law :: "wire_lib \<Rightarrow> bool" where
  "wire_law Z \<longleftrightarrow> reads_back (enc_uuid Z) (dec_uuid Z) \<and> reads_back (enc_text Z) (dec_text Z) \<and>
     reads_back (enc_u64 Z) (dec_u64 Z) \<and> reads_back (enc_time Z) (dec_time Z)"

definition read_then :: "'a reader \<Rightarrow> ('a \<Rightarrow> 'b reader) \<Rightarrow> 'b reader" where
  "read_then dec k s = bind_sum (dec s) (\<lambda>(x, rest). k x rest)"

definition bucket_encode :: "wire_lib \<Rightarrow> bucket \<Rightarrow> byte list" where
  "bucket_encode Z x = enc_uuid Z (b_id x) @ enc_text Z (b_name x) @ enc_time Z (b_date_created x) @
     enc_u64 Z (b_size x) @ enc_u64 Z (b_space_used x)"

definition bucket_decode :: "wire_lib \<Rightarrow> bucket reader" where
  "bucket_decode Z =
     read_then (dec_uuid Z) (\<lambda>i. read_then (dec_text Z) (\<lambda>n. read_then (dec_time Z) (\<lambda>d.
     read_then (dec_u64 Z) (\<lambda>s. read_then (dec_u64 Z) (\<lambda>u rest.
     Inr (\<lparr>b_id = i, b_name = n, b_date_created = d, b_size = s, b_space_used = u\<rparr>, rest))))))"

definition object_encode :: "wire_lib \<Rightarrow> object \<Rightarrow> byte list" where
  "object_encode Z x = enc_uuid Z (o_id x) @ enc_text Z (o_hash x) @ enc_u64 Z (o_size x) @
     enc_text Z (o_type x) @ enc_text Z (o_subtype x) @ enc_time Z (o_date_added x)"

definition object_decode :: "wire_lib \<Rightarrow> object reader" where
  "object_decode Z =
     read_then (dec_uuid Z) (\<lambda>i. read_then (dec_text Z) (\<lambda>h. read_then (dec_u64 Z) (\<lambda>s.
     read_then (dec_text Z) (\<lambda>t. read_then (dec_text Z) (\<lambda>u. read_then (dec_time Z) (\<lambda>d rest.
     Inr (\<lparr>o_id = i, o_hash = h, o_size = s, o_type = t, o_subtype = u, o_date_added = d\<rparr>, rest)))))))"

definition object_error_encode :: "wire_lib \<Rightarrow> object_error \<Rightarrow> byte list" where
  "object_error_encode Z x = enc_uuid Z (oe_id x) @ enc_text Z (oe_message x)"

definition object_error_decode :: "wire_lib \<Rightarrow> object_error reader" where
  "object_error_decode Z =
     read_then (dec_uuid Z) (\<lambda>i. read_then (dec_text Z) (\<lambda>m rest. Inr (\<lparr>oe_id = i, oe_message = m\<rparr>, rest)))"

definition remove_result_encode :: "wire_lib \<Rightarrow> remove_result \<Rightarrow> byte list" where
  "remove_result_encode Z x = enc_u64 Z (rr_objects_removed x) @ enc_u64 Z (rr_space_freed x)"

definition remove_result_decode :: "wire_lib \<Rightarrow> remove_result reader" where
  "remove_result_decode Z =
     read_then (dec_u64 Z) (\<lambda>n. read_then (dec_u64 Z) (\<lambda>s rest.
     Inr (\<lparr>rr_objects_removed = n, rr_space_freed = s\<rparr>, rest)))"

definition store_totals_encode :: "wire_lib \<Rightarrow> store_totals \<Rightarrow> byte list" where
  "store_totals_encode Z x = enc_u64 Z (st_buckets x) @ enc_u64 Z (st_objects x) @ enc_u64 Z (st_space_used x)"

definition store_totals_decode :: "wire_lib \<Rightarrow> store_totals reader" where
  "store_totals_decode Z =
     read_then (dec_u64 Z) (\<lambda>b. read_then (dec_u64 Z) (\<lambda>n. read_then (dec_u64 Z) (\<lambda>s rest.
     Inr (\<lparr>st_buckets = b, st_objects = n, st_space_used = s\<rparr>, rest))))"

definition server_info_encode :: "wire_lib \<Rightarrow> server_info \<Rightarrow> byte list" where
  "server_info_encode Z x = enc_text Z (si_version x)"

definition server_info_decode :: "wire_lib \<Rightarrow> server_info reader" where
  "server_info_decode Z = read_then (dec_text Z) (\<lambda>v rest. Inr (\<lparr>si_version = v\<rparr>, rest))"

lemma read_then_back [simp]: "reads_back enc dec \<Longrightarrow> read_then dec k (enc x @ rest) = k x rest"
  by (simp add: read_then_def reads_back_def)

lemma wire_roundtrips:
  assumes "wire_law Z"
  shows "reads_back (bucket_encode Z) (bucket_decode Z)"
    and "reads_back (object_encode Z) (object_decode Z)"
    and "reads_back (object_error_encode Z) (object_error_decode Z)"
    and "reads_back (remove_result_encode Z) (remove_result_decode Z)"
    and "reads_back (store_totals_encode Z) (store_totals_decode Z)"
    and "reads_back (server_info_encode Z) (server_info_decode Z)"
  using assms
  by (simp_all add: wire_law_def reads_back_def [of "bucket_encode Z"] reads_back_def [of "object_encode Z"]
      reads_back_def [of "object_error_encode Z"] reads_back_def [of "remove_result_encode Z"]
      reads_back_def [of "store_totals_encode Z"] reads_back_def [of "server_info_encode Z"]
      bucket_encode_def bucket_decode_def object_encode_def object_decode_def object_error_encode_def
      object_error_decode_def remove_result_encode_def remove_result_decode_def store_totals_encode_def
      store_totals_decode_def server_info_encode_def server_info_decode_def)

end
