(* ===== verification/Sync_Client.thy ===== *)
theory Sync_Client
  imports Codec Server_Laws
begin

text \<open>
  \<open>src/libfstore/sync/http\<close>: the synchronous HTTP client, \<open>object_store\<close> and \<open>bucket\<close>.  A method builds its
  request, sends it and decodes the answer's JSON, or takes the answer's data.
\<close>

section \<open>Answers\<close>

text \<open>
  What the server sends for a handler's result: the value as JSON, or as many bytes of the file as its
  size says.
\<close>

datatype 'j answer = Json_body 'j | Data_body blob

fun answer_of :: "'j json_lib \<Rightarrow> http_response \<Rightarrow> 'j answer" where
  "answer_of J (Json_info i) = Json_body (server_info_to_json J i)"
| "answer_of J (Json_bucket b) = Json_body (bucket_to_json J b)"
| "answer_of J (Json_object x) = Json_body (object_to_json J x)"
| "answer_of J (Json_result r) = Json_body (remove_result_to_json J r)"
| "answer_of J (Http_file fd n mime) = Data_body (take (unat n) fd)"

text \<open>
  The connection: the libraries, the server at the other end, and what the HTTP libraries make of an
  exception of the server on the client's side.
\<close>

record ('h, 'j) connection =
  cn_libs :: "'h http_libs_scheme"
  cn_json :: "'j json_lib"
  cn_fs :: filesystem
  cn_info :: server_info
  cn_generated :: uuid
  cn_now :: time_point
  cn_remote :: "error \<Rightarrow> error"
  cn_not_json :: error

text \<open>
  The outcome of a call: the outer \<open>None\<close> is a request without a route, the inner one no answer.
\<close>

type_synonym 'a call_result = "(error, 'a, world) outcome option option"

definition fetch_answer :: "('h, 'j) connection \<Rightarrow> http_request \<Rightarrow> world \<Rightarrow> 'j answer call_result" where
  "fetch_answer X q w =
     map_option (map_option (\<lambda>(r, w'). (map_sum (cn_remote X) (answer_of (cn_json X)) r, w')))
       (http_serve (cn_libs X) (cn_fs X) (cn_info X) (cn_generated X) (cn_now X) q w)"

text \<open>\<open>request::send<T>\<close> and \<open>request::data\<close>.\<close>

definition send :: "('h, 'j) connection \<Rightarrow> ('j \<Rightarrow> error + 'a) \<Rightarrow> http_request \<Rightarrow> world \<Rightarrow> 'a call_result" where
  "send X decode q w =
     map_option (map_option (\<lambda>r. and_then r (\<lambda>a w'. (case a of
         Json_body j \<Rightarrow> decode j | Data_body _ \<Rightarrow> Inl (cn_not_json X), w'))))
       (fetch_answer X q w)"

definition data :: "('h, 'j) connection \<Rightarrow> http_request \<Rightarrow> world \<Rightarrow> blob call_result" where
  "data X q w =
     map_option (map_option (\<lambda>r. and_then r (\<lambda>a w'. (case a of
         Data_body c \<Rightarrow> Inr c | Json_body _ \<Rightarrow> Inl (cn_not_json X), w'))))
       (fetch_answer X q w)"

text \<open>
  \<open>request::download\<close> and \<open>request::pipe\<close> hand the data on instead: \<open>save\<close> is what the library does with it,
  for a location or an open file.
\<close>

definition data_to :: "('f \<Rightarrow> blob \<Rightarrow> 'a) \<Rightarrow> 'f \<Rightarrow> ('h, 'j) connection \<Rightarrow> http_request \<Rightarrow> world \<Rightarrow> 'a call_result" where
  "data_to save target X q w = map_option (map_option (returning (save target))) (data X q w)"

section \<open>The object store\<close>

definition sync_add_object ::
  "('h, 'j) connection \<Rightarrow> uuid \<Rightarrow> uint64 \<Rightarrow> body_stream \<Rightarrow> world \<Rightarrow> object call_result" where
  "sync_add_object X b n reads w = send X (object_from_json (cn_json X)) (request_add_object (cn_libs X) b n reads) w"

definition sync_fetch_bucket :: "('h, 'j) connection \<Rightarrow> string \<Rightarrow> world \<Rightarrow> bucket call_result" where
  "sync_fetch_bucket X name w = send X (bucket_from_json (cn_json X)) (request_fetch_bucket name) w"

definition sync_get_object :: "('h, 'j) connection \<Rightarrow> uuid \<Rightarrow> uuid \<Rightarrow> world \<Rightarrow> blob call_result" where
  "sync_get_object X b x w = data X (request_get_object (cn_libs X) b x) w"

definition sync_download_object ::
  "(string \<Rightarrow> blob \<Rightarrow> 'a) \<Rightarrow> ('h, 'j) connection \<Rightarrow> uuid \<Rightarrow> uuid \<Rightarrow> string \<Rightarrow> world \<Rightarrow> 'a call_result" where
  "sync_download_object save X b x location w = data_to save location X (request_get_object (cn_libs X) b x) w"

definition sync_pipe_object ::
  "('f \<Rightarrow> blob \<Rightarrow> 'a) \<Rightarrow> ('h, 'j) connection \<Rightarrow> uuid \<Rightarrow> uuid \<Rightarrow> 'f \<Rightarrow> world \<Rightarrow> 'a call_result" where
  "sync_pipe_object save X b x stream w = data_to save stream X (request_get_object (cn_libs X) b x) w"

definition sync_get_object_metadata :: "('h, 'j) connection \<Rightarrow> uuid \<Rightarrow> uuid \<Rightarrow> world \<Rightarrow> object call_result" where
  "sync_get_object_metadata X b x w =
     send X (object_from_json (cn_json X)) (request_get_object_metadata (cn_libs X) b x) w"

definition sync_get_server_info :: "('h, 'j) connection \<Rightarrow> world \<Rightarrow> server_info call_result" where
  "sync_get_server_info X w = send X (server_info_from_json (cn_json X)) request_get_server_info w"

definition sync_remove_object :: "('h, 'j) connection \<Rightarrow> uuid \<Rightarrow> uuid \<Rightarrow> world \<Rightarrow> object call_result" where
  "sync_remove_object X b x w = send X (object_from_json (cn_json X)) (request_remove_object (cn_libs X) b x) w"

definition sync_remove_objects ::
  "('h, 'j) connection \<Rightarrow> uuid \<Rightarrow> uuid list \<Rightarrow> world \<Rightarrow> remove_result call_result" where
  "sync_remove_objects X b xs w =
     send X (remove_result_from_json (cn_json X)) (request_remove_objects (cn_libs X) b xs) w"

section \<open>A bucket\<close>

record ('h, 'j) remote_bucket =
  rb_id :: uuid
  rb_store :: "('h, 'j) connection"

text \<open>The constructors hand the base URL down to the client of the HTTP library, \<open>dial\<close>.\<close>

definition http_store_new :: "(string \<Rightarrow> ('h, 'j) connection) \<Rightarrow> string \<Rightarrow> ('h, 'j) connection" where
  "http_store_new dial base_url = dial base_url"

definition sync_store_new :: "(string \<Rightarrow> ('h, 'j) connection) \<Rightarrow> string \<Rightarrow> ('h, 'j) connection" where
  "sync_store_new dial base_url = http_store_new dial base_url"

definition bucket_new :: "(string \<Rightarrow> ('h, 'j) connection) \<Rightarrow> string \<Rightarrow> uuid \<Rightarrow> ('h, 'j) remote_bucket" where
  "bucket_new dial base_url i = \<lparr>rb_id = i, rb_store = sync_store_new dial base_url\<rparr>"

definition bucket_get_object :: "('h, 'j) remote_bucket \<Rightarrow> uuid \<Rightarrow> world \<Rightarrow> blob call_result" where
  "bucket_get_object B x w = sync_get_object (rb_store B) (rb_id B) x w"

definition bucket_download_object ::
  "(string \<Rightarrow> blob \<Rightarrow> 'a) \<Rightarrow> ('h, 'j) remote_bucket \<Rightarrow> uuid \<Rightarrow> string \<Rightarrow> world \<Rightarrow> 'a call_result" where
  "bucket_download_object save B x location w = sync_download_object save (rb_store B) (rb_id B) x location w"

definition bucket_pipe_object ::
  "('f \<Rightarrow> blob \<Rightarrow> 'a) \<Rightarrow> ('h, 'j) remote_bucket \<Rightarrow> uuid \<Rightarrow> 'f \<Rightarrow> world \<Rightarrow> 'a call_result" where
  "bucket_pipe_object save B x stream w = sync_pipe_object save (rb_store B) (rb_id B) x stream w"

definition bucket_get_object_metadata :: "('h, 'j) remote_bucket \<Rightarrow> uuid \<Rightarrow> world \<Rightarrow> object call_result" where
  "bucket_get_object_metadata B x w = sync_get_object_metadata (rb_store B) (rb_id B) x w"

definition bucket_remove_object :: "('h, 'j) remote_bucket \<Rightarrow> uuid \<Rightarrow> world \<Rightarrow> object call_result" where
  "bucket_remove_object B x w = sync_remove_object (rb_store B) (rb_id B) x w"

definition bucket_remove_objects :: "('h, 'j) remote_bucket \<Rightarrow> uuid list \<Rightarrow> world \<Rightarrow> remove_result call_result" where
  "bucket_remove_objects B xs w = sync_remove_objects (rb_store B) (rb_id B) xs w"

end
