(* ===== verification/Sync_Laws.thy ===== *)
theory Sync_Laws
  imports Sync_Client
begin

text \<open>
  The synchronous HTTP client with the HTTP server at its other end: every call is the store's operation,
  through the request, the route and the encoding of the answer.
\<close>

text \<open>How a call's result arrives at the client.\<close>

definition as_seen :: "('h, 'j) connection \<Rightarrow> (error, 'a, world) outcome \<Rightarrow> (error, 'a, world) outcome" where
  "as_seen X r = (case r of (Inl e, w) \<Rightarrow> (Inl (cn_remote X e), w) | (Inr x, w) \<Rightarrow> (Inr x, w))"

lemma returning_as_seen: "returning g (as_seen X (returning h r)) = as_seen X (returning (\<lambda>x. g (h x)) r)"
  by (auto simp: returning_def and_then_def as_seen_def split: prod.splits sum.splits)

lemma case_prod_comp: "(\<lambda>p. g (case p of (m, fd) \<Rightarrow> h m fd)) = (\<lambda>(m, fd). g (h m fd))"
  by (simp add: fun_eq_iff split: prod.split)

lemma send_routed:
  assumes "\<And>x. decode (to x) = Inr x" and "\<And>x. answer_of (cn_json X) (box x) = Json_body (to x)"
    and "http_serve (cn_libs X) (cn_fs X) (cn_info X) (cn_generated X) (cn_now X) q w =
      Some (map_option (returning box) r)"
  shows "send X decode q w = Some (map_option (as_seen X) r)"
  using assms by (cases r) (auto simp: send_def fetch_answer_def as_seen_def returning_def and_then_def
      split: prod.splits sum.splits)

lemma send_struct:
  assumes "json_law (cn_json X)"
  shows "http_serve (cn_libs X) (cn_fs X) (cn_info X) (cn_generated X) (cn_now X) q w =
      Some (map_option (returning Json_bucket) r) \<Longrightarrow>
    send X (bucket_from_json (cn_json X)) q w = Some (map_option (as_seen X) r)"
    and "http_serve (cn_libs X) (cn_fs X) (cn_info X) (cn_generated X) (cn_now X) q w =
      Some (map_option (returning Json_object) s) \<Longrightarrow>
    send X (object_from_json (cn_json X)) q w = Some (map_option (as_seen X) s)"
    and "http_serve (cn_libs X) (cn_fs X) (cn_info X) (cn_generated X) (cn_now X) q w =
      Some (map_option (returning Json_result) t) \<Longrightarrow>
    send X (remove_result_from_json (cn_json X)) q w = Some (map_option (as_seen X) t)"
    and "http_serve (cn_libs X) (cn_fs X) (cn_info X) (cn_generated X) (cn_now X) q w =
      Some (map_option (returning Json_info) u) \<Longrightarrow>
    send X (server_info_from_json (cn_json X)) q w = Some (map_option (as_seen X) u)"
  using json_roundtrips [OF assms]
  by - (rule send_routed [where to = "bucket_to_json (cn_json X)" and box = Json_bucket]
      send_routed [where to = "object_to_json (cn_json X)" and box = Json_object]
      send_routed [where to = "remove_result_to_json (cn_json X)" and box = Json_result]
      send_routed [where to = "server_info_to_json (cn_json X)" and box = Json_info]; simp)+

lemma data_routed:
  assumes "\<And>x. answer_of (cn_json X) (box x) = Data_body (take_from x)"
    and "http_serve (cn_libs X) (cn_fs X) (cn_info X) (cn_generated X) (cn_now X) q w =
      Some (Some (returning box r))"
  shows "data X q w = Some (Some (as_seen X (returning take_from r)))"
  using assms by (cases r) (auto simp: data_def fetch_answer_def as_seen_def returning_def and_then_def
      split: prod.splits sum.splits)

lemma sync_calls:
  fixes X :: "('h, 'j) connection" and b :: uuid
  defines "L \<equiv> base_libs (cn_libs X)" and "B \<equiv> \<lparr>rb_id = b, rb_store = X\<rparr>"
  assumes law: "uuid_law L" "trim_law L" "uuid_read_law (cn_libs X)" "lines_law (cn_libs X)" "json_law (cn_json X)"
  shows "sync_add_object X b n reads w = Some (map_option (as_seen X)
      (http_add_object L (cn_fs X) (cn_generated X) (cn_now X) b n reads w)) \<and>
    sync_fetch_bucket X name w = Some (Some (as_seen X (store_fetch_bucket L name w))) \<and>
    bucket_get_object B x w = Some (Some (as_seen X (returning (\<lambda>(m, fd). take (unat (o_size m)) fd)
      (get_object L (cn_fs X) b x w)))) \<and>
    bucket_download_object save B x location w =
      Some (Some (as_seen X (returning (\<lambda>(m, fd). save location (take (unat (o_size m)) fd)) (get_object L (cn_fs X) b x w)))) \<and>
    bucket_pipe_object pipe B x stream w =
      Some (Some (as_seen X (returning (\<lambda>(m, fd). pipe stream (take (unat (o_size m)) fd)) (get_object L (cn_fs X) b x w)))) \<and>
    bucket_get_object_metadata B x w = Some (Some (as_seen X (get_object_metadata L b x w))) \<and>
    sync_get_server_info X w = Some (Some (Inr (cn_info X), w)) \<and>
    bucket_remove_object B x w = Some (Some (as_seen X (store_remove_object L b x w))) \<and>
    bucket_remove_objects B xs w = Some (Some (as_seen X (store_remove_objects L b xs w)))"
proof -
  note R = http_requests_routed [OF law(1-4) [unfolded L_def], of "cn_fs X" "cn_info X" "cn_generated X" "cn_now X" b
      n reads w name x xs, folded L_def]
  note J = send_struct [OF law(5)]
  have "sync_add_object X b n reads w = Some (map_option (as_seen X)
      (http_add_object L (cn_fs X) (cn_generated X) (cn_now X) b n reads w))"
    unfolding sync_add_object_def by (rule J(2)) (use R in simp)
  moreover have "sync_fetch_bucket X name w = Some (Some (as_seen X (store_fetch_bucket L name w)))"
    using J(1) [of "request_fetch_bucket name" w "Some (store_fetch_bucket L name w)"] R
    by (simp add: sync_fetch_bucket_def)
  moreover have "bucket_get_object B x w = Some (Some (as_seen X (returning (\<lambda>(m, fd). take (unat (o_size m)) fd)
      (get_object L (cn_fs X) b x w))))"
    using data_routed [of X "\<lambda>(m, fd). Http_file fd (o_size m) (mime_type m)" "\<lambda>(m, fd). take (unat (o_size m)) fd"
        "request_get_object (cn_libs X) b x" w "get_object L (cn_fs X) b x w"] R
    by (auto simp: bucket_get_object_def sync_get_object_def B_def)
  moreover from this have "bucket_download_object save B x location w =
      Some (Some (as_seen X (returning (\<lambda>(m, fd). save location (take (unat (o_size m)) fd)) (get_object L (cn_fs X) b x w))))"
    "bucket_pipe_object pipe B x stream w =
      Some (Some (as_seen X (returning (\<lambda>(m, fd). pipe stream (take (unat (o_size m)) fd)) (get_object L (cn_fs X) b x w))))"
    by (simp_all add: bucket_download_object_def bucket_pipe_object_def sync_download_object_def sync_pipe_object_def
        data_to_def bucket_get_object_def sync_get_object_def returning_as_seen case_prod_comp)
  moreover have "bucket_get_object_metadata B x w = Some (Some (as_seen X (get_object_metadata L b x w)))"
    using J(2) [of "request_get_object_metadata (cn_libs X) b x" w "Some (get_object_metadata L b x w)"] R
    by (simp add: bucket_get_object_metadata_def sync_get_object_metadata_def B_def)
  moreover have "sync_get_server_info X w = Some (Some (Inr (cn_info X), w))"
    using J(4) [of request_get_server_info w "Some (Inr (cn_info X), w)"] R
    by (simp add: sync_get_server_info_def as_seen_def returning_def)
  moreover have "bucket_remove_object B x w = Some (Some (as_seen X (store_remove_object L b x w)))"
    using J(2) [of "request_remove_object (cn_libs X) b x" w "Some (store_remove_object L b x w)"] R
    by (simp add: bucket_remove_object_def sync_remove_object_def B_def)
  moreover have "bucket_remove_objects B xs w = Some (Some (as_seen X (store_remove_objects L b xs w)))"
    using J(3) [of "request_remove_objects (cn_libs X) b xs" w "Some (store_remove_objects L b xs w)"] R
    by (simp add: bucket_remove_objects_def sync_remove_objects_def B_def)
  ultimately show ?thesis by blast
qed

end
