(* ===== verification/Http_Wire.thy ===== *)
theory Http_Wire
  imports Wire Sync_Laws
begin

text \<open>
  The synchronous HTTP client, the HTTP server and the store together are the specification of the store
  (\<open>Store_Spec\<close>), as the binary client and server are in \<open>Wire\<close>.
\<close>

section \<open>The body of an upload\<close>

text \<open>
  A body that delivers some chunks, empty ones among them, and then throws: any body that does not stay silent
  for ever.  \<open>body_read\<close> is what the server takes of it for an announced length, and whether that was enough.
\<close>

definition body_of :: "blob list \<Rightarrow> error \<Rightarrow> body_stream" where
  "body_of cs e k = (if k < length cs then Inr (cs ! k) else Inl e)"

fun body_read :: "uint64 \<Rightarrow> uint64 \<Rightarrow> blob list \<Rightarrow> blob list \<times> bool" where
  "body_read n written [] = ([], \<not> written < n)"
| "body_read n written (c # cs) =
     (if written < n then apfst ((#) c) (body_read n (written + of_nat (length c)) cs) else ([], True))"

lemma upload_loop_body:
  "upload_loop (body_of (past @ cs) e) n (length past) written p =
     (case body_read n written cs of (taken, enough) \<Rightarrow>
        Some (if enough then Inr () else Inl e, foldl part_write p taken))"
proof (induction cs arbitrary: past written p)
  case Nil
  then show ?case by (subst upload_loop.simps) (simp add: body_of_def)
next
  case (Cons c cs)
  have "upload_loop (body_of (past @ c # cs) e) n (Suc (length past)) v q =
      (case body_read n v cs of (taken, enough) \<Rightarrow> Some (if enough then Inr () else Inl e, foldl part_write q taken))" for v q
    using Cons [of "past @ [c]" v q] by simp
  note step = this
  have at: "body_of (past @ c # cs) e (length past) = Inr c" by (simp add: body_of_def)
  obtain taken enough where r: "body_read n (written + of_nat (length c)) cs = (taken, enough)" by fastforce
  show ?case
  proof (cases "written < n \<and> c = []")
    case True
    then show ?thesis
      using r at step [of written p] by (subst upload_loop.simps) (simp del: upload_loop.simps)
  next
    case False
    then show ?thesis by (subst upload_loop.simps) (simp add: at step r)
  qed
qed

definition upload_of :: "uint64 \<Rightarrow> blob list \<Rightarrow> error \<Rightarrow> upload" where
  "upload_of n cs e = (case body_read n 0 cs of (taken, enough) \<Rightarrow>
     \<lparr>up_chunks = taken, up_fault = (if enough then None else Some e)\<rparr>)"

lemma http_add_object_body:
  "http_add_object L fs g now b n (body_of cs e) w = Some (router_add_object L fs g now b None (upload_of n cs e) w)"
  using upload_loop_body [of "[]" cs e n 0]
  by (simp add: http_add_object_def router_add_object_def upload_of_def Let_def split: prod.split)

text \<open>A body that is whole: its chunks reach the announced length with the last one.\<close>

lemma body_read_whole:
  assumes "unat written + length (concat cs) = unat n"
  shows "\<exists>rest. body_read n written cs = (take (length cs - rest) cs, True) \<and> concat (take (length cs - rest) cs) = concat cs"
  using assms
proof (induction cs arbitrary: written)
  case (Cons c cs)
  show ?case
  proof (cases "written < n")
    case True
    have "unat written + length c < 2 ^ 64"
    proof -
      have "unat n < 2 ^ LENGTH(64)" by (rule unsigned_less)
      then show ?thesis using Cons.prems by simp
    qed
    then have "unat (written + of_nat (length c)) = unat written + length c"
      using unat_of_nat64 [of "unat written + length c"] by simp
    with Cons.prems have "unat (written + of_nat (length c)) + length (concat cs) = unat n" by simp
    from Cons.IH [OF this] obtain rest where
      "body_read n (written + of_nat (length c)) cs = (take (length cs - rest) cs, True)"
      "concat (take (length cs - rest) cs) = concat cs" by blast
    then show ?thesis
      using True by (intro exI [of _ "min rest (length cs)"]) (auto simp: Suc_diff_le min_def)
  next
    case False
    then have "length (concat (c # cs)) = 0" using Cons.prems by (simp only: word_less_nat_alt not_less)
    then have "concat (c # cs) = []" by (simp only: length_0_conv)
    then show ?thesis using False by (intro exI [of _ "Suc (length cs)"]) simp
  qed
qed (simp add: word_less_nat_alt)

lemma upload_of_whole:
  assumes "length (concat cs) = unat n"
  shows "concat (up_chunks (upload_of n cs e)) = concat cs" "up_fault (upload_of n cs e) = None"
  using body_read_whole [of 0 cs n] assms by (auto simp: upload_of_def)

section \<open>Calls and results\<close>

datatype http_call =
    Http_add uuid uint64 "blob list" error
  | Http_bucket string
  | Http_object uuid uuid
  | Http_metadata uuid uuid
  | Http_info
  | Http_remove uuid uuid
  | Http_remove_list uuid "uuid list"

text \<open>The same call of the binary client.\<close>

fun binary_call :: "http_call \<Rightarrow> client_call" where
  "binary_call (Http_add b n cs e) = Add_object b None (upload_of n cs e)"
| "binary_call (Http_bucket name) = Fetch_bucket name"
| "binary_call (Http_object b x) = Get_object b x"
| "binary_call (Http_metadata b x) = Get_metadata b x"
| "binary_call Http_info = Get_info"
| "binary_call (Http_remove b x) = Remove_object b x"
| "binary_call (Http_remove_list b xs) = Remove_list b xs"

definition as_caught :: "('a \<Rightarrow> client_result) \<Rightarrow> world \<Rightarrow> 'a call_result \<Rightarrow> client_result \<times> world" where
  "as_caught f w r = (case r of
     Some (Some (Inl e, w')) \<Rightarrow> (Thrown e, w')
   | Some (Some (Inr x, w')) \<Rightarrow> (f x, w')
   | _ \<Rightarrow> (Broken, w))"

definition sync_step ::
  "('h, 'j) connection \<Rightarrow> uuid \<times> time_point \<times> http_call \<Rightarrow> world \<Rightarrow> client_result \<times> world" where
  "sync_step X q w = (case q of (g, t, m) \<Rightarrow> let X = X\<lparr>cn_generated := g, cn_now := t\<rparr> in
     case m of
       Http_add b n cs e \<Rightarrow> as_caught Got_object w (sync_add_object X b n (body_of cs e) w)
     | Http_bucket name \<Rightarrow> as_caught Got_bucket w (sync_fetch_bucket X name w)
     | Http_object b x \<Rightarrow> as_caught Got_blob w (sync_get_object X b x w)
     | Http_metadata b x \<Rightarrow> as_caught Got_object w (sync_get_object_metadata X b x w)
     | Http_info \<Rightarrow> as_caught Got_info w (sync_get_server_info X w)
     | Http_remove b x \<Rightarrow> as_caught Got_object w (sync_remove_object X b x w)
     | Http_remove_list b xs \<Rightarrow> as_caught Got_removed w (sync_remove_objects X b xs w))"

text \<open>What the specification's answer becomes: an exception as the HTTP libraries render it.\<close>

fun http_result :: "(error \<Rightarrow> error) \<Rightarrow> Store_Spec.answer \<Rightarrow> client_result" where
  "http_result remote (Refused e) = Thrown (remote e)"
| "http_result remote a = as_result a"

fun http_spec ::
  "libs \<Rightarrow> server_info \<Rightarrow> (error \<Rightarrow> error) \<Rightarrow> uuid \<times> time_point \<times> http_call \<Rightarrow> shelf \<Rightarrow> client_result \<times> shelf" where
  "http_spec L info remote (g, t, Http_add b n cs e) S =
     (case body_read n 0 cs of (taken, enough) \<Rightarrow>
        let S' = snd (spec L (Ask_upload g None taken) S)
        in if enough then apfst (http_result remote) (spec L (Ask_commit t b g) S') else (Thrown (remote e), S'))"
| "http_spec L info remote (g, t, Http_bucket n) S = apfst (http_result remote) (spec L (Ask_bucket n) S)"
| "http_spec L info remote (g, t, Http_object b x) S = apfst (http_result remote) (spec L (Ask_object b x) S)"
| "http_spec L info remote (g, t, Http_metadata b x) S = apfst (http_result remote) (spec L (Ask_metadata b x) S)"
| "http_spec L info remote (g, t, Http_info) S = (Got_info info, S)"
| "http_spec L info remote (g, t, Http_remove b x) S = apfst (http_result remote) (spec L (Ask_remove b x) S)"
| "http_spec L info remote (g, t, Http_remove_list b xs) S = apfst (http_result remote) (spec L (Ask_remove_list b xs) S)"

section \<open>The client sees the specification\<close>

definition http_laws :: "('h, 'j) connection \<Rightarrow> bool" where
  "http_laws X \<longleftrightarrow> uuid_law (base_libs (cn_libs X)) \<and> trim_law (base_libs (cn_libs X)) \<and> uuid_read_law (cn_libs X) \<and>
     lines_law (cn_libs X) \<and> json_law (cn_json X)"

lemma caught_answered:
  assumes "\<And>x. f x = as_result (h x)" and "\<And>x e. h x \<noteq> Refused e"
  shows "as_caught f w (Some (Some (as_seen X r))) = apfst (http_result (cn_remote X)) (answered h r)"
proof (cases r)
  case (Pair a v)
  then show ?thesis
  proof (cases a)
    case (Inr x)
    have "http_result (cn_remote X) (h x) = as_result (h x)" using assms(2) by (cases "h x") auto
    with Inr Pair show ?thesis by (simp add: as_caught_def as_seen_def answered_def assms(1))
  qed (simp add: as_caught_def as_seen_def answered_def)
qed

lemma caught_data:
  "as_caught Got_blob w (Some (Some (as_seen X (returning (\<lambda>(m, fd). take (unat (o_size m)) fd) r)))) =
     apfst (http_result (cn_remote X)) (answered (\<lambda>(m, c). Gives_file m c) r)"
  by (cases r; cases "fst r") (auto simp: as_caught_def as_seen_def answered_def returning_def and_then_def)

lemma sync_add_steps:
  fixes X :: "('h, 'j) connection"
  defines "L \<equiv> base_libs (cn_libs X)"
  assumes "http_laws X"
  shows "sync_step X (g, t, Http_add b n cs e) w =
    (case body_read n 0 cs of (taken, enough) \<Rightarrow>
       case serve L (cn_fs X) (Ask_upload g None taken) w of (a, w') \<Rightarrow>
         if enough then apfst (http_result (cn_remote X)) (serve L (cn_fs X) (Ask_commit t b g) w')
         else (Thrown (cn_remote X e), w'))"
proof -
  let ?X = "X\<lparr>cn_generated := g, cn_now := t\<rparr>"
  have "sync_add_object ?X b n (body_of cs e) w =
      Some (Some (as_seen ?X (router_add_object L (cn_fs X) g t b None (upload_of n cs e) w)))"
    using sync_calls [of ?X b n "body_of cs e" w "[]" 0 "\<lambda>_ _. ()" "[]" "\<lambda>_ _. ()" "()" "[]"] assms(2)
    by (simp add: http_laws_def http_add_object_body L_def)
  then have "sync_step X (g, t, Http_add b n cs e) w =
      apfst (http_result (cn_remote X)) (answered Gives_object (router_add_object L (cn_fs X) g t b None (upload_of n cs e) w))"
    using caught_answered [of Got_object Gives_object w ?X] by (simp add: sync_step_def)
  then show ?thesis
    by (simp add: upload_served upload_of_def split: prod.split)
qed

lemma sync_steps:
  fixes X :: "('h, 'j) connection"
  defines "S \<equiv> serve (base_libs (cn_libs X)) (cn_fs X)" and "f \<equiv> apfst (http_result (cn_remote X))"
  assumes "http_laws X"
  shows "sync_step X (g, t, Http_bucket n) w = f (S (Ask_bucket n) w)"
    "sync_step X (g, t, Http_object b x) w = f (S (Ask_object b x) w)"
    "sync_step X (g, t, Http_metadata b x) w = f (S (Ask_metadata b x) w)"
    "sync_step X (g, t, Http_info) w = (Got_info (cn_info X), w)"
    "sync_step X (g, t, Http_remove b x) w = f (S (Ask_remove b x) w)"
    "sync_step X (g, t, Http_remove_list b xs) w = f (S (Ask_remove_list b xs) w)"
proof -
  let ?X = "X\<lparr>cn_generated := g, cn_now := t\<rparr>"
  note C = sync_calls [of ?X b 0 "body_of [] Stream_error" w n x "\<lambda>_ _. ()" "[]" "\<lambda>_ _. ()" "()" xs]
  have C: "sync_fetch_bucket ?X n w = Some (Some (as_seen ?X (store_fetch_bucket (base_libs (cn_libs X)) n w)))"
    "sync_get_object ?X b x w = Some (Some (as_seen ?X (returning (\<lambda>(m, fd). take (unat (o_size m)) fd)
       (get_object (base_libs (cn_libs X)) (cn_fs X) b x w))))"
    "sync_get_object_metadata ?X b x w = Some (Some (as_seen ?X (get_object_metadata (base_libs (cn_libs X)) b x w)))"
    "sync_get_server_info ?X w = Some (Some (Inr (cn_info X), w))"
    "sync_remove_object ?X b x w = Some (Some (as_seen ?X (store_remove_object (base_libs (cn_libs X)) b x w)))"
    "sync_remove_objects ?X b xs w = Some (Some (as_seen ?X (store_remove_objects (base_libs (cn_libs X)) b xs w)))"
    using C assms(3) by (simp_all add: http_laws_def bucket_get_object_def bucket_get_object_metadata_def
        bucket_remove_object_def bucket_remove_objects_def)
  show "sync_step X (g, t, Http_bucket n) w = f (S (Ask_bucket n) w)"
    "sync_step X (g, t, Http_object b x) w = f (S (Ask_object b x) w)"
    "sync_step X (g, t, Http_metadata b x) w = f (S (Ask_metadata b x) w)"
    "sync_step X (g, t, Http_info) w = (Got_info (cn_info X), w)"
    "sync_step X (g, t, Http_remove b x) w = f (S (Ask_remove b x) w)"
    "sync_step X (g, t, Http_remove_list b xs) w = f (S (Ask_remove_list b xs) w)"
    using caught_answered [of Got_bucket Gives_bucket w ?X] caught_answered [of Got_object Gives_object w ?X]
      caught_answered [of Got_removed Gives_removed w ?X] caught_data [of w ?X]
    by (simp_all add: sync_step_def C S_def f_def as_caught_def [of _ _ "Some (Some (Inr _, _))"])
qed

lemma http_refines:
  fixes X :: "('h, 'j) connection"
  defines "L \<equiv> base_libs (cn_libs X)" and "fs \<equiv> cn_fs X"
  assumes inv: "store_inv L fs w" and law: "http_laws X"
  shows "apsnd (shelf_of L fs) (sync_step X q w) = http_spec L (cn_info X) (cn_remote X) q (shelf_of L fs w)"
proof -
  obtain g t m where q: "q = (g, t, m)" by (cases q)
  have trim: "trim_law L" using law by (simp add: http_laws_def L_def)
  note R = apply_refines [OF serves [OF inv trim]]
  show ?thesis
  proof (cases m)
    case (Http_add b n cs e)
    obtain taken enough where r: "body_read n 0 cs = (taken, enough)" by fastforce
    obtain a w' where up: "serve L fs (Ask_upload g None taken) w = (a, w')" by fastforce
    have S': "snd (spec L (Ask_upload g None taken) (shelf_of L fs w)) = shelf_of L fs w'"
      using serves [OF inv trim, of "Ask_upload g None taken"] up by (metis apsnd_conv snd_conv)
    have inv': "store_inv L fs w'" using serve_inv [OF inv, of "Ask_upload g None taken"] up by (metis snd_conv)
    note C = apply_refines [OF serves [OF inv' trim, of "Ask_commit t b g"], of "http_result (cn_remote X)"]
    show ?thesis
      using C S' by (simp add: q Http_add sync_add_steps [OF law] r up [unfolded L_def fs_def] L_def fs_def Let_def
          del: serve.simps spec.simps)
  qed (use R in \<open>simp_all add: q sync_steps [OF law] L_def fs_def del: serve.simps spec.simps\<close>)
qed

lemma sync_step_inv:
  fixes X :: "('h, 'j) connection"
  defines "L \<equiv> base_libs (cn_libs X)" and "fs \<equiv> cn_fs X"
  assumes inv: "store_inv L fs w" and law: "http_laws X"
  shows "store_inv L fs (snd (sync_step X q w))"
proof -
  obtain g t m where q: "q = (g, t, m)" by (cases q)
  let ?keeps = "\<lambda>r :: client_result \<times> world. store_inv L fs (snd r)"
  have step: "?keeps (apfst f (serve L fs p v))" if "store_inv L fs v" for f p v
    using serve_inv [OF that, of p] by simp
  show ?thesis
  proof (cases m)
    case (Http_add b n cs e)
    obtain taken enough where r: "body_read n 0 cs = (taken, enough)" by fastforce
    obtain a w' where up: "serve L fs (Ask_upload g None taken) w = (a, w')" by fastforce
    have "store_inv L fs w'" using serve_inv [OF inv, of "Ask_upload g None taken"] up by (metis snd_conv)
    then show ?thesis
      using step by (simp add: q Http_add sync_add_steps [OF law] r up [unfolded L_def fs_def] L_def fs_def del: serve.simps)
  qed (use step inv in \<open>simp_all add: q sync_steps [OF law] L_def fs_def del: serve.simps\<close>)
qed

definition http_service_inv :: "('h, 'j) connection \<Rightarrow> world \<Rightarrow> bool" where
  "http_service_inv X w \<longleftrightarrow> store_inv (base_libs (cn_libs X)) (cn_fs X) w \<and> http_laws X"

interpretation http_service: refinement
  "http_service_inv X" "shelf_of (base_libs (cn_libs X)) (cn_fs X)" "sync_step X"
  "http_spec (base_libs (cn_libs X)) (cn_info X) (cn_remote X)"
  for X
  by unfold_locales (auto simp: http_service_inv_def http_refines intro: sync_step_inv)

section \<open>The two protocols\<close>

text \<open>
  A call does the same to the store and has the same result in both protocols; only an exception is shown in
  its own way.
\<close>

fun same_result :: "(error \<Rightarrow> error) \<Rightarrow> client_result \<Rightarrow> client_result \<Rightarrow> bool" where
  "same_result remote (Thrown e) r = (r = Thrown (remote e))"
| "same_result remote Broken r = (\<exists>e. error_code e = None \<and> r = Thrown (remote e))"
| "same_result remote a r = (r = a)"

text \<open>The kinds of answer a client's call can have.\<close>

fun for_client :: "Store_Spec.answer \<Rightarrow> bool" where
  "for_client (Refused e) = True"
| "for_client (Gives_object x) = True"
| "for_client (Gives_bucket b) = True"
| "for_client (Gives_file m c) = True"
| "for_client (Gives_removed r) = True"
| "for_client a = False"

lemma same_results: "for_client a \<Longrightarrow> same_result remote (as_result a) (http_result remote a)"
  by (cases a) auto

lemma spec_for_client:
  "for_client (fst (spec L (Ask_commit t b i) S))" "for_client (fst (spec L (Ask_bucket n) S))"
  "for_client (fst (spec L (Ask_object b x) S))" "for_client (fst (spec L (Ask_metadata b x) S))"
  "for_client (fst (spec L (Ask_remove b x) S))" "for_client (fst (spec L (Ask_remove_list b xs) S))"
  by (simp_all add: spec_commit_def report_def Let_def split: option.split sum.split)

lemma protocols_agree:
  "snd (http_spec L info remote (g, t, m) S) = snd (client_spec L info (g, t, binary_call m) S) \<and>
   same_result remote (fst (client_spec L info (g, t, binary_call m) S)) (fst (http_spec L info remote (g, t, m) S))"
proof (cases m)
  case (Http_add b n cs e)
  show ?thesis
    by (auto simp: Http_add upload_of_def Let_def same_results spec_for_client simp del: spec.simps split: prod.split)
qed (simp_all add: same_results spec_for_client del: spec.simps)

definition in_binary :: "uuid \<times> time_point \<times> http_call \<Rightarrow> uuid \<times> time_point \<times> client_call" where
  "in_binary q = (case q of (g, t, m) \<Rightarrow> (g, t, binary_call m))"

lemma protocol_runs_agree:
  "snd (run_requests (http_spec L info remote) qs S) = snd (run_requests (client_spec L info) (map in_binary qs) S) \<and>
   list_all2 (same_result remote) (fst (run_requests (client_spec L info) (map in_binary qs) S))
     (fst (run_requests (http_spec L info remote) qs S))"
proof (induction qs arbitrary: S)
  case (Cons q qs)
  obtain g t m where q: "q = (g, t, m)" by (cases q)
  obtain r T where h: "http_spec L info remote q S = (r, T)" by fastforce
  obtain r' T' where b: "client_spec L info (in_binary q) S = (r', T')" by fastforce
  have "T' = T" "same_result remote r' r"
    using protocols_agree [of L info remote g t m S] h b by (simp_all add: q in_binary_def)
  then show ?case
    using Cons.IH [of T]
    by (cases "run_requests (client_spec L info) (map in_binary qs) T"; cases "run_requests (http_spec L info remote) qs T")
       (simp add: h b)
qed simp

text \<open>A whole body is the same upload in any chunks, with any empty reads between them.\<close>

lemma whole_body:
  assumes "length (concat cs) = unat n"
  shows "http_spec L info remote (g, t, Http_add b n cs e) S = http_spec L info remote (g, t, Http_add b n [concat cs] e) S"
proof -
  obtain us where us: "body_read n 0 cs = (us, True)" "concat us = concat cs"
    using body_read_whole [of 0 cs n] assms by auto
  obtain vs where vs: "body_read n 0 [concat cs] = (vs, True)" "concat vs = concat cs"
    using body_read_whole [of 0 "[concat cs]" n] assms by auto
  have "spec L (Ask_upload g None us) S = spec L (Ask_upload g None vs) S"
    using us(2) vs(2) by (intro upload_spec_concat) simp
  with us(1) vs(1) show ?thesis by (simp del: spec.simps body_read.simps)
qed

end
