(* ===== verification/Sync_Properties.thy ===== *)
theory Sync_Properties
  imports Sync_Laws Http_Sample
begin

text \<open>
  The properties of the encodings, and of the synchronous client with the HTTP server at its other end.
\<close>

section \<open>Encodings\<close>

text \<open>Every public struct survives both encodings: the JSON the server makes of it reads back as it,
  and a zipline decoder reads the members in the order the encoder wrote them, whatever follows.\<close>

theorem structs_roundtrip:
  assumes "json_law J" and "wire_law Z"
  shows "bucket_from_json J (bucket_to_json J b) = Inr b \<and> object_from_json J (object_to_json J x) = Inr x \<and>
    remove_result_from_json J (remove_result_to_json J r) = Inr r \<and>
    server_info_from_json J (server_info_to_json J i) = Inr i \<and>
    bucket_decode Z (bucket_encode Z b @ rest) = Inr (b, rest) \<and>
    object_decode Z (object_encode Z x @ rest) = Inr (x, rest) \<and>
    object_error_decode Z (object_error_encode Z e @ rest) = Inr (e, rest) \<and>
    remove_result_decode Z (remove_result_encode Z r @ rest) = Inr (r, rest) \<and>
    store_totals_decode Z (store_totals_encode Z t @ rest) = Inr (t, rest) \<and>
    server_info_decode Z (server_info_encode Z i @ rest) = Inr (i, rest)"
  using json_roundtrips [OF assms(1)] wire_roundtrips [OF assms(2)] by (simp add: reads_back_def)

text \<open>A JSON library and a binary one that satisfy their laws.\<close>

datatype value_json =
    J_uuid uuid
  | J_text string
  | J_number uint64
  | J_time time_point
  | J_object "(string \<times> value_json) list"

definition bad_json :: error where
  "bad_json = Runtime_error ''json''"

definition json_sample :: "value_json json_lib" where
  "json_sample = \<lparr>mk_object = J_object,
     member_at = (\<lambda>k j. case j of J_object kvs \<Rightarrow> (case map_of kvs k of Some v \<Rightarrow> Inr v | None \<Rightarrow> Inl bad_json)
       | _ \<Rightarrow> Inl bad_json),
     put_uuid = J_uuid, get_uuid = (\<lambda>j. case j of J_uuid u \<Rightarrow> Inr u | _ \<Rightarrow> Inl bad_json),
     put_text = J_text, get_text = (\<lambda>j. case j of J_text s \<Rightarrow> Inr s | _ \<Rightarrow> Inl bad_json),
     put_u64 = J_number, get_u64 = (\<lambda>j. case j of J_number n \<Rightarrow> Inr n | _ \<Rightarrow> Inl bad_json),
     put_time = J_time, get_time = (\<lambda>j. case j of J_time t \<Rightarrow> Inr t | _ \<Rightarrow> Inl bad_json)\<rparr>"

lemma json_sample_law: "json_law json_sample"
  by (simp add: json_law_def json_sample_def)

fun dec_number :: "nat reader" where
  "dec_number [] = Inl Stream_error"
| "dec_number (x # xs) = (if x = 0 then Inr (0, xs)
     else bind_sum (dec_number xs) (\<lambda>(n, rest). Inr (Suc n, rest)))"

definition enc_number :: "nat \<Rightarrow> byte list" where
  "enc_number n = replicate n 1 @ [0]"

lemma number_back [simp]: "dec_number (enc_number n @ rest) = Inr (n, rest)"
  by (induction n) (simp_all add: enc_number_def)

fun dec_chars :: "nat \<Rightarrow> string reader" where
  "dec_chars 0 s = Inr ([], s)"
| "dec_chars (Suc n) s = read_then dec_number (\<lambda>c. read_then (dec_chars n) (\<lambda>cs rest. Inr (char_of c # cs, rest))) s"

lemma chars_back [simp]:
  "dec_chars (length s) (concat (map (enc_number \<circ> of_char) s) @ rest) = Inr (s, rest)"
proof (induction s)
  case (Cons c s)
  have "reads_back enc_number dec_number" by (simp add: reads_back_def)
  with Cons show ?case by (simp add: read_then_def [of "dec_chars (length s)"])
qed simp

definition wire_sample :: wire_lib where
  "wire_sample = \<lparr>enc_uuid = enc_number \<circ> unat, dec_uuid = read_then dec_number (\<lambda>n rest. Inr (of_nat n, rest)),
     enc_text = (\<lambda>s. enc_number (length s) @ concat (map (enc_number \<circ> of_char) s)),
     dec_text = read_then dec_number dec_chars,
     enc_u64 = enc_number \<circ> unat, dec_u64 = read_then dec_number (\<lambda>n rest. Inr (of_nat n, rest)),
     enc_time = enc_number \<circ> unat, dec_time = read_then dec_number (\<lambda>n rest. Inr (of_nat n, rest))\<rparr>"

lemma wire_sample_law: "wire_law wire_sample"
proof -
  have "reads_back enc_number dec_number" by (simp add: reads_back_def)
  then show ?thesis by (auto simp: wire_law_def wire_sample_def reads_back_def [of "enc_number \<circ> unat"]
      reads_back_def [of "\<lambda>s. enc_number (length s) @ concat (map (enc_number \<circ> of_char) s)"])
qed

theorem structs_roundtrip_witness:
  "bucket_from_json json_sample (bucket_to_json json_sample bucket1) = Inr bucket1 \<and>
   object_decode wire_sample (object_encode wire_sample object5 @ [7]) = Inr (object5, [7])"
  using structs_roundtrip [OF json_sample_law wire_sample_law] by blast

section \<open>The synchronous client\<close>

text \<open>C36: A call of the synchronous client, on the store or on one of its buckets, is the store's operation
  at the other end: the result is the operation's, through the request, the route and the JSON, and an
  exception of the operation arrives as what the libraries make of it.\<close>

theorem sync_client_agrees:
  fixes X :: "('h, 'j) connection" and b :: uuid
  defines "L \<equiv> base_libs (cn_libs X)" and "B \<equiv> \<lparr>rb_id = b, rb_store = X\<rparr>"
  assumes law: "uuid_law L" "trim_law L" "uuid_read_law (cn_libs X)" "lines_law (cn_libs X)" "json_law (cn_json X)"
  shows "sync_add_object X b n reads w = Some (map_option (as_seen X)
      (http_add_object L (cn_fs X) (cn_generated X) (cn_now X) b n reads w)) \<and>
    sync_fetch_bucket X name w = Some (Some (as_seen X (store_fetch_bucket L name w))) \<and>
    bucket_get_object B x w = Some (Some (as_seen X (returning (\<lambda>(m, fd). take (unat (o_size m)) fd)
      (get_object L (cn_fs X) b x w)))) \<and>
    bucket_download_object save B x location w =
      Some (Some (as_seen X (returning (\<lambda>(m, fd). save location (take (unat (o_size m)) fd)) (get_object L (cn_fs X) b x w)))) \<and>
    bucket_pipe_object pipe B x stream w =
      Some (Some (as_seen X (returning (\<lambda>(m, fd). pipe stream (take (unat (o_size m)) fd)) (get_object L (cn_fs X) b x w)))) \<and>
    bucket_get_object_metadata B x w = Some (Some (as_seen X (get_object_metadata L b x w))) \<and>
    sync_get_server_info X w = Some (Some (Inr (cn_info X), w)) \<and>
    bucket_remove_object B x w = Some (Some (as_seen X (store_remove_object L b x w))) \<and>
    bucket_remove_objects B xs w = Some (Some (as_seen X (store_remove_objects L b xs w)))"
  unfolding B_def L_def by (rule sync_calls [OF law [unfolded L_def]])

definition sample_connection :: "(unit, value_json) connection" where
  "sample_connection = \<lparr>cn_libs = http_sample, cn_json = json_sample, cn_fs = fs0,
     cn_info = \<lparr>si_version = ''3.0.0''\<rparr>, cn_generated = 7, cn_now = 300,
     cn_remote = (\<lambda>e. Runtime_error (what sample e)), cn_not_json = bad_json\<rparr>"

theorem sync_client_agrees_witness:
  "\<exists>v. bucket_remove_object \<lparr>rb_id = 1, rb_store = sample_connection\<rparr> 5 w3 = Some (Some (Inr object5, v))"
proof -
  have "entry db3 1 5 = Some \<lparr>db_o_id = 5, db_o_hash = ''6869'', db_o_size = 2, db_o_type = ''text'',
      db_o_subtype = ''plain'', db_o_date_added = 200\<rparr>"
    by (simp add: entry_def object_of_def db3_def db1_def empty_database_def contents_row_def)
  then obtain v where "store_remove_object sample 1 5 w3 = (Inr object5, v)"
    by (simp add: store_remove_object_eq [OF sample_inv(4)] commit3(2) object5_def to_object_def)
  then show ?thesis
    using sync_client_agrees [of sample_connection 1 0 "\<lambda>_. Inl Stream_error" w3 "''a''" 5 "\<lambda>_ c. c" "''f''" "\<lambda>(_ :: unit) c. c" "()" "[]"]
      sample_uuid_law sample_laws(2) http_sample_laws json_sample_law
    by (simp add: sample_connection_def as_seen_def)
qed

end
