(* ===== verification/Http_Properties.thy ===== *)
theory Http_Properties
  imports Refinement_Properties Http_Wire Sync_Properties
begin

text \<open>
  The property that the synchronous HTTP client and its server are the specification of the store, as the
  binary ones are.
\<close>

text \<open>C31: Synchronous client, HTTP, server and store together are the specification of the store: whatever
  calls the client makes in whatever order, uploads that are cut short among them, it gets what \<open>http_spec\<close> says of the
  shelf.  The same calls made by the binary client leave the same shelf and have the same results, exceptions shown
  in each protocol's own way, and a whole body is the same upload in any chunks with any empty reads between them.\<close>

theorem http_refinement:
  fixes X :: "('h, 'j) connection"
  defines "L \<equiv> base_libs (cn_libs X)" and "fs \<equiv> cn_fs X"
  assumes inv: "store_inv L fs w" and law: "http_laws X"
    and c: "cx_libs c = L" "cx_fs c = fs" "cx_info c = cn_info X" and split: "\<And>x. concat (split x) = x"
  shows "apsnd (shelf_of L fs) (run_requests (sync_step X) qs w) =
      run_requests (http_spec L (cn_info X) (cn_remote X)) qs (shelf_of L fs w) \<and>
    (let http = run_requests (sync_step X) qs w; binary = run_requests (client_step c split) (map in_binary qs) w
     in shelf_of L fs (snd http) = shelf_of L fs (snd binary) \<and>
        list_all2 (same_result (cn_remote X)) (fst binary) (fst http)) \<and>
    (\<forall>g t b n cs e S. length (concat cs) = unat n \<longrightarrow>
      http_spec L (cn_info X) (cn_remote X) (g, t, Http_add b n cs e) S =
      http_spec L (cn_info X) (cn_remote X) (g, t, Http_add b n [concat cs] e) S)"
proof -
  have trim: "trim_law L" using law by (simp add: http_laws_def L_def)
  have "http_service_inv X w" using inv law by (simp add: http_service_inv_def L_def fs_def)
  then have http: "apsnd (shelf_of L fs) (run_requests (sync_step X) qs w) =
      run_requests (http_spec L (cn_info X) (cn_remote X)) qs (shelf_of L fs w)"
    unfolding L_def fs_def by (rule http_service.run_refines)
  have "service_inv c split w" using inv trim c split by (simp add: service_inv_def)
  then have binary: "apsnd (shelf_of L fs) (run_requests (client_step c split) (map in_binary qs) w) =
      run_requests (client_spec L (cn_info X)) (map in_binary qs) (shelf_of L fs w)"
    using binary_service.run_refines [of c split w "map in_binary qs"] by (simp add: c)
  let ?h = "run_requests (sync_step X) qs w" and ?b = "run_requests (client_step c split) (map in_binary qs) w"
  note split_pair = fst_apsnd snd_apsnd
  have "shelf_of L fs (snd ?h) = shelf_of L fs (snd ?b)" "list_all2 (same_result (cn_remote X)) (fst ?b) (fst ?h)"
    using protocol_runs_agree [of L "cn_info X" "cn_remote X" qs "shelf_of L fs w"]
    unfolding http [symmetric] binary [symmetric] split_pair by simp_all
  with http whole_body [of _ _ L "cn_info X" "cn_remote X"] show ?thesis unfolding Let_def by blast
qed

text \<open>An upload of two bytes in three reads, cut short by an exception, and a download, in both protocols.\<close>

definition sample_http_calls :: "(uuid \<times> time_point \<times> http_call) list" where
  "sample_http_calls = [(7, 300, Http_add 1 3 [[104], [], [105]] Stream_error), (8, 300, Http_object 1 5)]"

definition sample_binary :: request_context where
  "sample_binary = \<lparr>cx_libs = sample, cx_fs = fs0, cx_info = cn_info sample_connection, cx_generated = 7, cx_now = 300\<rparr>"

theorem http_refinement_witness:
  "fst (run_requests (sync_step sample_connection) sample_http_calls w3) =
     [Thrown (cn_remote sample_connection Stream_error), Got_blob [104, 105]] \<and>
   list_all2 (same_result (cn_remote sample_connection))
     (fst (run_requests (client_step sample_binary (\<lambda>x. [x])) (map in_binary sample_http_calls) w3))
     (fst (run_requests (sync_step sample_connection) sample_http_calls w3))"
proof -
  have X: "base_libs (cn_libs sample_connection) = sample" "cn_fs sample_connection = fs0"
    using http_sample_laws by (simp_all add: sample_connection_def)
  let ?remote = "cn_remote sample_connection" and ?info = "cn_info sample_connection"
  let ?S = "snd (spec sample (Ask_upload 7 None [[104], [], [105]]) (shelf_of sample fs0 w3))"
  have add: "http_spec sample ?info ?remote (7, 300, Http_add 1 3 [[104], [], [105]] Stream_error) (shelf_of sample fs0 w3) =
      (Thrown (?remote Stream_error), ?S)"
    by (simp del: spec.simps)
  have "sf_catalogue ?S = abstract (w_db w3)" "sf_content ?S 5 = Some [104, 105]" by (simp_all add: Let_def content3)
  then have get: "http_spec sample ?info ?remote (8, 300, Http_object 1 5) ?S = (Got_blob [104, 105], ?S)"
    by (simp add: sample_listing(1) del: spec.simps(1)) (simp add: object5_def)
  have runs: "fst (run_requests (http_spec sample ?info ?remote) sample_http_calls (shelf_of sample fs0 w3)) =
      [Thrown (?remote Stream_error), Got_blob [104, 105]]"
    unfolding sample_http_calls_def by (simp only: run_requests.simps add get prod.case fst_conv)
  have "http_laws sample_connection"
    using sample_uuid_law sample_laws(2) http_sample_laws json_sample_law X by (simp add: http_laws_def sample_connection_def)
  then have R: "apsnd (shelf_of sample fs0) (run_requests (sync_step sample_connection) sample_http_calls w3) =
      run_requests (http_spec sample ?info ?remote) sample_http_calls (shelf_of sample fs0 w3)"
    "list_all2 (same_result ?remote)
      (fst (run_requests (client_step sample_binary (\<lambda>x. [x])) (map in_binary sample_http_calls) w3))
      (fst (run_requests (sync_step sample_connection) sample_http_calls w3))"
    using http_refinement [of sample_connection w3 sample_binary "\<lambda>x. [x]" sample_http_calls]
    unfolding X by (simp_all add: Let_def sample_binary_def del: run_requests.simps)
  show ?thesis using runs [folded R(1)] R(2) by simp
qed

end
