(* ===== verification/Cli.thy ===== *)
theory Cli
  imports Store_Behaviour Check
begin

text \<open>
  The commands of \<open>src/fstore\<close>: what they ask of the object store and what they print.  The table of
  \<open>include/internal/table.hpp\<close>, the commands on buckets, \<open>status\<close>, \<open>prune\<close>, \<open>errors\<close>, the summary of
  \<open>check\<close>, and the commands \<open>archive\<close> and \<open>restore\<close> as the sequence of actions they perform.  The result of a
  command that ends in an exception is the exception, without what it had printed before.
\<close>

section \<open>Tables\<close>

text \<open>
  A row has as many fields as the table has columns.  A column is as wide as its widest field; a
  field is printed left-aligned, filled up to the width (\<open>std::ios::left\<close>, \<open>width\<close>, \<open>fill\<close>).
\<close>

record table =
  tbl_headers :: "string list"
  tbl_widths :: "nat list"
  tbl_rows :: "string list list"

definition table_new :: "string list \<Rightarrow> table" where
  "table_new headers = \<lparr>tbl_headers = headers, tbl_widths = map length headers, tbl_rows = []\<rparr>"

definition resize :: "table \<Rightarrow> table" where
  "resize t = t\<lparr>tbl_widths := map2 (\<lambda>s greatest. if greatest < length s then length s else greatest)
     (last (tbl_rows t)) (tbl_widths t)\<rparr>"

definition push_back :: "string list \<Rightarrow> table \<Rightarrow> table" where
  "push_back row t = resize (t\<lparr>tbl_rows := tbl_rows t @ [row]\<rparr>)"

definition pad_field :: "char \<Rightarrow> nat \<Rightarrow> string \<Rightarrow> string" where
  "pad_field fill w s = s @ replicate (w - length s) fill"

fun print_fields :: "char \<Rightarrow> char \<Rightarrow> char \<Rightarrow> nat list \<Rightarrow> string list \<Rightarrow> string" where
  "print_fields fill padding divider (w # v # ws) (s # ss) =
     [padding] @ pad_field fill w s @ [padding] @ [divider] @ print_fields fill padding divider (v # ws) ss"
| "print_fields fill padding divider [w] (s # ss) = [padding] @ pad_field fill w s @ [padding]"
| "print_fields fill padding divider ws ss = []"

definition endl :: string where
  "endl = [CHR 0x0A]"

definition print_line :: "table \<Rightarrow> char \<Rightarrow> char \<Rightarrow> char \<Rightarrow> string list \<Rightarrow> string" where
  "print_line t fill padding divider row = print_fields fill padding divider (tbl_widths t) row @ endl"

definition print_break :: "table \<Rightarrow> string" where
  "print_break t = print_line t CHR ''-'' CHR ''-'' CHR ''+'' (map (\<lambda>_. ''-'') (tbl_widths t))"

definition print_row :: "table \<Rightarrow> string list \<Rightarrow> string" where
  "print_row t row = print_line t CHR '' '' CHR '' '' CHR ''|'' row"

definition table_lines :: "table \<Rightarrow> string list" where
  "table_lines t = print_row t (tbl_headers t) # print_break t # map (print_row t) (tbl_rows t)"

definition print_table :: "table \<Rightarrow> string" where
  "print_table t = concat (table_lines t)"

section \<open>Formatting\<close>

text \<open>\<open>ext::data_size::format\<close> to two places, and a number printed with the separators of the locale.\<close>

record cli_libs =
  data_size :: "uint64 \<Rightarrow> string"
  localized :: "uint64 \<Rightarrow> string"

definition show_uint64 :: "uint64 \<Rightarrow> string" where
  "show_uint64 n = show_nat (unat n)"

definition bucket_table_headers :: "string list" where
  "bucket_table_headers = [''Bucket'', ''Objects'', ''Space Used'']"

definition bucket_fields :: "cli_libs \<Rightarrow> bucket \<Rightarrow> string list" where
  "bucket_fields C b = [b_name b, show_uint64 (b_size b), data_size C (b_space_used b)]"

definition plural :: "uint64 \<Rightarrow> string" where
  "plural n = (if n = 1 then '''' else ''s'')"

section \<open>Commands on the store\<close>

text \<open>\<open>object_store\<close> of \<open>api.hpp\<close>: the container opens the directories under the configured home.\<close>

definition with_store ::
  "path \<Rightarrow> (filesystem \<Rightarrow> world \<Rightarrow> (error, 'a, world) outcome) \<Rightarrow> world \<Rightarrow> (error, 'a, world) outcome" where
  "with_store home action w = and_then (on_disk (filesystem_new home) w) action"

definition command_buckets :: "world \<Rightarrow> (error, string, world) outcome" where
  "command_buckets w = returning (\<lambda>bs. concat (map (\<lambda>b. b_name b @ endl) bs)) (store_fetch_buckets_all w)"

definition command_add ::
  "libs \<Rightarrow> uuid \<Rightarrow> time_point \<Rightarrow> string \<Rightarrow> world \<Rightarrow> (error, string, world) outcome" where
  "command_add L new_id now name w =
     returning (\<lambda>b. ''bucket created: '' @ b_name b @ endl) (store_create_bucket L new_id now name w)"

definition command_remove :: "libs \<Rightarrow> string \<Rightarrow> world \<Rightarrow> (error, string, world) outcome" where
  "command_remove L name w =
     and_then (store_fetch_bucket L name w) (\<lambda>b w.
     and_then (store_remove_bucket (b_id b) w) (\<lambda>_ w.
     (Inr (''bucket removed: '' @ b_name b @ endl), w)))"

definition command_rename :: "libs \<Rightarrow> string \<Rightarrow> string \<Rightarrow> world \<Rightarrow> (error, string, world) outcome" where
  "command_rename L old_name new_name w =
     and_then (store_fetch_bucket L old_name w) (\<lambda>old w.
     and_then (store_rename_bucket L (b_id old) new_name w) (\<lambda>_ w.
     and_then (store_fetch_bucket L new_name w) (\<lambda>b w.
     (Inr (''bucket '' @ quoted (b_name old) @ '' renamed to: '' @ b_name b @ endl), w))))"

definition status_table :: "cli_libs \<Rightarrow> bucket list \<Rightarrow> table" where
  "status_table C bs = foldl (\<lambda>t b. push_back (bucket_fields C b) t) (table_new bucket_table_headers) bs"

definition command_status ::
  "libs \<Rightarrow> cli_libs \<Rightarrow> bool \<Rightarrow> string list \<Rightarrow> world \<Rightarrow> (error, string, world) outcome" where
  "command_status L C verbose names w =
     and_then (if verbose then store_fetch_buckets_all w else store_fetch_buckets names w) (\<lambda>bs w.
       let t = status_table C bs;
           out = (if tbl_rows t = [] then [] else endl @ print_table t @ endl)
       in if names = [] \<or> verbose
          then returning (\<lambda>totals. out @ ''buckets: '' @ show_uint64 (st_buckets totals) @ endl @
                 ''objects: '' @ show_uint64 (st_objects totals) @ endl @
                 ''space used: '' @ data_size C (st_space_used totals) @ endl)
               (store_fetch_totals L w)
          else (Inr out, w))"

definition command_prune :: "libs \<Rightarrow> filesystem \<Rightarrow> cli_libs \<Rightarrow> world \<Rightarrow> (error, string, world) outcome" where
  "command_prune L fs C w =
     returning (\<lambda>objects.
       if objects = [] then ''No objects to prune.'' @ endl
       else let space_freed = foldl (\<lambda>sum x. sum + o_size x) 0 objects;
                n = of_nat (length objects)
            in ''removed '' @ show_uint64 n @ '' object'' @ plural n @ endl @
               ''freeing '' @ data_size C space_freed @ endl)
       (prune L fs w)"

definition command_errors :: "libs \<Rightarrow> world \<Rightarrow> (error, string, world) outcome" where
  "command_errors L w =
     returning (\<lambda>errors. concat (map (\<lambda>e. uuid_text L (oe_id e) @ ''  '' @ oe_message e @ endl) errors) @
         show_uint64 (of_nat (length errors)) @ '' error'' @ plural (of_nat (length errors)) @ endl)
       (store_get_errors w)"

text \<open>What \<open>check\<close> prints at the end.\<close>

definition check_summary :: "cli_libs \<Rightarrow> string \<Rightarrow> check_progress \<Rightarrow> string" where
  "check_summary C argv0 p =
     ''Checked '' @ localized C (completed p) @ '' object'' @ plural (completed p) @ '': '' @
     (if pg_errors p = 0 then ''all'' else localized C (pg_success p)) @ '' valid'' @
     (if 0 < pg_errors p
      then '', '' @ localized C (pg_errors p) @ '' error'' @ plural (pg_errors p) @ endl @
           ''Run '' @ quoted (argv0 @ '' errors'') @ '' for further information'' @ endl
      else endl)"

section \<open>Archiving and restoring\<close>

text \<open>
  The two commands perform actions outside the process: \<open>dbtools\<close> dumps the database, or restores it,
  as another user when one is named; the directories are opened; a program is run; a file is removed.
  An action's result is given by \<open>env\<close>: an exception, or how the process ended, which only
  \<open>Run_program\<close> looks at.  The commands return what they have performed.
\<close>

datatype action =
    Dump_database string
  | Open_filesystem string
  | Run_program string "string list"
  | Remove_file string
  | Restore_database "string option" string

type_synonym environment = "action \<Rightarrow> error + exit_info"

definition perform :: "environment \<Rightarrow> action \<Rightarrow> action list \<Rightarrow> (error, exit_info, action list) outcome" where
  "perform env a done = (env a, done @ [a])"

definition path_append :: "string \<Rightarrow> string \<Rightarrow> string" where
  "path_append a b = (if a = [] \<or> last a = CHR ''/'' then a @ b else a @ ''/'' @ b)"

definition dump_file :: "string \<Rightarrow> string" where
  "dump_file home = path_append home ''fstore.dump''"

record archive_settings =
  as_options :: "string list"
  as_path :: string
  as_sync :: string

definition value_or :: "'a option \<Rightarrow> 'a \<Rightarrow> 'a" where
  "value_or z d = (case z of None \<Rightarrow> d | Some x \<Rightarrow> x)"

definition no_location :: error where
  "no_location = Runtime_error ''archive location not specified''"

definition command_archive ::
  "environment \<Rightarrow> string \<Rightarrow> archive_settings \<Rightarrow> string option \<Rightarrow> (error, unit, action list) outcome" where
  "command_archive env home s output =
     (let dest = value_or output (as_path s)
      in if dest = [] then (Inl no_location, [])
         else and_then (perform env (Dump_database (dump_file home)) []) (\<lambda>_ done.
              and_then (perform env (Open_filesystem home) done) (\<lambda>_ done.
              and_then (perform env (Run_program (as_sync s)
                 (sync_args (path_append home ''objects'') (as_options s @ [dump_file home]) dest)) done)
                 (\<lambda>exit done.
              and_then (check_exit (as_sync s) exit, done) (\<lambda>_ done.
              and_then (perform env (Remove_file (dump_file home)) done) (\<lambda>_ done. (Inr (), done)))))))"

definition command_restore ::
  "environment \<Rightarrow> string \<Rightarrow> archive_settings \<Rightarrow> string option \<Rightarrow> string option \<Rightarrow>
     (error, unit, action list) outcome" where
  "command_restore env home s user filename =
     (let archive = value_or filename (as_path s)
      in if archive = [] then (Inl no_location, [])
         else and_then (perform env (Run_program (as_sync s)
                (sync_options @ as_options s @ [archive @ ''/''] @ [home])) []) (\<lambda>exit done.
              and_then (check_exit (as_sync s) exit, done) (\<lambda>_ done.
              and_then (perform env (Restore_database user (dump_file home)) done) (\<lambda>_ done. (Inr (), done)))))"

end
