(* ===== verification/Conf.thy ===== *)
theory Conf
  imports Cli
begin

text \<open>
  \<open>src/libconf\<close> and \<open>include/internal/conf/settings.hpp\<close>: the configuration file.  YAML documents and the
  conversions of their leaves belong to libraries; the program states which keys there are, which
  are required, and the defaults of the others.
\<close>

section \<open>Settings\<close>

record ('g, 'u) daemon_settings =
  ds_group :: 'g
  ds_user :: 'u

record 'c database_settings =
  dbs_client :: "string option"
  dbs_connection :: 'c
  dbs_connections :: int
  dbs_dump :: "string option"
  dbs_restore :: "string option"
  dbs_sqldir :: string

record 'e http_settings =
  hs_listen :: "'e list"
  hs_cert :: string
  hs_key :: string

record ('g, 'u, 'c, 'e) settings =
  se_archive :: archive_settings
  se_daemon :: "('g, 'u) daemon_settings"
  se_database :: "'c database_settings"
  se_home :: string
  se_http :: "'e http_settings"
  se_server :: "'e list"

text \<open>The values of the members that are not in the file.\<close>

definition default_archive :: archive_settings where
  "default_archive = \<lparr>as_options = [], as_path = [], as_sync = ''rsync''\<rparr>"

section \<open>Decoding\<close>

text \<open>
  A document, the conversions of conftools and yaml-cpp, and what they throw for a required key that
  is not there.
\<close>

datatype yaml = Scalar string | Sequence "yaml list" | Mapping "(string \<times> yaml) list"

record ('g, 'u, 'c, 'e) conversions =
  as_string :: "yaml \<Rightarrow> error + string"
  as_int :: "yaml \<Rightarrow> error + int"
  as_strings :: "yaml \<Rightarrow> error + string list"
  as_group :: "yaml \<Rightarrow> error + 'g"
  as_user :: "yaml \<Rightarrow> error + 'u"
  as_connection :: "yaml \<Rightarrow> error + 'c"
  as_endpoints :: "yaml \<Rightarrow> error + 'e list"
  missing_key :: "string \<Rightarrow> error"

fun key_of :: "string \<Rightarrow> yaml \<Rightarrow> yaml option" where
  "key_of k (Mapping m) = map_of m k"
| "key_of k _ = None"

definition required ::
  "('g, 'u, 'c, 'e) conversions \<Rightarrow> string \<Rightarrow> (yaml \<Rightarrow> error + 'a) \<Rightarrow> yaml \<Rightarrow> error + 'a" where
  "required V k f node = (case key_of k node of None \<Rightarrow> Inl (missing_key V k) | Some n \<Rightarrow> f n)"

definition optional :: "string \<Rightarrow> (yaml \<Rightarrow> error + 'a) \<Rightarrow> 'a \<Rightarrow> yaml \<Rightarrow> error + 'a" where
  "optional k f d node = (case key_of k node of None \<Rightarrow> Inr d | Some n \<Rightarrow> f n)"

text \<open>An optional member whose type is itself optional.\<close>

definition optional_value :: "string \<Rightarrow> (yaml \<Rightarrow> error + 'a) \<Rightarrow> yaml \<Rightarrow> error + 'a option" where
  "optional_value k f node = optional k (\<lambda>n. bind_sum (f n) (\<lambda>x. Inr (Some x))) None node"

definition decode_archive :: "('g, 'u, 'c, 'e) conversions \<Rightarrow> yaml \<Rightarrow> error + archive_settings" where
  "decode_archive V node =
     bind_sum (optional ''options'' (as_strings V) (as_options default_archive) node) (\<lambda>options.
     bind_sum (required V ''path'' (as_string V) node) (\<lambda>path.
     bind_sum (optional ''sync'' (as_string V) (as_sync default_archive) node) (\<lambda>sync.
     Inr \<lparr>as_options = options, as_path = path, as_sync = sync\<rparr>)))"

definition decode_daemon :: "('g, 'u, 'c, 'e) conversions \<Rightarrow> yaml \<Rightarrow> error + ('g, 'u) daemon_settings" where
  "decode_daemon V node =
     bind_sum (required V ''group'' (as_group V) node) (\<lambda>group.
     bind_sum (required V ''user'' (as_user V) node) (\<lambda>user.
     Inr \<lparr>ds_group = group, ds_user = user\<rparr>))"

definition decode_database :: "('g, 'u, 'c, 'e) conversions \<Rightarrow> yaml \<Rightarrow> error + 'c database_settings" where
  "decode_database V node =
     bind_sum (optional_value ''client'' (as_string V) node) (\<lambda>client.
     bind_sum (required V ''connection'' (as_connection V) node) (\<lambda>connection.
     bind_sum (optional ''connections'' (as_int V) 1 node) (\<lambda>connections.
     bind_sum (optional_value ''dump'' (as_string V) node) (\<lambda>dump.
     bind_sum (optional_value ''restore'' (as_string V) node) (\<lambda>restore.
     bind_sum (required V ''sqldir'' (as_string V) node) (\<lambda>sqldir.
     Inr \<lparr>dbs_client = client, dbs_connection = connection, dbs_connections = connections,
          dbs_dump = dump, dbs_restore = restore, dbs_sqldir = sqldir\<rparr>))))))"

definition decode_http :: "('g, 'u, 'c, 'e) conversions \<Rightarrow> yaml \<Rightarrow> error + 'e http_settings" where
  "decode_http V node =
     bind_sum (required V ''listen'' (as_endpoints V) node) (\<lambda>listen.
     bind_sum (required V ''cert'' (as_string V) node) (\<lambda>cert.
     bind_sum (required V ''key'' (as_string V) node) (\<lambda>key.
     Inr \<lparr>hs_listen = listen, hs_cert = cert, hs_key = key\<rparr>)))"

definition decode_settings ::
  "('g, 'u, 'c, 'e) conversions \<Rightarrow> yaml \<Rightarrow> error + ('g, 'u, 'c, 'e) settings" where
  "decode_settings V node =
     bind_sum (optional ''archive'' (decode_archive V) default_archive node) (\<lambda>archive.
     bind_sum (required V ''daemon'' (decode_daemon V) node) (\<lambda>daemon.
     bind_sum (required V ''database'' (decode_database V) node) (\<lambda>db.
     bind_sum (required V ''home'' (as_string V) node) (\<lambda>home.
     bind_sum (required V ''http'' (decode_http V) node) (\<lambda>http.
     bind_sum (required V ''server'' (as_endpoints V) node) (\<lambda>server.
     Inr \<lparr>se_archive = archive, se_daemon = daemon, se_database = db, se_home = home,
          se_http = http, se_server = server\<rparr>))))))"

text \<open>\<open>settings::load\<close> parses the text first, which the library does.\<close>

definition load_settings ::
  "('g, 'u, 'c, 'e) conversions \<Rightarrow> (string \<Rightarrow> error + yaml) \<Rightarrow> string \<Rightarrow> error + ('g, 'u, 'c, 'e) settings" where
  "load_settings V load txt = bind_sum (load txt) (decode_settings V)"

end
