(* ===== verification/Cli_Properties.thy ===== *)
theory Cli_Properties
  imports Conf Sample
begin

text \<open>
  The properties of the commands and of the configuration.
\<close>

section \<open>Tables\<close>

text \<open>The invariant of a table: rows of one length, columns as wide as their fields.\<close>

definition table_inv :: "table \<Rightarrow> bool" where
  "table_inv t \<longleftrightarrow> (\<forall>row \<in> insert (tbl_headers t) (set (tbl_rows t)).
     list_all2 (\<lambda>s w. length s \<le> w) row (tbl_widths t))"

lemma table_new_inv [inv_intros]: "table_inv (table_new headers)"
  by (simp add: table_inv_def table_new_def list_all2_map2 list_all2_same)

lemma table_new_frame: "tbl_headers (table_new headers) = headers" "tbl_rows (table_new headers) = []"
  by (simp_all add: table_new_def)

lemma push_back_inv [inv_intros]:
  assumes inv: "table_inv t" and len: "length row = length (tbl_headers t)"
  shows "table_inv (push_back row t)"
proof -
  let ?ws = "tbl_widths (push_back row t)"
  have "length (tbl_widths t) = length row"
    using inv len by (auto simp: table_inv_def dest: list_all2_lengthD)
  then have "list_all2 (\<le>) (tbl_widths t) ?ws" "list_all2 (\<lambda>s w. length s \<le> w) row ?ws"
    by (auto simp: push_back_def resize_def list_all2_conv_all_nth)
  moreover have "list_all2 (\<lambda>s w. length s \<le> w) r ?ws" if "list_all2 (\<lambda>s w. length s \<le> w) r (tbl_widths t)" for r
    using list_all2_trans [OF _ that \<open>list_all2 (\<le>) (tbl_widths t) ?ws\<close>] by (auto intro: order_trans)
  moreover have "tbl_headers (push_back row t) = tbl_headers t" "tbl_rows (push_back row t) = tbl_rows t @ [row]"
    by (simp_all add: push_back_def resize_def)
  ultimately show ?thesis
    using inv by (auto simp: table_inv_def)
qed

lemma push_back_frame [simp]:
  "tbl_headers (push_back row t) = tbl_headers t" "tbl_rows (push_back row t) = tbl_rows t @ [row]"
  by (simp_all add: push_back_def resize_def)

definition fill_table :: "string list \<Rightarrow> string list list \<Rightarrow> table" where
  "fill_table headers rows = foldl (\<lambda>t row. push_back row t) (table_new headers) rows"

lemma fill_table_snoc: "fill_table headers (rows @ [row]) = push_back row (fill_table headers rows)"
  by (simp add: fill_table_def)

lemma fill_table_inv:
  "\<forall>row \<in> set rows. length row = length headers \<Longrightarrow> table_inv (fill_table headers rows) \<and>
     tbl_headers (fill_table headers rows) = headers \<and> tbl_rows (fill_table headers rows) = rows"
  by (induction rows rule: rev_induct)
     (auto simp: fill_table_snoc push_back_inv, auto simp: fill_table_def table_new_inv table_new_frame)

lemma length_print_fields:
  "list_all2 (\<lambda>s w. length s \<le> w) ss ws \<Longrightarrow> ws \<noteq> [] \<Longrightarrow>
     Suc (length (print_fields fill padding divider ws ss)) = sum_list ws + 3 * length ws"
  by (induction fill padding divider ws ss rule: print_fields.induct)
     (auto simp: pad_field_def list_all2_Cons2)

lemma length_print_line:
  "list_all2 (\<lambda>s w. length s \<le> w) row (tbl_widths t) \<Longrightarrow> tbl_widths t \<noteq> [] \<Longrightarrow>
     length (print_line t fill padding divider row) = sum_list (tbl_widths t) + 3 * length (tbl_widths t)"
  using length_print_fields [of row "tbl_widths t" fill padding divider] by (simp add: print_line_def endl_def)

text \<open>C38: Every line of a printed table, the header and the rule included, has the same length, so the
  columns are aligned, and no field is cut: each column is at least as wide as its fields.\<close>

theorem table_aligned:
  assumes "headers \<noteq> []" and "[] \<notin> set headers" and "\<forall>row \<in> set rows. length row = length headers"
  shows "\<exists>n. (\<forall>line \<in> set (table_lines (fill_table headers rows)). length line = n) \<and>
    (\<forall>row \<in> set (headers # rows). list_all2 (\<lambda>s w. length s \<le> w) row (tbl_widths (fill_table headers rows)))"
proof -
  let ?t = "fill_table headers rows"
  have t: "table_inv ?t" "tbl_headers ?t = headers" "tbl_rows ?t = rows"
    using fill_table_inv [OF assms(3)] by simp_all
  have fit: "list_all2 (\<lambda>s w. length s \<le> w) row (tbl_widths ?t)" if "row \<in> set (headers # rows)" for row
    using t that by (auto simp: table_inv_def)
  have ne: "tbl_widths ?t \<noteq> []" using fit [of headers] assms(1) by (auto dest: list_all2_lengthD)
  have wide: "list_all2 (\<lambda>s w. length s \<le> w) (map (\<lambda>_. ''-'') (tbl_widths ?t)) (tbl_widths ?t)"
  proof -
    have "w \<noteq> 0" if "w \<in> set (tbl_widths ?t)" for w
    proof -
      obtain i where i: "i < length (tbl_widths ?t)" "tbl_widths ?t ! i = w"
        using \<open>w \<in> set (tbl_widths ?t)\<close> by (auto simp: in_set_conv_nth)
      have "length (headers ! i) \<le> w" "i < length headers"
        using fit [of headers] i by (auto simp: list_all2_conv_all_nth)
      moreover have "headers ! i \<noteq> []" using assms(2) \<open>i < length headers\<close> by (metis nth_mem)
      ultimately show ?thesis by (cases "headers ! i") auto
    qed
    then show ?thesis by (fastforce simp: list_all2_map1 list_all2_same)
  qed
  let ?n = "sum_list (tbl_widths ?t) + 3 * length (tbl_widths ?t)"
  have "length line = ?n" if "line \<in> set (table_lines ?t)" for line
    using that fit wide ne
    by (auto simp: table_lines_def print_row_def print_break_def length_print_line t(2,3))
  with fit show ?thesis by blast
qed

theorem table_aligned_witness:
  "\<exists>n. \<forall>line \<in> set (table_lines (fill_table bucket_table_headers
     [[''photos'', ''1'', ''2 B''], [''a longer name'', ''12'', ''1.50 MiB'']])). length line = n"
  using table_aligned [of bucket_table_headers "[[''photos'', ''1'', ''2 B''], [''a longer name'', ''12'', ''1.50 MiB'']]"]
  by (auto simp: bucket_table_headers_def)

section \<open>Commands\<close>

text \<open>C39: A new name with white space around it makes the command \<open>bucket rename\<close> fail after it has
  renamed the bucket: the store trims the name, and the command looks the bucket up by the name as
  it was typed.\<close>

theorem rename_untrimmed_fails:
  assumes inv: "store_inv L fs w" and trim: "trim_law L"
    and old: "store_fetch_bucket L old_name w = (Inr b, w)"
    and ok: "store_rename_bucket L (b_id b) new_name w = (Inr (), w')"
    and untrimmed: "new_name \<noteq> strip new_name" and unused: "new_name \<notin> bk_name ` set (tb_bucket (w_db w))"
  shows "command_rename L old_name new_name w = (Inl (bucket_not_found new_name), w')"
proof -
  have inv': "store_inv L fs w'" using store_changes_inv(5) [OF inv, of "b_id b" new_name] ok by simp
  have name: "process_bucket_name L new_name = Inr (strip new_name)"
    using ok by (auto simp: store_rename_bucket_def process_bucket_name_eq [OF trim] split: if_splits)
  obtain db where db: "sql_rename_bucket (b_id b) (strip new_name) (w_db w) = Inr db" "w' = w\<lparr>w_db := db\<rparr>"
    using ok by (auto simp: store_rename_bucket_eq [OF name] split: sum.splits)
  have "new_name \<notin> bk_name ` set (tb_bucket db)"
  proof
    assume "new_name \<in> bk_name ` set (tb_bucket db)"
    then obtain row where row: "row \<in> set (tb_bucket (w_db w))"
        "new_name = bk_name (rename_row (b_id b) (strip new_name) row)"
      unfolding sql_rename_bucket_frame(4) [OF db(1)] by (auto simp only: set_map image_iff)
    then show False using unused untrimmed by (auto simp: rename_row_simps split: if_splits)
  qed
  then have "bucket_named (w_db w') new_name = None"
    by (simp add: bucket_named_def row_map_None_iff db(2))
  then have "store_fetch_bucket L new_name w' = (Inl (bucket_not_found new_name), w')"
    using store_invD(3,4) [OF inv'] by (simp add: store_fetch_bucket_def connection_fetch_bucket_def
        on_db_def reading_def step_simps prepared_provide sql_fetch_bucket_eq bucket_named_def)
  then show ?thesis by (simp add: command_rename_def old ok)
qed

theorem rename_untrimmed_fails_witness:
  "\<exists>w'. command_rename sample ''photos'' '' art'' w1 = (Inl (bucket_not_found '' art''), w') \<and>
     tb_bucket (w_db w') = [\<lparr>bk_id = 1, bk_name = ''art'', bk_created = 100\<rparr>]"
proof -
  have strip: "strip '' art'' = ''art''" by (simp add: strip_def is_space_def)
  then have name: "process_bucket_name sample '' art'' = Inr ''art''"
    by (simp add: process_bucket_name_def sample_def)
  let ?db = "db1\<lparr>tb_bucket := [\<lparr>bk_id = 1, bk_name = ''art'', bk_created = 100\<rparr>]\<rparr>"
  have "sql_rename_bucket 1 ''art'' db1 = Inr ?db"
    by (simp add: sql_rename_bucket_def update_bucket_name_def db1_def rename_row_def)
  then have ok: "store_rename_bucket sample (b_id bucket1) '' art'' w1 = (Inr (), w1\<lparr>w_db := ?db\<rparr>)"
    by (simp add: store_rename_bucket_eq [OF name] create1(2) bucket1_def)
  have "command_rename sample ''photos'' '' art'' w1 = (Inl (bucket_not_found '' art''), w1\<lparr>w_db := ?db\<rparr>)"
    by (rule rename_untrimmed_fails [OF sample_inv(2) sample_laws(2) fetch1 ok])
       (simp_all add: strip create1(2) db1_def)
  then show ?thesis by simp
qed

text \<open>A command run on a store that is already set up works on that store: opening the directories
  again changes nothing.\<close>

theorem command_on_existing_store:
  assumes "disk_inv (home_fs home) (w_disk w)"
  shows "with_store home act w = act (home_fs home) w"
  using filesystem_new_again [OF assms] by (simp add: with_store_def on_disk_def)

theorem command_on_existing_store_witness:
  "with_store [''data''] (\<lambda>fs w. get_object sample fs 1 5 w) w3 = get_object sample fs0 1 5 w3"
  using command_on_existing_store [of "[''data'']" w3 "\<lambda>fs w. get_object sample fs 1 5 w"]
    store_invD(5) [OF sample_inv(4)] by (simp add: fs0_def)


section \<open>Archiving and restoring\<close>

text \<open>What a successful \<open>archive\<close> does, in its order.\<close>

definition archive_actions :: "string \<Rightarrow> archive_settings \<Rightarrow> string \<Rightarrow> action list" where
  "archive_actions home s dest = [Dump_database (dump_file home), Open_filesystem home,
     Run_program (as_sync s)
       (''--archive'' # ''--delete'' # as_options s @ [dump_file home, path_append home ''objects'', dest]),
     Remove_file (dump_file home)]"

definition exited_well :: "exit_info \<Rightarrow> bool" where
  "exited_well e \<longleftrightarrow> ex_code e = CLD_EXITED \<and> ex_status e = 0"

lemma exited_well_iff: "exited_well e \<longleftrightarrow> check_exit p e = Inr ()"
  by (simp add: check_exit_def exited_well_def)

text \<open>An action succeeds when it does not throw, and a program when it exits with status 0.\<close>

definition succeeds :: "environment \<Rightarrow> action \<Rightarrow> bool" where
  "succeeds env a \<longleftrightarrow> (case env a of Inl _ \<Rightarrow> False
     | Inr e \<Rightarrow> (case a of Run_program _ _ \<Rightarrow> exited_well e | _ \<Rightarrow> True))"

text \<open>The command \<open>archive\<close> dumps the database, synchronizes the objects and the dump with the
  destination and removes the dump, in this order, up to the first action that does not succeed: it
  reports success exactly when all of them succeed, and never removes a dump that was not copied.\<close>

theorem archive_in_order:
  assumes "value_or output (as_path s) = dest" and "dest \<noteq> []"
  shows "(let todo = archive_actions home s dest; r = command_archive env home s output in
    snd r = take (Suc (length (takeWhile (succeeds env) todo))) todo \<and>
    (fst r = Inr ()) = list_all (succeeds env) todo)"
proof -
  let ?dump = "Dump_database (dump_file home)" and ?remove = "Remove_file (dump_file home)"
  let ?run = "Run_program (as_sync s)
    (''--archive'' # ''--delete'' # as_options s @ [dump_file home, path_append home ''objects'', dest])"
  note defs = command_archive_def archive_actions_def assms Let_def perform_def sync_args_def sync_options_def
  show ?thesis
  proof (cases "env ?run")
    case (Inl e)
    then show ?thesis
      by (cases "env ?dump"; cases "env (Open_filesystem home)") (simp_all add: defs succeeds_def)
  next
    case run: (Inr e)
    then show ?thesis
      by (cases "env ?dump"; cases "env (Open_filesystem home)"; cases "env ?remove"; cases "check_exit (as_sync s) e")
         (simp_all add: defs succeeds_def exited_well_iff [of _ "as_sync s"])
  qed
qed

text \<open>A program that always exits with the status \<open>n\<close>, and everything else goes well.\<close>

definition exits_with :: "int \<Rightarrow> environment" where
  "exits_with n a = Inr \<lparr>ex_code = CLD_EXITED, ex_status = n\<rparr>"

theorem archive_in_order_witness:
  "snd (command_archive (exits_with 23) ''/srv'' default_archive (Some ''/backup'')) =
    [Dump_database ''/srv/fstore.dump'', Open_filesystem ''/srv'',
     Run_program ''rsync'' [''--archive'', ''--delete'', ''/srv/fstore.dump'', ''/srv/objects'', ''/backup'']]"
  using archive_in_order [of "Some ''/backup''" default_archive "''/backup''" "''/srv''" "exits_with 23"]
  by (simp add: value_or_def archive_actions_def succeeds_def exits_with_def exited_well_def Let_def
      default_archive_def dump_file_def path_append_def)

text \<open>The command \<open>restore\<close> touches the database only after the program that copies the archive back
  has exited with status 0; whatever ends the program otherwise is reported, and the database is kept.\<close>

theorem restore_after_copy:
  "(let program = Run_program (as_sync s)
        (''--archive'' # ''--delete'' # as_options s @ [value_or filename (as_path s) @ ''/'', home]);
      r = command_restore env home s user filename
    in (Restore_database user (dump_file home) \<in> set (snd r)) =
         (value_or filename (as_path s) \<noteq> [] \<and> succeeds env program) \<and>
       (fst r = Inr ()) = (value_or filename (as_path s) \<noteq> [] \<and> succeeds env program \<and>
         succeeds env (Restore_database user (dump_file home))))"
proof -
  define program where "program = Run_program (as_sync s)
     (''--archive'' # ''--delete'' # as_options s @ [value_or filename (as_path s) @ ''/'', home])"
  let ?restore = "Restore_database user (dump_file home)"
  note defs = command_restore_def Let_def perform_def sync_options_def succeeds_def
  have run: "command_restore env home s user filename =
    (if value_or filename (as_path s) = [] then (Inl no_location, [])
     else case env program of Inl e \<Rightarrow> (Inl e, [program])
       | Inr e \<Rightarrow> (case check_exit (as_sync s) e of Inl e \<Rightarrow> (Inl e, [program])
          | Inr _ \<Rightarrow> (case env ?restore of Inl e \<Rightarrow> (Inl e, [program, ?restore]) | Inr _ \<Rightarrow> (Inr (), [program, ?restore]))))"
    by (simp add: command_restore_def Let_def perform_def sync_options_def program_def split: sum.splits)
  have not: "?restore \<noteq> program" by (simp add: program_def)
  have ok: "succeeds env program = (\<exists>e. env program = Inr e \<and> check_exit (as_sync s) e = Inr ())"
    by (simp add: succeeds_def program_def exited_well_iff [of _ "as_sync s"] split: sum.split)
  have again: "succeeds env ?restore = (\<exists>e. env ?restore = Inr e)"
    by (simp add: succeeds_def split: sum.split)
  show ?thesis
    unfolding Let_def program_def [symmetric] run ok again using not by (auto split: sum.splits)
qed

section \<open>Settings\<close>

text \<open>A configuration that has no \<open>archive\<close> section still loads, with the program \<open>rsync\<close>, no options
  and no location; then \<open>archive\<close> and \<open>restore\<close> without an argument refuse to run, and perform nothing.\<close>

theorem settings_without_archive:
  assumes "decode_settings V (Mapping m) = Inr conf" and "map_of m ''archive'' = None"
  shows "se_archive conf = \<lparr>as_options = [], as_path = [], as_sync = ''rsync''\<rparr> \<and>
    command_archive env home (se_archive conf) None = (Inl no_location, []) \<and>
    command_restore env home (se_archive conf) user None = (Inl no_location, [])"
proof -
  have "se_archive conf = default_archive"
    using assms by (auto simp: decode_settings_def optional_def bind_sum_def split: sum.splits)
  then show ?thesis
    by (simp add: default_archive_def command_archive_def command_restore_def value_or_def)
qed

text \<open>Conversions that take a scalar as it is.\<close>

fun plain :: "yaml \<Rightarrow> error + string" where
  "plain (Scalar s) = Inr s"
| "plain n = Inl (Runtime_error ''bad conversion'')"

definition plain_list :: "yaml \<Rightarrow> error + string list" where
  "plain_list n = (case n of Sequence xs \<Rightarrow> Inr (map (\<lambda>x. case plain x of Inl _ \<Rightarrow> [] | Inr s \<Rightarrow> s) xs)
     | _ \<Rightarrow> Inl (Runtime_error ''bad conversion''))"

definition plain_conversions :: "(string, string, string, string) conversions" where
  "plain_conversions = \<lparr>as_string = plain, as_int = (\<lambda>_. Inr 1), as_strings = plain_list, as_group = plain,
     as_user = plain, as_connection = plain, as_endpoints = plain_list, missing_key = Runtime_error\<rparr>"

definition sample_settings :: "(string \<times> yaml) list" where
  "sample_settings = [(''daemon'', Mapping [(''group'', Scalar ''fstore''), (''user'', Scalar ''fstore'')]),
     (''database'', Mapping [(''connection'', Scalar ''dbname=fstore''), (''sqldir'', Scalar ''/sql'')]),
     (''home'', Scalar ''/srv''),
     (''http'', Mapping [(''listen'', Sequence [Scalar ''localhost:80'']), (''cert'', Scalar ''c''), (''key'', Scalar ''k'')]),
     (''server'', Sequence [Scalar ''/run/fstore''])]"

lemma sample_decodes: "\<exists>conf. decode_settings plain_conversions (Mapping sample_settings) = Inr conf"
  by (simp add: decode_settings_def decode_daemon_def decode_database_def decode_http_def required_def optional_def
      optional_value_def sample_settings_def plain_conversions_def plain_list_def bind_sum_def)

theorem settings_without_archive_witness:
  "\<exists>conf. decode_settings plain_conversions (Mapping sample_settings) = Inr conf \<and>
     command_archive (exits_with 0) ''/srv'' (se_archive conf) None = (Inl no_location, [])"
proof -
  obtain conf where conf: "decode_settings plain_conversions (Mapping sample_settings) = Inr conf"
    using sample_decodes by blast
  have none: "map_of sample_settings ''archive'' = None" by (simp add: sample_settings_def)
  from settings_without_archive [OF conf none] conf show ?thesis by blast
qed

end
