(* ===== verification/Backup.thy ===== *)
theory Backup
  imports Interleaving Cli
begin

text \<open>
  What \<open>archive\<close> and \<open>restore\<close> (\<open>src/fstore/commands\<close>) achieve together with the programs they run, while
  the server keeps working.  The effects of the programs are the documented ones: a dump is the database
  at one moment, a copy holds each file as it was when the copying program read it.
\<close>

section \<open>Serving without pruning\<close>

text \<open>Steps of the server, its clients keeping part ids apart, in which no \<open>prune\<close> takes objects out of the catalogue.\<close>

definition serving :: "libs \<Rightarrow> filesystem \<Rightarrow> system \<Rightarrow> system \<Rightarrow> bool" where
  "serving L fs s t \<longleftrightarrow> apart_step L fs s t \<and> set (sy_removals t) \<subseteq> set (sy_removals s)"

text \<open>The object of a row is on the disk, in its own file.\<close>

definition in_place :: "libs \<Rightarrow> filesystem \<Rightarrow> object_row \<Rightarrow> system \<Rightarrow> bool" where
  "in_place L fs r s \<longleftrightarrow> r \<in> set (tb_object (sy_db s)) \<and>
     map_option (sha256sum L) (stored L fs (sy_disk s) (ob_id r)) = Some (ob_hash r)"

lemma in_place_frame:
  "in_place L fs r s \<Longrightarrow> stored L fs (w_disk w) (ob_id r) = stored L fs (sy_disk s) (ob_id r) \<Longrightarrow>
   r \<in> set (tb_object (w_db w)) \<Longrightarrow> in_place L fs r (s\<lparr>sy_world := w\<rparr>)"
  by (simp add: in_place_def)

lemma in_place_parts [simp]:
  "in_place L fs r (s\<lparr>sy_commits := cs\<rparr>) = in_place L fs r s"
  "in_place L fs r (s\<lparr>sy_removals := rs\<rparr>) = in_place L fs r s"
  by (simp_all add: in_place_def)

lemma record_in_place:
  assumes inv: "system_inv L fs s" and r: "in_place L fs r s"
    and ok: "commit_record L fs now b i (sy_world s) = (Inr e, w')"
  shows "in_place L fs r (s\<lparr>sy_world := w'\<rparr>)"
  using system_invD [OF inv] r by (elim commit_record_ok [OF _ _ _ ok]) (auto simp: in_place_def)

lemma settle_in_place:
  assumes inv: "system_inv L fs s" and r: "in_place L fs r s" and mem: "(i, e) \<in> set (sy_commits s)"
    and st: "settle L fs i e (sy_world s) = (x, w')"
  shows "in_place L fs r (s\<lparr>sy_world := w'\<rparr>)"
proof -
  note D = system_invD [OF inv]
  obtain c where c: "staged L fs (sy_disk s) i = Some c"
    using D(6) mem by (fastforce simp: commits_inv_def)
  have "sha256sum L c = ob_hash r" if "ob_id r = i"
    using D(5) r c that by (fastforce simp: recoverable_def content_at_def in_place_def)
  then show ?thesis
    using r st by (rule_tac settle_eq [OF D(2,4) c, of e]) (auto simp: in_place_def)
qed

lemma erase_in_place:
  assumes inv: "system_inv L fs s" and r: "in_place L fs r s" and x: "x \<in> set (sy_removals s)"
    and ok: "remove_file L fs x (sy_world s) = (z, w')"
  shows "in_place L fs r (s\<lparr>sy_world := w'\<rparr>)"
proof -
  note D = system_invD [OF inv]
  have "ob_id r \<noteq> x" using D(7) r x by (auto simp: in_place_def ids_def)
  then show ?thesis
    using erase_disk [OF D(2,4), of x] ok r by (auto simp: remove_file_def on_disk_def in_place_def)
qed

lemma orphans_in_place:
  assumes inv: "system_inv L fs s" and r: "in_place L fs r s"
    and ok: "prune_record (sy_world s) = (Inr orphans, w')"
    and none: "db_o_id ` set orphans \<subseteq> set (sy_removals s)"
  shows "in_place L fs r (s\<lparr>sy_world := w'\<rparr>)"
proof -
  note D = system_invD [OF inv]
  have w': "w' = (sy_world s)\<lparr>w_db := snd (sql_remove_orphan_objects (sy_db s))\<rparr>"
    and o: "orphans = fst (sql_remove_orphan_objects (sy_db s))"
    using ok by (simp_all add: prune_record_eq)
  have "ob_id r \<in> referenced (sy_db s)"
  proof (rule ccontr)
    assume "ob_id r \<notin> referenced (sy_db s)"
    then have "ob_id r \<in> db_o_id ` set orphans"
      using r by (auto simp: o sql_prune_eq(1) in_place_def image_iff object_view_def)
    then show False using none D(7) r by (auto simp: in_place_def ids_def)
  qed
  with r show ?thesis by (simp add: in_place_def w' sql_prune_eq(2))
qed

lemma db_steps_in_place:
  assumes r: "in_place L fs r s"
  shows "in_place L fs r (s\<lparr>sy_world := snd (store_create_bucket L i now n (sy_world s))\<rparr>)"
    and "in_place L fs r (s\<lparr>sy_world := snd (store_remove_bucket b (sy_world s))\<rparr>)"
    and "in_place L fs r (s\<lparr>sy_world := snd (store_remove_object L b x (sy_world s))\<rparr>)"
    and "in_place L fs r (s\<lparr>sy_world := snd (store_remove_objects L b xs (sy_world s))\<rparr>)"
    and "in_place L fs r (s\<lparr>sy_world := snd (store_rename_bucket L b n (sy_world s))\<rparr>)"
proof -
  have mem: "r \<in> set (tb_object (sy_db s))" using r by (simp add: in_place_def)
  show "in_place L fs r (s\<lparr>sy_world := snd (store_create_bucket L i now n (sy_world s))\<rparr>)"
    and "in_place L fs r (s\<lparr>sy_world := snd (store_remove_bucket b (sy_world s))\<rparr>)"
    and "in_place L fs r (s\<lparr>sy_world := snd (store_remove_object L b x (sy_world s))\<rparr>)"
    and "in_place L fs r (s\<lparr>sy_world := snd (store_remove_objects L b xs (sy_world s))\<rparr>)"
    and "in_place L fs r (s\<lparr>sy_world := snd (store_rename_bucket L b n (sy_world s))\<rparr>)"
    by (rule in_place_frame [OF r];
        simp add: mem store_create_bucket_def store_remove_bucket_def store_remove_object_def
          store_remove_objects_def store_rename_bucket_def connection_objects split: sum.split)+
qed

text \<open>An object that is in place stays in place.\<close>

lemma serving_in_place:
  assumes inv: "system_inv L fs s" and r: "in_place L fs r s" and step: "serving L fs s t"
  shows "in_place L fs r t"
proof -
  note D = system_invD [OF inv]
  obtain a where "server_step L fs s a t" and rem: "set (sy_removals t) \<subseteq> set (sy_removals s)"
    and apart: "part_ids_apart a s"
    using step by (auto simp: serving_def)
  then show ?thesis
  proof cases
    case (Write i g chunks)
    then show ?thesis
      using r apart stage_disk(2) [OF D(4)] by (auto simp: upload_part_eq intro!: in_place_frame)
        (simp add: in_place_def)
  next
    case (Record now b i e w')
    then show ?thesis using record_in_place [OF inv r] apart by simp
  next
    case (Refuse now b i err w')
    then have "commit_part L fs now b i (sy_world s) = (Inl err, w')" by (simp add: commit_part_halves)
    from commit_part_error [OF D(1,3,4) this] have "w' = sy_world s" .
    then show ?thesis using Refuse(2) r by simp
  next
    case (Settle i e z w')
    then show ?thesis using settle_in_place [OF inv r] by simp
  next
    case (Orphans orphans w')
    then show ?thesis using orphans_in_place [OF inv r] rem by auto
  next
    case (Erase x z w')
    then show ?thesis using erase_in_place [OF inv r] by simp
  qed (simp_all add: r db_steps_in_place)
qed

lemma serving_inv: "system_inv L fs s \<Longrightarrow> serving L fs s t \<Longrightarrow> system_inv L fs t"
  unfolding serving_def using server_step_inv by blast

interpretation serving: invariant_system "serving L fs" "system_inv L fs" for L fs
  by unfold_locales (rule serving_inv)

interpretation keeping: invariant_system "serving L fs" "\<lambda>s. system_inv L fs s \<and> in_place L fs r s" for L fs r
  by unfold_locales (use serving_inv serving_in_place in blast)

section \<open>The programs that are run\<close>

text \<open>
  What lies in an archive: a dump, and a file for some of the ids.  A site is the store with its server, the
  dump in its home directory, and the archive at the destination.
\<close>

record backup =
  bk_dump :: database
  bk_files :: "uuid \<Rightarrow> blob option"

record site =
  si_live :: system
  si_dump :: "database option"
  si_archive :: "backup option"

definition sync_to_archive :: "string \<Rightarrow> archive_settings \<Rightarrow> string \<Rightarrow> string list" where
  "sync_to_archive home s dest = sync_args (path_append home ''objects'') (as_options s @ [dump_file home]) dest"

definition sync_from_archive :: "string \<Rightarrow> archive_settings \<Rightarrow> string \<Rightarrow> string list" where
  "sync_from_archive home s dest = sync_options @ as_options s @ [dest @ ''/''] @ [home]"

text \<open>
  The documented effect of an action that has succeeded: the snapshot of \<open>pg_dump\<close>; \<open>rsync --archive --delete\<close>
  of the objects and the dump to the destination, which reads the files one after the other, or of the
  archive into the home directory, where the store opens it; the end of the dump; the restored database.
\<close>

definition read_later :: "libs \<Rightarrow> filesystem \<Rightarrow> site \<Rightarrow> (uuid \<Rightarrow> blob option) \<Rightarrow> bool" where
  "read_later L fs a files \<longleftrightarrow> (\<forall>x. \<exists>u. (serving L fs)\<^sup>*\<^sup>* (si_live a) u \<and> files x = stored L fs (sy_disk u) x)"

definition opens_with :: "libs \<Rightarrow> path \<Rightarrow> disk \<Rightarrow> (uuid \<Rightarrow> blob option) \<Rightarrow> bool" where
  "opens_with L hp d files \<longleftrightarrow> (\<exists>d'. filesystem_new hp d = (Inr (home_fs hp), d') \<and>
     disk_inv (home_fs hp) d' \<and> stored L (home_fs hp) d' = files)"

fun documented :: "libs \<Rightarrow> path \<Rightarrow> string \<Rightarrow> archive_settings \<Rightarrow> string \<Rightarrow> action \<Rightarrow> site \<Rightarrow> site \<Rightarrow> bool" where
  "documented L hp home s dest (Dump_database f) a b \<longleftrightarrow> (f = dump_file home \<longrightarrow>
     (\<exists>u. (serving L (home_fs hp))\<^sup>*\<^sup>* (si_live a) u \<and> (serving L (home_fs hp))\<^sup>*\<^sup>* u (si_live b) \<and>
       si_dump b = Some (sy_db u)) \<and> si_archive b = si_archive a)"
| "documented L hp home s dest (Open_filesystem h) a b \<longleftrightarrow>
     (serving L (home_fs hp))\<^sup>*\<^sup>* (si_live a) (si_live b) \<and> si_dump b = si_dump a \<and> si_archive b = si_archive a"
| "documented L hp home s dest (Run_program p args) a b \<longleftrightarrow>
     (args = sync_to_archive home s dest \<longrightarrow> (serving L (home_fs hp))\<^sup>*\<^sup>* (si_live a) (si_live b) \<and>
       si_dump b = si_dump a \<and> (\<forall>db. si_dump a = Some db \<longrightarrow>
       (\<exists>files. si_archive b = Some \<lparr>bk_dump = db, bk_files = files\<rparr> \<and> read_later L (home_fs hp) a files))) \<and>
     (args = sync_from_archive home s dest \<longrightarrow> si_archive b = si_archive a \<and> (\<forall>bk. si_archive a = Some bk \<longrightarrow>
       si_dump b = Some (bk_dump bk) \<and> opens_with L hp (sy_disk (si_live b)) (bk_files bk)))"
| "documented L hp home s dest (Remove_file f) a b \<longleftrightarrow>
     (serving L (home_fs hp))\<^sup>*\<^sup>* (si_live a) (si_live b) \<and> si_archive b = si_archive a"
| "documented L hp home s dest (Restore_database u f) a b \<longleftrightarrow> (f = dump_file home \<longrightarrow>
     (\<forall>db. si_dump a = Some db \<longrightarrow> sy_db (si_live b) = db) \<and> sy_disk (si_live b) = sy_disk (si_live a))"

definition tools_law ::
  "libs \<Rightarrow> path \<Rightarrow> string \<Rightarrow> archive_settings \<Rightarrow> string \<Rightarrow> (action \<Rightarrow> site \<Rightarrow> site \<Rightarrow> bool) \<Rightarrow> bool" where
  "tools_law L hp home s dest T \<longleftrightarrow> (\<forall>act a b. T act a b \<longrightarrow> documented L hp home s dest act a b)"

fun performs :: "('a \<Rightarrow> 's \<Rightarrow> 's \<Rightarrow> bool) \<Rightarrow> 'a list \<Rightarrow> 's \<Rightarrow> 's \<Rightarrow> bool" where
  "performs T [] a b \<longleftrightarrow> a = b"
| "performs T (x # xs) a c \<longleftrightarrow> (\<exists>b. T x a b \<and> performs T xs b c)"

section \<open>The two commands\<close>

lemma archive_succeeded:
  assumes "command_archive env home s output = (Inr (), acts)" and "value_or output (as_path s) = dest"
  shows "acts = [Dump_database (dump_file home), Open_filesystem home,
    Run_program (as_sync s) (sync_to_archive home s dest), Remove_file (dump_file home)]"
  using assms by (auto simp: command_archive_def Let_def and_then_def perform_def sync_to_archive_def
      split: prod.splits sum.splits if_splits)

lemma restore_succeeded:
  assumes "command_restore env home s user filename = (Inr (), acts)" and "value_or filename (as_path s) = dest"
  shows "acts = [Run_program (as_sync s) (sync_from_archive home s dest), Restore_database user (dump_file home)]"
  using assms by (auto simp: command_restore_def Let_def and_then_def perform_def sync_from_archive_def
      split: prod.splits sum.splits if_splits)

lemma archive_effect:
  assumes law: "tools_law L hp home s dest T"
    and acts: "performs T [Dump_database (dump_file home), Open_filesystem home,
      Run_program p (sync_to_archive home s dest), Remove_file (dump_file home)] a b"
  obtains u files where "(serving L (home_fs hp))\<^sup>*\<^sup>* (si_live a) u" "(serving L (home_fs hp))\<^sup>*\<^sup>* u (si_live b)"
    "si_archive b = Some \<lparr>bk_dump = sy_db u, bk_files = files\<rparr>"
    "\<And>x. \<exists>v. (serving L (home_fs hp))\<^sup>*\<^sup>* u v \<and> files x = stored L (home_fs hp) (sy_disk v) x"
proof -
  let ?S = "(serving L (home_fs hp))\<^sup>*\<^sup>*"
  note doc = law [unfolded tools_law_def, rule_format]
  obtain a1 a2 a3 where T: "T (Dump_database (dump_file home)) a a1" "T (Open_filesystem home) a1 a2"
    "T (Run_program p (sync_to_archive home s dest)) a2 a3" "T (Remove_file (dump_file home)) a3 b"
    using acts by auto
  obtain u where u: "?S (si_live a) u" "?S u (si_live a1)" "si_dump a1 = Some (sy_db u)"
    using doc [OF T(1)] by auto
  have a2: "?S (si_live a1) (si_live a2)" "si_dump a2 = Some (sy_db u)" using doc [OF T(2)] u(3) by auto
  obtain files where a3: "?S (si_live a2) (si_live a3)" "si_archive a3 = Some \<lparr>bk_dump = sy_db u, bk_files = files\<rparr>"
    "read_later L (home_fs hp) a2 files"
    using doc [OF T(3)] a2(2) by auto
  have b: "?S (si_live a3) (si_live b)" "si_archive b = si_archive a3" using doc [OF T(4)] by auto
  have late: "\<exists>v. ?S u v \<and> files x = stored L (home_fs hp) (sy_disk v) x" for x
    using a3(3) u(2) a2(1) unfolding read_later_def by (meson rtranclp_trans)
  have "?S u (si_live b)" using u(2) a2(1) a3(1) b(1) by (meson rtranclp_trans)
  then show ?thesis using that [of u files] u(1) a3(2) b(2) late by simp
qed

lemma restore_effect:
  assumes law: "tools_law L hp home s dest T" and bk: "si_archive a = Some bk"
    and acts: "performs T [Run_program p (sync_from_archive home s dest), Restore_database user (dump_file home)] a b"
  shows "sy_db (si_live b) = bk_dump bk" and "opens_with L hp (sy_disk (si_live b)) (bk_files bk)"
proof -
  note doc = law [unfolded tools_law_def, rule_format]
  obtain a1 where T: "T (Run_program p (sync_from_archive home s dest)) a a1"
    "T (Restore_database user (dump_file home)) a1 b"
    using acts by auto
  have "si_dump a1 = Some (bk_dump bk)" "opens_with L hp (sy_disk (si_live a1)) (bk_files bk)"
    using doc [OF T(1)] bk by auto
  then show "sy_db (si_live b) = bk_dump bk" and "opens_with L hp (sy_disk (si_live b)) (bk_files bk)"
    using doc [OF T(2)] by auto
qed

end
