(* ===== verification/Backup_Properties.thy ===== *)
theory Backup_Properties
  imports Backup Recovery_Properties
begin

text \<open>
  The properties of \<open>archive\<close> and \<open>restore\<close> beside a working server.
\<close>

lemma opened_read:
  assumes laws: "laws L" and db: "db_inv (w_db w)" and disk: "opens_with L hp (w_disk w) files"
    and e: "entry (w_db w) q x = Some e" and c: "files x = Some c"
  shows "fst (with_store hp (\<lambda>fs. get_object L fs q x) w) = Inr (to_object e, c)"
proof -
  obtain d where d: "filesystem_new hp (w_disk w) = (Inr (home_fs hp), d)" "disk_inv (home_fs hp) d"
    "stored L (home_fs hp) d = files"
    using disk by (auto simp: opens_with_def)
  then show ?thesis
    using get_object_on [OF laws, of "w\<lparr>w_disk := d\<rparr>" "home_fs hp" q x] db e c
    by (simp add: with_store_def on_disk_def)
qed

lemma settled_in_place:
  assumes inv: "system_inv L fs u" and e: "entry (sy_db u) q x = Some e" and st: "staged L fs (sy_disk u) x = None"
  shows "in_place L fs (object_of (sy_db u) x) u" and "ob_id (object_of (sy_db u) x) = x"
    and "ob_hash (object_of (sy_db u) x) = db_o_hash e"
proof -
  note D = system_invD [OF inv]
  note r = object_of_ref [OF D(3) entry_SomeD(3) [OF D(3) e]]
  show "ob_id (object_of (sy_db u) x) = x" and "ob_hash (object_of (sy_db u) x) = db_o_hash e"
    using r entry_SomeD(4) [OF D(3) e] by simp_all
  then show "in_place L fs (object_of (sy_db u) x) u"
    using D(5) r st by (auto simp: in_place_def recoverable_def content_at_def)
qed

text \<open>C18: An archive that was taken while the server worked, and no \<open>prune\<close> ran, restores to a readable store: the
  database is that of one moment \<open>u\<close> of the archiving, and every object it lists whose part had become its file at
  that moment is read from the restored store, in every bucket, with its metadata and content of its digest.\<close>

theorem archive_restores:
  assumes law: "tools_law L hp home s dest T" and start: "reachable L hp (si_live a)"
    and archived: "command_archive env home s (Some dest) = (Inr (), acts)" "performs T acts a b"
    and moved: "si_archive c = si_archive b"
    and restored: "command_restore env' home s user (Some dest) = (Inr (), acts')" "performs T acts' c d"
  shows "\<exists>u. (serving L (home_fs hp))\<^sup>*\<^sup>* (si_live a) u \<and> (serving L (home_fs hp))\<^sup>*\<^sup>* u (si_live b) \<and>
    sy_db (si_live d) = sy_db u \<and>
    (\<forall>q x e. entry (sy_db u) q x = Some e \<and> staged L (home_fs hp) (sy_disk u) x = None \<longrightarrow>
      (\<exists>content. fst (with_store hp (\<lambda>fs. get_object L fs q x) (sy_world (si_live d))) = Inr (to_object e, content) \<and>
        sha256sum L content = db_o_hash e))"
proof -
  let ?fs = "home_fs hp"
  have "performs T [Dump_database (dump_file home), Open_filesystem home,
      Run_program (as_sync s) (sync_to_archive home s dest), Remove_file (dump_file home)] a b"
    using archived archive_succeeded by (simp add: value_or_def)
  from archive_effect [OF law this] obtain u files where u: "(serving L ?fs)\<^sup>*\<^sup>* (si_live a) u"
    "(serving L ?fs)\<^sup>*\<^sup>* u (si_live b)" and bk: "si_archive b = Some \<lparr>bk_dump = sy_db u, bk_files = files\<rparr>"
    and files: "\<And>x. \<exists>v. (serving L ?fs)\<^sup>*\<^sup>* u v \<and> files x = stored L ?fs (sy_disk v) x"
    by blast
  have "performs T [Run_program (as_sync s) (sync_from_archive home s dest), Restore_database user (dump_file home)] c d"
    using restored restore_succeeded by (simp add: value_or_def)
  note after = restore_effect [OF law moved [unfolded bk] this]
  have inv: "system_inv L ?fs u" using serving.inv_reachable [OF u(1) reachable_inv [OF start]] .
  note D = system_invD [OF inv]
  have "\<exists>content. fst (with_store hp (\<lambda>fs. get_object L fs q x) (sy_world (si_live d))) = Inr (to_object e, content) \<and>
      sha256sum L content = db_o_hash e"
    if e: "entry (sy_db u) q x = Some e" and st: "staged L ?fs (sy_disk u) x = None" for q x e
  proof -
    note r = settled_in_place [OF inv e st]
    obtain v where v: "(serving L ?fs)\<^sup>*\<^sup>* u v" "files x = stored L ?fs (sy_disk v) x" using files by blast
    have "in_place L ?fs (object_of (sy_db u) x) v"
      using keeping.inv_reachable [OF v(1)] inv r(1) by blast
    then obtain content where "files x = Some content" "sha256sum L content = db_o_hash e"
      using v(2) r(2,3) by (auto simp: in_place_def)
    then show ?thesis
      using opened_read [OF D(1), of "sy_world (si_live d)" hp files q x e content] after e D(3) by auto
  qed
  with u after(1) show ?thesis by auto
qed

text \<open>An object whose content was still in its part when the copying program came to it is listed by the restored
  store and cannot be read: parts are not in the archive, so the commit cannot be completed there either.\<close>

theorem archive_misses_parts:
  assumes law: "tools_law L hp home s dest T" and "laws L"
    and bk: "si_archive c = Some bk" "bk_files bk x = None"
    and e: "entry (bk_dump bk) q x = Some e" and db: "db_inv (bk_dump bk)"
    and restored: "command_restore env home s user (Some dest) = (Inr (), acts)" "performs T acts c d"
  shows "fst (with_store hp (\<lambda>fs. get_object L fs q x) (sy_world (si_live d))) = Inl (File_error No_such_file)"
proof -
  have "performs T [Run_program (as_sync s) (sync_from_archive home s dest), Restore_database user (dump_file home)] c d"
    using restored restore_succeeded by (simp add: value_or_def)
  note after = restore_effect [OF law bk(1) this]
  obtain d' where d': "filesystem_new hp (sy_disk (si_live d)) = (Inr (home_fs hp), d')" "disk_inv (home_fs hp) d'"
    "stored L (home_fs hp) d' = bk_files bk"
    using after(2) by (auto simp: opens_with_def)
  then show ?thesis
    using get_object_on [OF \<open>laws L\<close>, of "sy_world (si_live d)\<lparr>w_disk := d'\<rparr>" "home_fs hp" q x] after(1) e db bk(2)
    by (simp add: with_store_def on_disk_def)
qed

text \<open>The sample store, archived to \<open>/backup\<close> and restored in its place.\<close>

definition all_well :: environment where
  "all_well a = Inr \<lparr>ex_code = CLD_EXITED, ex_status = 0\<rparr>"

definition plain_sync :: archive_settings where
  "plain_sync = \<lparr>as_options = [], as_path = [], as_sync = ''rsync''\<rparr>"

abbreviation documented3 :: "action \<Rightarrow> site \<Rightarrow> site \<Rightarrow> bool" where
  "documented3 \<equiv> documented sample [''data''] ''/data'' plain_sync ''/backup''"

definition site3 :: "database option \<Rightarrow> backup option \<Rightarrow> site" where
  "site3 dump archive = \<lparr>si_live = settled5, si_dump = dump, si_archive = archive\<rparr>"

definition backup3 :: backup where
  "backup3 = \<lparr>bk_dump = db3, bk_files = stored sample fs0 (w_disk w3)\<rparr>"

lemma all_go_well:
  "command_archive all_well ''/data'' plain_sync (Some ''/backup'') = (Inr (),
    [Dump_database ''/data/fstore.dump'', Open_filesystem ''/data'',
     Run_program ''rsync'' (sync_to_archive ''/data'' plain_sync ''/backup''), Remove_file ''/data/fstore.dump''])"
  "command_restore all_well ''/data'' plain_sync None (Some ''/backup'') = (Inr (),
    [Run_program ''rsync'' (sync_from_archive ''/data'' plain_sync ''/backup''), Restore_database None ''/data/fstore.dump''])"
  by (simp_all add: command_archive_def command_restore_def value_or_def and_then_def perform_def all_well_def
      Let_def check_exit_def dump_file_def path_append_def plain_sync_def sync_from_archive_def sync_to_archive_def)

lemma site3_archived:
  "performs documented3 (snd (command_archive all_well ''/data'' plain_sync (Some ''/backup'')))
     (site3 None None) (site3 None (Some backup3))"
proof -
  have "documented3 (Dump_database ''/data/fstore.dump'') (site3 None None) (site3 (Some db3) None)"
    by (auto simp: site3_def settled5_def commit3(2))
  moreover have "documented3 (Open_filesystem ''/data'') (site3 (Some db3) None) (site3 (Some db3) None)" by simp
  moreover have "documented3 (Run_program ''rsync'' (sync_to_archive ''/data'' plain_sync ''/backup''))
      (site3 (Some db3) None) (site3 (Some db3) (Some backup3))"
    by (auto simp: site3_def backup3_def settled5_def read_later_def fs0_def sync_to_archive_def
        sync_from_archive_def sync_args_def sync_options_def plain_sync_def)
  moreover have "documented3 (Remove_file ''/data/fstore.dump'') (site3 (Some db3) (Some backup3)) (site3 None (Some backup3))"
    by (simp add: site3_def)
  ultimately show ?thesis unfolding all_go_well snd_conv performs.simps by blast
qed

lemma site3_restored:
  "performs documented3 (snd (command_restore all_well ''/data'' plain_sync None (Some ''/backup'')))
     (site3 None (Some backup3)) (site3 (Some db3) (Some backup3))"
proof -
  have disk: "opens_with sample [''data''] (w_disk w3) (stored sample fs0 (w_disk w3))"
    using filesystem_new_again [of "[''data'']" "w_disk w3"] store_invD(5) [OF sample_inv(4)]
    by (simp add: opens_with_def fs0_def)
  then have "documented3 (Run_program ''rsync'' (sync_from_archive ''/data'' plain_sync ''/backup''))
      (site3 None (Some backup3)) (site3 (Some db3) (Some backup3))"
    by (auto simp: site3_def backup3_def settled5_def sync_to_archive_def
        sync_from_archive_def sync_args_def sync_options_def plain_sync_def)
  moreover have "documented3 (Restore_database None ''/data/fstore.dump'')
      (site3 (Some db3) (Some backup3)) (site3 (Some db3) (Some backup3))"
    by (simp add: site3_def settled5_def commit3(2))
  ultimately show ?thesis unfolding all_go_well snd_conv performs.simps by blast
qed

theorem archive_restores_witness:
  "\<exists>u. (serving sample fs0)\<^sup>*\<^sup>* settled5 u \<and> sy_db u = db3 \<and>
    (\<forall>q x e. entry db3 q x = Some e \<and> staged sample fs0 (sy_disk u) x = None \<longrightarrow>
      (\<exists>content. fst (with_store [''data''] (\<lambda>fs. get_object sample fs q x) w3) = Inr (to_object e, content) \<and>
        sha256sum sample content = db_o_hash e))"
proof -
  have law: "tools_law sample [''data''] ''/data'' plain_sync ''/backup'' documented3"
    by (simp add: tools_law_def)
  have "reachable sample [''data''] (si_live (site3 None None))"
    using sample_reachable(3) by (simp add: site3_def)
  from archive_restores [OF law this all_go_well(1) site3_archived [unfolded all_go_well snd_conv] refl all_go_well(2)
      site3_restored [unfolded all_go_well snd_conv]]
  obtain u where "(serving sample fs0)\<^sup>*\<^sup>* settled5 u" "sy_db u = db3"
    "\<forall>q x e. entry (sy_db u) q x = Some e \<and> staged sample fs0 (sy_disk u) x = None \<longrightarrow>
      (\<exists>content. fst (with_store [''data''] (\<lambda>fs. get_object sample fs q x) w3) = Inr (to_object e, content) \<and>
        sha256sum sample content = db_o_hash e)"
    unfolding site3_def settled5_def fs0_def system.simps site.simps commit3(2) by metis
  then show ?thesis by (intro exI [of _ u]) simp
qed

end
