(* ===== verification/Backup_Roundtrip.thy ===== *)
theory Backup_Roundtrip
  imports Backup_Properties Refinement_Properties
begin

text \<open>
  The property that \<open>restore\<close> undoes \<open>archive\<close> on a machine whose server is stopped: the restored store answers every
  sequence of requests as the archived one.
\<close>

section \<open>Machines and the programs that are run\<close>

text \<open>
  An archive holds a dump and a tree of files with their modes; a machine the database with the disk, the dump
  in the home directory (whose file is kept apart), and an archive at the destination.
\<close>

record tree =
  tr_dump :: "database option"
  tr_files :: "path \<rightharpoonup> disk_file"
  tr_dirs :: "path set"

record machine =
  mc_world :: world
  mc_dump :: "database option"
  mc_archive :: "tree option"

text \<open>
  A copy of \<open>objects\<close> and the dump at the destination, and of the archive in the home directory, in place of what was
  there, files with their modes.
\<close>

definition sent_tree :: "path \<Rightarrow> machine \<Rightarrow> tree" where
  "sent_tree hp m = (let d = w_disk (mc_world m) in
     \<lparr>tr_dump = mc_dump m, tr_files = (\<lambda>q. if prefix [''objects''] q then d_files d (hp @ q) else None),
      tr_dirs = {[]} \<union> {q. prefix [''objects''] q \<and> hp @ q \<in> d_dirs d}\<rparr>)"

definition received_tree :: "path \<Rightarrow> tree \<Rightarrow> disk \<Rightarrow> disk" where
  "received_tree hp t d = d\<lparr>d_files := (\<lambda>p. if prefix hp p then tr_files t (drop (length hp) p) else d_files d p),
     d_dirs := {p \<in> d_dirs d. \<not> prefix hp p} \<union> (@) hp ` tr_dirs t\<rparr>"

text \<open>
  The programs that are run are a parameter: what each action may do to a machine.  This is what is relied on, as
  the manuals of the programs have it, on a machine where nothing else runs: \<open>pg_dump\<close> and \<open>pg_restore\<close> write and read
  the whole database, and \<open>rsync\<close> copies when the configuration adds no options to \<open>--archive\<close> and \<open>--delete\<close>; nothing is said of other
  files, arguments, programs or options.  Opening the filesystem is the constructor of \<open>fs::filesystem\<close>.
\<close>

fun copies :: "path \<Rightarrow> string \<Rightarrow> archive_settings \<Rightarrow> string \<Rightarrow> action \<Rightarrow> machine \<Rightarrow> machine \<Rightarrow> bool" where
  "copies hp home s dest (Dump_database f) a b \<longleftrightarrow>
     (f = dump_file home \<longrightarrow> mc_world b = mc_world a \<and> mc_dump b = Some (w_db (mc_world a)))"
| "copies hp home s dest (Open_filesystem h) a b \<longleftrightarrow> (h = home \<longrightarrow>
     b = a\<lparr>mc_world := (mc_world a)\<lparr>w_disk := snd (filesystem_new hp (w_disk (mc_world a)))\<rparr>\<rparr>)"
| "copies hp home s dest (Run_program p args) a b \<longleftrightarrow> (p = ''rsync'' \<and> as_options s = [] \<longrightarrow>
     (args = sync_to_archive home s dest \<longrightarrow> mc_world b = mc_world a \<and> mc_archive b = Some (sent_tree hp a)) \<and>
     (args = sync_from_archive home s dest \<longrightarrow> (\<forall>t. mc_archive a = Some t \<longrightarrow> mc_dump b = tr_dump t \<and>
       w_disk (mc_world b) = received_tree hp t (w_disk (mc_world a)))))"
| "copies hp home s dest (Remove_file f) a b \<longleftrightarrow>
     (f = dump_file home \<longrightarrow> mc_world b = mc_world a \<and> mc_archive b = mc_archive a)"
| "copies hp home s dest (Restore_database u f) a b \<longleftrightarrow> (f = dump_file home \<longrightarrow>
     (\<forall>db. mc_dump a = Some db \<longrightarrow> mc_world b = (mc_world a)\<lparr>w_db := db\<rparr>))"

definition copies_law ::
  "path \<Rightarrow> string \<Rightarrow> archive_settings \<Rightarrow> string \<Rightarrow> (action \<Rightarrow> machine \<Rightarrow> machine \<Rightarrow> bool) \<Rightarrow> bool" where
  "copies_law hp home s dest T \<longleftrightarrow> (\<forall>act a b. T act a b \<longrightarrow> copies hp home s dest act a b)"

text \<open>The machine a store is restored on: its home directory exists.\<close>

definition home_exists :: "path \<Rightarrow> disk \<Rightarrow> bool" where
  "home_exists hp d \<longleftrightarrow> hp \<in> d_dirs d \<and> (\<forall>p \<in> d_dirs d. \<forall>q. prefix q p \<longrightarrow> q \<in> d_dirs d) \<and>
     (\<forall>p. is_file d p \<longrightarrow> p \<notin> d_dirs d)"

section \<open>The restored disk\<close>

lemma archived_machine:
  assumes law: "copies_law hp home s dest T" and plain: "as_sync s = ''rsync''" "as_options s = []"
    and ok: "command_archive env home s (Some dest) = (Inr (), acts)" "performs T acts a b"
    and inv: "disk_inv (home_fs hp) (w_disk (mc_world a))"
  shows "mc_world b = mc_world a"
    "mc_archive b = Some (sent_tree hp (a\<lparr>mc_dump := Some (w_db (mc_world a))\<rparr>))"
proof -
  note doc = law [unfolded copies_law_def, rule_format]
  have "acts = [Dump_database (dump_file home), Open_filesystem home,
      Run_program ''rsync'' (sync_to_archive home s dest), Remove_file (dump_file home)]"
    using archive_succeeded [OF ok(1)] plain by (simp add: value_or_def)
  then obtain a1 a2 a3 where T: "T (Dump_database (dump_file home)) a a1" "T (Open_filesystem home) a1 a2"
    "T (Run_program ''rsync'' (sync_to_archive home s dest)) a2 a3" "T (Remove_file (dump_file home)) a3 b"
    using ok(2) by auto
  have a1: "mc_world a1 = mc_world a" "mc_dump a1 = Some (w_db (mc_world a))" using doc [OF T(1)] by simp_all
  then have a2: "a2 = a1" using doc [OF T(2)] filesystem_new_again [OF inv] by simp
  have a3: "mc_world a3 = mc_world a1" "mc_archive a3 = Some (sent_tree hp a1)"
    using doc [OF T(3)] plain by (simp_all add: a2)
  show "mc_world b = mc_world a"
    "mc_archive b = Some (sent_tree hp (a\<lparr>mc_dump := Some (w_db (mc_world a))\<rparr>))"
    using doc [OF T(4)] a1 a3 by (simp_all add: sent_tree_def)
qed

lemma restored_machine:
  assumes law: "copies_law hp home s dest T" and plain: "as_sync s = ''rsync''" "as_options s = []"
    and ok: "command_restore env home s user (Some dest) = (Inr (), acts)" "performs T acts c d"
    and t: "mc_archive c = Some t" "tr_dump t = Some db"
  shows "mc_world d = \<lparr>w_db = db, w_disk = received_tree hp t (w_disk (mc_world c))\<rparr>"
proof -
  note doc = law [unfolded copies_law_def, rule_format]
  have "acts = [Run_program ''rsync'' (sync_from_archive home s dest), Restore_database user (dump_file home)]"
    using restore_succeeded [OF ok(1)] plain by (simp add: value_or_def)
  then obtain c1 where T: "T (Run_program ''rsync'' (sync_from_archive home s dest)) c c1"
    "T (Restore_database user (dump_file home)) c1 d"
    using ok(2) by auto
  show ?thesis using doc [OF T(1)] doc [OF T(2)] t plain by simp
qed

lemma received_simps:
  fixes m hp old
  defines "r \<equiv> received_tree hp (sent_tree hp m) old" and "d \<equiv> w_disk (mc_world m)"
  shows "d_files r (hp @ q) = (if prefix [''objects''] q then d_files d (hp @ q) else None)"
    "\<not> prefix hp p \<Longrightarrow> d_files r p = d_files old p"
    "hp @ q \<in> d_dirs r \<longleftrightarrow> q = [] \<or> prefix [''objects''] q \<and> hp @ q \<in> d_dirs d"
    "\<not> prefix hp p \<Longrightarrow> p \<in> d_dirs r \<longleftrightarrow> p \<in> d_dirs old"
  by (auto simp: r_def d_def received_tree_def sent_tree_def Let_def)

text \<open>Opening the store on the restored disk only makes the missing directory of the parts.\<close>

lemma received_dirs:
  fixes m hp old
  defines "r \<equiv> received_tree hp (sent_tree hp m) old" and "d \<equiv> w_disk (mc_world m)"
  assumes inv: "disk_inv (home_fs hp) d" and home: "home_exists hp old"
  shows "p \<in> d_dirs r \<Longrightarrow> prefix q p \<Longrightarrow> q \<in> d_dirs r" and "hp @ [''objects''] \<in> d_dirs r"
    and "p \<in> d_dirs r \<Longrightarrow> \<not> is_file r p"
proof -
  note S = received_simps [where hp = hp and m = m and old = old, folded r_def d_def]
  have D: "\<And>p q. p \<in> d_dirs d \<Longrightarrow> prefix q p \<Longrightarrow> q \<in> d_dirs d" "hp @ [''objects''] \<in> d_dirs d"
    "\<And>p. is_file d p \<Longrightarrow> p \<notin> d_dirs d"
    using inv by (auto simp: disk_inv_def dirs_inv_def files_inv_def)
  have H: "hp \<in> d_dirs old" "\<And>p q. p \<in> d_dirs old \<Longrightarrow> prefix q p \<Longrightarrow> q \<in> d_dirs old"
    "\<And>p. is_file old p \<Longrightarrow> p \<notin> d_dirs old"
    using home by (auto simp: home_exists_def)
  show "hp @ [''objects''] \<in> d_dirs r" using D(2) by (simp add: S)
  show "q \<in> d_dirs r" if p: "p \<in> d_dirs r" and q: "prefix q p"
  proof (cases "prefix hp q")
    case True
    then obtain u where u: "q = hp @ u" by (auto simp: prefix_def)
    with q obtain v where v: "p = hp @ u @ v" by (auto simp: prefix_def)
    show ?thesis
    proof (cases "u = []")
      case False
      with p v have "prefix [''objects''] (u @ v)" "hp @ u @ v \<in> d_dirs d" by (auto simp: S)
      with False have "prefix [''objects''] u" "hp @ u \<in> d_dirs d"
        using D(1) [of "hp @ u @ v" "hp @ u"] by (cases u; simp)+
      then show ?thesis by (simp add: u S)
    qed (use S(3) [of "[]"] u in simp)
  next
    case False
    have "q \<in> d_dirs old"
    proof (cases "prefix hp p")
      case True
      then have "prefix q hp" using q False prefix_same_cases by blast
      then show ?thesis using H(1,2) by blast
    next
      case outside: False
      then show ?thesis using H(2) p q S(4) by blast
    qed
    then show ?thesis using S(4) [OF False] by simp
  qed
  show "\<not> is_file r p" if p: "p \<in> d_dirs r"
  proof (cases "prefix hp p")
    case True
    then obtain u where u: "p = hp @ u" by (auto simp: prefix_def)
    then show ?thesis using p D(3) [of "hp @ u"] S(1) [of u] u by (cases "d_files d (hp @ u)") (auto simp: is_file_def S(3))
  next
    case False
    have "p \<in> d_dirs old" using p S(4) [OF False] by simp
    then have "\<not> is_file old p" using H(3) by blast
    then show ?thesis using S(2) [OF False] by (simp add: is_file_def)
  qed
qed

lemma opened_disk:
  fixes m hp old
  defines "r \<equiv> received_tree hp (sent_tree hp m) old" and "d \<equiv> w_disk (mc_world m)"
  assumes inv: "disk_inv (home_fs hp) d" and home: "home_exists hp old"
  shows "filesystem_new hp r = (Inr (home_fs hp), r\<lparr>d_dirs := d_dirs r \<union> {hp @ [''parts'']}\<rparr>)"
    and "disk_inv (home_fs hp) (r\<lparr>d_dirs := d_dirs r \<union> {hp @ [''parts'']}\<rparr>)"
proof -
  note S = received_simps [where hp = hp and m = m and old = old, folded r_def d_def]
  note R = received_dirs [where hp = hp and m = m and old = old, folded d_def r_def, OF inv home]
  have D1: "p \<notin> d_dirs d" "prefix (hp @ [''objects'']) p \<longrightarrow> length p = length (hp @ [''objects'']) + 3"
    if "is_file d p" for p
    using inv that by (simp_all add: disk_inv_def files_inv_def)
  have D2: "length p \<le> length (hp @ [''objects'']) + 2" if "p \<in> d_dirs d" "prefix (hp @ [''objects'']) p" for p
    using inv that by (simp add: disk_inv_def dirs_inv_def)
  have objects: "set (prefixes (hp @ [''objects''])) \<subseteq> d_dirs r" using R(1) [OF R(2)] by auto
  have hp: "set (prefixes hp) \<subseteq> d_dirs r" using R(1) [OF R(2)] by auto
  have part: "\<not> is_file r (hp @ [''parts''])" using S(1) [of "[''parts'']"] by (simp add: is_file_def)
  have made: "std_create_directories (hp @ [''objects'']) r = (Inr False, r)"
  proof -
    have "d_dirs r \<union> set (prefixes (hp @ [''objects''])) = d_dirs r" using objects by blast
    moreover have "r\<lparr>d_dirs := d_dirs r\<rparr> = r" by (cases r) simp
    moreover have "\<not> (\<exists>q \<in> set (prefixes (hp @ [''objects''])). is_file r q)" using objects R(3) by blast
    ultimately show ?thesis using R(2) unfolding std_create_directories_def by (simp only: if_False) simp
  qed
  have "std_create_directories (hp @ [''parts'']) r =
      (Inr (hp @ [''parts''] \<notin> d_dirs r), r\<lparr>d_dirs := d_dirs r \<union> {hp @ [''parts'']}\<rparr>)"
    using hp R(3) part by (auto simp: std_create_directories_def Un_absorb2)
  with made show "filesystem_new hp r = (Inr (home_fs hp), r\<lparr>d_dirs := d_dirs r \<union> {hp @ [''parts'']}\<rparr>)"
    by (simp add: filesystem_new_def create_directories_def path_div_def home_fs_def Let_def)
  show "disk_inv (home_fs hp) (r\<lparr>d_dirs := d_dirs r \<union> {hp @ [''parts'']}\<rparr>)"
  proof -
    let ?r = "r\<lparr>d_dirs := d_dirs r \<union> {hp @ [''parts'']}\<rparr>"
    have in_objects: "\<exists>u. p = hp @ u \<and> prefix [''objects''] u" if "prefix (hp @ [''objects'']) p" for p
      using that by (auto simp: prefix_def)
    have closed: "q \<in> d_dirs ?r" if "p \<in> d_dirs ?r" "prefix q p" for p q
      using that R(1) hp by (auto simp: prefix_snoc)
    have short: "length p \<le> length (hp @ [''objects'']) + 2"
      if mem: "p \<in> d_dirs ?r" and pre: "prefix (hp @ [''objects'']) p" for p
    proof -
      obtain u where u: "p = hp @ u" "prefix [''objects''] u" using in_objects [OF pre] by blast
      with mem have "hp @ u \<in> d_dirs d" by (auto simp: S)
      then show ?thesis using D2 pre u(1) by blast
    qed
    have only: "p = hp @ [''parts'']" if mem: "p \<in> d_dirs ?r" and pre: "prefix (hp @ [''parts'']) p" for p
    proof -
      obtain u where u: "p = hp @ ''parts'' # u" using pre by (auto simp: prefix_def)
      then show ?thesis using mem by (auto simp: S)
    qed
    have files: "p \<notin> d_dirs ?r \<and> (prefix (hp @ [''objects'']) p \<longrightarrow> length p = length (hp @ [''objects'']) + 3)"
      if "is_file ?r p" for p
    proof -
      have f: "is_file r p" using that by (simp add: is_file_def)
      have "length p = length (hp @ [''objects'']) + 3" if pre: "prefix (hp @ [''objects'']) p"
      proof -
        obtain u where u: "p = hp @ u" "prefix [''objects''] u" using in_objects [OF pre] by blast
        with f have "is_file d p" by (simp add: is_file_def S)
        then show ?thesis using D1(2) pre by blast
      qed
      moreover have "p \<noteq> hp @ [''parts'']" "p \<notin> d_dirs r" using f part R(3) by auto
      ultimately show ?thesis by auto
    qed
    have "dirs_inv (home_fs hp) ?r"
      unfolding dirs_inv_def home_fs_simps
    proof (intro conjI ballI allI impI)
      show "hp @ [''objects''] \<in> d_dirs ?r" "hp @ [''parts''] \<in> d_dirs ?r" using R(2) by simp_all
    qed (rule closed short only; assumption)+
    moreover have "files_inv (home_fs hp) ?r"
      unfolding files_inv_def home_fs_simps by (intro allI impI files)
    ultimately show ?thesis by (simp add: disk_inv_def)
  qed
qed

section \<open>The restored store\<close>

text \<open>The store as \<open>with_store\<close> opens it on the restored machine.\<close>

lemma restored_store:
  fixes old :: disk
  assumes inv: "store_inv L (home_fs hp) w" and m: "mc_world m = w" and home: "home_exists hp old"
  defines "r \<equiv> received_tree hp (sent_tree hp m) old"
  shows "\<exists>d. filesystem_new hp r = (Inr (home_fs hp), d) \<and>
    store_inv L (home_fs hp) \<lparr>w_db = w_db w, w_disk = d\<rparr> \<and>
    shelf_of L (home_fs hp) \<lparr>w_db = w_db w, w_disk = d\<rparr> = (shelf_of L (home_fs hp) w)\<lparr>sf_parts := Map.empty\<rparr>"
proof -
  note D = store_invD [OF inv]
  let ?d = "r\<lparr>d_dirs := insert (hp @ [''parts'']) (d_dirs r)\<rparr>"
  note S = received_simps [where hp = hp and m = m and old = old, folded r_def]
  have disk: "filesystem_new hp r = (Inr (home_fs hp), ?d)" "disk_inv (home_fs hp) ?d"
    using opened_disk [of hp m old] D(5) home m unfolding r_def by simp_all
  have files: "d_files ?d (object_at L (home_fs hp) u) = d_files (w_disk w) (object_at L (home_fs hp) u)" for u
    using S(1) [of "''objects'' # q" for q] m by (simp add: object_at_def Let_def)
  have part: "d_files ?d (part_at L (home_fs hp) u) = None" for u
    using S(1) [of "[''parts'', uuid_text L u]"] by (simp add: part_at_def)
  have kept: "stored L (home_fs hp) ?d = stored L (home_fs hp) (w_disk w)"
    "stored_mode L (home_fs hp) ?d = stored_mode L (home_fs hp) (w_disk w)"
    "staged L (home_fs hp) ?d = Map.empty"
    by (simp_all only: fun_eq_iff stored_def stored_mode_def staged_def files part option.map simp_thms)
  then have "store_inv L (home_fs hp) \<lparr>w_db = w_db w, w_disk = ?d\<rparr>"
    using D disk(2) by (simp add: store_inv_def)
  moreover have "shelf_of L (home_fs hp) \<lparr>w_db = w_db w, w_disk = ?d\<rparr> =
      (shelf_of L (home_fs hp) w)\<lparr>sf_parts := Map.empty\<rparr>"
    by (simp add: shelf_of_def kept)
  ultimately show ?thesis using disk(1) by blast
qed

text \<open>C19: Restoring undoes archiving: when the server is stopped, the store that is opened on the restored machine, whatever
  was on its disk before, satisfies the invariant and has the catalogue and the contents of the archived one, and
  every sequence of requests gets the same answers from both, if no upload was waiting for its commit; the archived
  store itself is not changed.  This is for \<open>rsync\<close> without configured options, and for any programs that do what
  \<open>copies\<close> says.\<close>

theorem backup_roundtrip:
  assumes law: "copies_law hp home s dest T" and plain: "as_sync s = ''rsync''" "as_options s = []"
    and inv: "store_inv L (home_fs hp) (mc_world a)" and trim: "trim_law L"
    and archived: "command_archive env home s (Some dest) = (Inr (), acts)" "performs T acts a b"
    and moved: "mc_archive c = mc_archive b" "home_exists hp (w_disk (mc_world c))"
    and restored: "command_restore env' home s user (Some dest) = (Inr (), acts')" "performs T acts' c d"
  shows "mc_world b = mc_world a \<and>
    (\<exists>w. with_store hp (\<lambda>fs w. (Inr fs, w)) (mc_world d) = (Inr (home_fs hp), w) \<and> store_inv L (home_fs hp) w \<and>
      shelf_of L (home_fs hp) w = (shelf_of L (home_fs hp) (mc_world a))\<lparr>sf_parts := Map.empty\<rparr> \<and>
      (sf_parts (shelf_of L (home_fs hp) (mc_world a)) = Map.empty \<longrightarrow>
        (\<forall>qs. fst (run_requests (serve L (home_fs hp)) qs w) = fst (run_requests (serve L (home_fs hp)) qs (mc_world a)))))"
proof -
  let ?fs = "home_fs hp" and ?m = "a\<lparr>mc_dump := Some (w_db (mc_world a))\<rparr>"
  note A = archived_machine [OF law plain archived store_invD(5) [OF inv]]
  have d: "mc_world d = \<lparr>w_db = w_db (mc_world a), w_disk = received_tree hp (sent_tree hp ?m) (w_disk (mc_world c))\<rparr>"
    by (rule restored_machine [OF law plain restored]) (simp_all add: moved(1) A(2) sent_tree_def Let_def)
  obtain e where e: "filesystem_new hp (received_tree hp (sent_tree hp ?m) (w_disk (mc_world c))) = (Inr ?fs, e)"
    "store_inv L ?fs \<lparr>w_db = w_db (mc_world a), w_disk = e\<rparr>"
    "shelf_of L ?fs \<lparr>w_db = w_db (mc_world a), w_disk = e\<rparr> = (shelf_of L ?fs (mc_world a))\<lparr>sf_parts := Map.empty\<rparr>"
    using restored_store [OF inv, of ?m "w_disk (mc_world c)"] moved(2) by auto
  let ?w = "\<lparr>w_db = w_db (mc_world a), w_disk = e\<rparr>"
  have "with_store hp (\<lambda>fs w. (Inr fs, w)) (mc_world d) = (Inr ?fs, ?w)"
    by (simp add: with_store_def on_disk_def d e(1))
  moreover have "fst (run_requests (serve L ?fs) qs ?w) = fst (run_requests (serve L ?fs) qs (mc_world a))"
    if "sf_parts (shelf_of L ?fs (mc_world a)) = Map.empty" for qs
    using store_service.indistinguishable [of L ?fs ?w "mc_world a" qs] inv trim e(2,3) that by simp
  ultimately show ?thesis using A(1) e(2,3) by blast
qed

text \<open>The sample store is archived to \<open>/backup\<close> and restored on a machine with an empty home directory and an empty
  database, with programs that do what they have to and nothing else; object 5 is downloaded there.\<close>

definition sample_machine :: machine where
  "sample_machine = \<lparr>mc_world = w3, mc_dump = None, mc_archive = None\<rparr>"

definition other_machine :: "tree option \<Rightarrow> machine" where
  "other_machine t = \<lparr>mc_world = \<lparr>w_db = empty_database, w_disk = blank_disk [''data''] 0x12\<rparr>, mc_dump = None, mc_archive = t\<rparr>"

fun plain_tool :: "action \<Rightarrow> machine \<Rightarrow> machine" where
  "plain_tool (Dump_database f) m = m\<lparr>mc_dump := Some (w_db (mc_world m))\<rparr>"
| "plain_tool (Open_filesystem h) m =
     m\<lparr>mc_world := (mc_world m)\<lparr>w_disk := snd (filesystem_new [''data''] (w_disk (mc_world m)))\<rparr>\<rparr>"
| "plain_tool (Run_program p args) m =
     (if args = sync_to_archive ''/data'' plain_sync ''/backup'' then m\<lparr>mc_archive := Some (sent_tree [''data''] m)\<rparr>
      else (case mc_archive m of
          Some t \<Rightarrow> m\<lparr>mc_dump := tr_dump t,
            mc_world := (mc_world m)\<lparr>w_disk := received_tree [''data''] t (w_disk (mc_world m))\<rparr>\<rparr>
        | None \<Rightarrow> m))"
| "plain_tool (Remove_file f) m = m\<lparr>mc_dump := None\<rparr>"
| "plain_tool (Restore_database u f) m =
     (case mc_dump m of Some db \<Rightarrow> m\<lparr>mc_world := (mc_world m)\<lparr>w_db := db\<rparr>\<rparr> | None \<Rightarrow> m)"

lemma sync_args_differ: "sync_to_archive home s dest \<noteq> sync_from_archive home s dest"
proof
  assume "sync_to_archive home s dest = sync_from_archive home s dest"
  then have "length (sync_to_archive home s dest) = length (sync_from_archive home s dest)" by simp
  then show False by (simp add: sync_to_archive_def sync_from_archive_def sync_args_def)
qed

lemma plain_tool_law: "copies_law [''data''] ''/data'' plain_sync ''/backup'' (\<lambda>act a b. b = plain_tool act a)"
proof -
  have "copies [''data''] ''/data'' plain_sync ''/backup'' act a (plain_tool act a)" for act a
    by (cases act) (auto simp: sync_args_differ [symmetric] sync_args_differ)
  then show ?thesis by (simp add: copies_law_def)
qed

lemma performs_fold: "performs (\<lambda>act a b. b = f act a) acts a (fold f acts a)"
  by (induction acts arbitrary: a) simp_all

theorem backup_roundtrip_witness:
  "\<exists>w. with_store [''data''] (\<lambda>fs w. (Inr fs, w)) (mc_world (fold plain_tool
      (snd (command_restore all_well ''/data'' plain_sync None (Some ''/backup'')))
      (other_machine (mc_archive (fold plain_tool
        (snd (command_archive all_well ''/data'' plain_sync (Some ''/backup''))) sample_machine))))) = (Inr fs0, w) \<and>
    fst (run_requests (serve sample fs0) [Ask_object 1 5, Ask_object 1 6] w) =
      [Gives_file object5 [104, 105], Refused (object_not_found sample 1 6)]"
proof -
  let ?acts = "snd (command_archive all_well ''/data'' plain_sync (Some ''/backup''))"
    and ?acts' = "snd (command_restore all_well ''/data'' plain_sync None (Some ''/backup''))"
  let ?b = "fold plain_tool ?acts sample_machine"
  let ?c = "other_machine (mc_archive ?b)"
  have ok: "command_archive all_well ''/data'' plain_sync (Some ''/backup'') = (Inr (), ?acts)"
    "command_restore all_well ''/data'' plain_sync None (Some ''/backup'') = (Inr (), ?acts')"
    by (simp_all only: all_go_well snd_conv)
  have plain: "as_sync plain_sync = ''rsync''" "as_options plain_sync = []" by (simp_all add: plain_sync_def)
  have home: "mc_archive ?c = mc_archive ?b" "home_exists [''data''] (w_disk (mc_world ?c))"
    by (auto simp: home_exists_def other_machine_def blank_disk_def is_file_def prefix_Cons)
  have inv: "store_inv sample (home_fs [''data'']) (mc_world sample_machine)"
    using sample_inv(4) by (simp add: sample_machine_def fs0_def)
  obtain w where w: "with_store [''data''] (\<lambda>fs w. (Inr fs, w)) (mc_world (fold plain_tool ?acts' ?c)) = (Inr fs0, w)"
    "store_inv sample fs0 w" "shelf_of sample fs0 w = (shelf_of sample fs0 w3)\<lparr>sf_parts := Map.empty\<rparr>"
    using backup_roundtrip [OF plain_tool_law plain inv sample_laws(2) ok(1) performs_fold home ok(2) performs_fold]
    unfolding fs0_def [symmetric] by (auto simp: sample_machine_def)
  have "fst (run_requests (serve sample fs0) [Ask_object 1 5, Ask_object 1 6] w) =
      fst (run_requests (spec sample) [Ask_object 1 5, Ask_object 1 6] (shelf_of sample fs0 w))"
    using store_service.answers_agree [of sample fs0 w] w(2) sample_laws(2) by blast
  also have "\<dots> = [Gives_file object5 [104, 105], Refused (object_not_found sample 1 6)]"
    by (simp add: w(3) sample_listing content3)
  finally show ?thesis using w(1) by blast
qed

end
