(* ===== verification/Catalogue_Properties.thy ===== *)
theory Catalogue_Properties
  imports Catalogue Sample
begin

text \<open>
  The property that the schema implements its abstract specification.
\<close>

text \<open>Every function of the schema that changes something refines its specification on the abstract
  catalogue, errors included: creating, renaming and removing a bucket, listing an object, taking one
  or several off a bucket, removing the orphans, and recording the results of a check.\<close>

theorem catalogue_refinement:
  assumes "db_inv db" and "is_int64 sz" and "distinct (map oe_id es)"
  shows "map_sum id (abstract \<circ> snd) (sql_create_bucket i now n db) = spec_create i now n (abstract db) \<and>
    map_sum id abstract (sql_rename_bucket b n db) = spec_rename b n (abstract db) \<and>
    abstract (sql_remove_bucket b db) = spec_remove_bucket b (abstract db) \<and>
    map_sum id (abstract \<circ> snd) (sql_add_object b i h sz ty sub now db) =
      spec_add b \<lparr>ob_id = i, ob_hash = h, ob_size = sz, ob_type = ty, ob_subtype = sub, ob_added = now\<rparr> now
        (abstract db) \<and>
    abstract (snd (sql_remove_object b x db)) = spec_unlist b {x} (abstract db) \<and>
    (\<forall>rows db'. sql_remove_objects b xs db = Inr (rows, db') \<longrightarrow>
      abstract db' = spec_unlist b (set xs) (abstract db)) \<and>
    abstract (snd (sql_remove_orphan_objects db)) = spec_prune (abstract db) \<and>
    map_sum id abstract (sql_update_object_errors es db) = spec_report es (abstract db)"
  using refine_create [OF assms(1)] refine_rename [OF assms(1)] refine_remove_bucket [OF assms(1)]
    refine_add [OF assms(1,2)] refine_links [of b "{x}" db] refine_links [of b "set xs" db]
    refine_prune [OF assms(1)] refine_report [OF assms(3)]
  by (auto simp: sql_remove_object_def sql_remove_objects_def Let_def bind_sum_Inr_iff)

text \<open>On the sample database: known content under another id, and a free name.\<close>

theorem catalogue_refinement_witness:
  "map_sum id (abstract \<circ> snd) (sql_add_object 1 6 ''6869'' 2 ''text'' ''plain'' 300 db3) =
     spec_add 1 \<lparr>ob_id = 6, ob_hash = ''6869'', ob_size = 2, ob_type = ''text'', ob_subtype = ''plain'',
       ob_added = 300\<rparr> 300 (abstract db3) \<and>
   map_sum id abstract (sql_rename_bucket 1 ''art'' db3) =
     Inr ((abstract db3)\<lparr>cg_buckets := (cg_buckets (abstract db3))(1 \<mapsto> (''art'', 100))\<rparr>)"
proof -
  have inv: "db_inv db3" using store_invD(4) [OF sample_inv(4)] by (simp add: commit3(2))
  have "named ''art'' (abstract db3) = {}"
    unfolding named_abstract [OF inv] by (simp add: db3_def db1_def)
  moreover have "cg_buckets (abstract db3) 1 = Some (''photos'', 100)"
    by (simp add: abstract_def db3_def db1_def)
  ultimately have "spec_rename 1 ''art'' (abstract db3) =
      Inr ((abstract db3)\<lparr>cg_buckets := (cg_buckets (abstract db3))(1 \<mapsto> (''art'', 100))\<rparr>)"
    by (simp add: spec_rename_def)
  with catalogue_refinement [OF inv, of 2 "[]" 6 300 "''art''" 1 "''6869''" "''text''" "''plain''"] show ?thesis
    by (simp add: is_int64_def)
qed

end
