(* ===== verification/Check_Command.thy ===== *)
theory Check_Command
  imports Store_System Cli Complex_Main
begin

text \<open>
  The command \<open>check\<close> (\<open>src/fstore/commands/check.cpp\<close>): it runs the check of the store beside a coroutine
  that prints the progress, waits for both, and prints a summary.
\<close>

section \<open>What is printed\<close>

text \<open>
  \<open>long double\<close> is the implementation's: \<open>ld\<close> rounds a real number to it.  Rounding is monotone and keeps
  the numbers the type represents.
\<close>

definition long_double_law :: "(real \<Rightarrow> real) \<Rightarrow> bool" where
  "long_double_law ld \<longleftrightarrow> mono ld \<and> ld 0 = 0 \<and> ld 1 = 1 \<and> ld 100 = 100"

text \<open>\<open>std::round\<close>: halves away from zero.\<close>

definition round_half_away :: "real \<Rightarrow> int" where
  "round_half_away x = (if 0 \<le> x then \<lfloor>x + 1 / 2\<rfloor> else - \<lfloor>- x + 1 / 2\<rfloor>)"

definition percent :: "(real \<Rightarrow> real) \<Rightarrow> check_progress \<Rightarrow> int" where
  "percent ld p = round_half_away
     (ld (ld (ld (real (unat (completed p))) / ld (real (unat (pg_total p)))) * 100))"

text \<open>The escapes erase the current line, go up one line and erase that.\<close>

definition erase_lines :: string where
  "erase_lines = [CHR 0x1B] @ ''[2K'' @ [CHR 0x1B] @ ''[A'' @ [CHR 0x1B] @ ''[2K'' @ [CHR 0x0D]"

definition print_progress :: "cli_libs \<Rightarrow> (real \<Rightarrow> real) \<Rightarrow> check_progress \<Rightarrow> string" where
  "print_progress C ld p =
     erase_lines @
     (if pg_total p = 0 then []
      else ''['' @ localized C (completed p) @ ''/'' @ localized C (pg_total p) @ ''] ('' @
        show_int (percent ld p) @ ''%)'' @ endl)"

definition check_intro :: "int \<Rightarrow> bool \<Rightarrow> string" where
  "check_intro jobs silent =
     ''Scanning object files using up to '' @ show_int (max jobs 1) @ '' additional threads...'' @ endl @
     (if silent then [] else endl)"

section \<open>The command as a process\<close>

text \<open>
  The task is the store's check: before it has the total, with the total and before its transaction, in its loop, or
  ended by an exception of the prologue.
  The printer tests \<open>task.is_ready()\<close> when it is created and after each line, and sleeps in between.
\<close>

datatype check_phase = Preparing | Counted uint64 | Checking check_state | Failed error

datatype printer = No_printer | Created | Sleeping | Printer_ended

fun phase_progress :: "check_phase \<Rightarrow> check_progress" where
  "phase_progress (Checking s) = ck_progress s"
| "phase_progress (Counted n) = \<lparr>pg_success = 0, pg_errors = 0, pg_total = n\<rparr>"
| "phase_progress _ = \<lparr>pg_success = 0, pg_errors = 0, pg_total = 0\<rparr>"

fun task_ready :: "check_phase \<Rightarrow> bool" where
  "task_ready Preparing = False"
| "task_ready (Counted n) = False"
| "task_ready (Failed e) = True"
| "task_ready (Checking s) = (case ck_pc s of Returned \<Rightarrow> True | Threw e \<Rightarrow> True | _ \<Rightarrow> False)"

record check_process =
  cp_phase :: check_phase
  cp_printer :: printer
  cp_printed :: "check_progress list"

definition printer_test :: "check_process \<Rightarrow> check_process" where
  "printer_test r = r\<lparr>cp_printer := if task_ready (cp_phase r) then Printer_ended else Sleeping\<rparr>"

text \<open>
  \<open>before\<close> is the database when the total is read; \<open>w\<close> is the world from the beginning of the check's transaction on, in
  which no request of others changes the objects or the disk.
\<close>

inductive process_step ::
  "libs \<Rightarrow> filesystem \<Rightarrow> database \<Rightarrow> world \<Rightarrow> db_object list list \<Rightarrow> int \<Rightarrow> check_process \<Rightarrow> check_process \<Rightarrow> bool"
  for L fs before w batches batch_size where
  Count: "cp_phase r = Preparing \<Longrightarrow> process_step L fs before w batches batch_size r
    (r\<lparr>cp_phase := (case check_total L before of Inl e \<Rightarrow> Failed e | Inr n \<Rightarrow> Counted n)\<rparr>)"
| Begin: "cp_phase r = Counted n \<Longrightarrow> process_step L fs before w batches batch_size r
    (r\<lparr>cp_phase := Checking (check_start n batches (w_db w))\<rparr>)"
| Work: "cp_phase r = Checking s \<Longrightarrow> check_step L fs (w_disk w) batch_size s t \<Longrightarrow>
    process_step L fs before w batches batch_size r (r\<lparr>cp_phase := Checking t\<rparr>)"
| Test: "cp_printer r = Created \<Longrightarrow> process_step L fs before w batches batch_size r (printer_test r)"
| Wake: "cp_printer r = Sleeping \<Longrightarrow> process_step L fs before w batches batch_size r
    (printer_test (r\<lparr>cp_printed := cp_printed r @ [phase_progress (cp_phase r)]\<rparr>))"

inductive_cases process_stepE: "process_step L fs before w batches batch_size r r'"

definition check_process_start :: "bool \<Rightarrow> check_process" where
  "check_process_start silent =
     \<lparr>cp_phase = Preparing, cp_printer = (if silent then No_printer else Created), cp_printed = []\<rparr>"

text \<open>
  The command awaits the task, then the printer if there is one, and prints the summary; an exception of
  the task leaves it at once.  \<open>None\<close>: it is still running.
\<close>

definition check_output :: "cli_libs \<Rightarrow> string \<Rightarrow> int \<Rightarrow> bool \<Rightarrow> check_process \<Rightarrow> (error + string) option" where
  "check_output C argv0 jobs silent r =
     (case cp_phase r of
        Preparing \<Rightarrow> None
      | Counted n \<Rightarrow> None
      | Failed e \<Rightarrow> Some (Inl e)
      | Checking s \<Rightarrow> (case ck_pc s of
          Threw e \<Rightarrow> Some (Inl e)
        | Returned \<Rightarrow> if cp_printer r \<in> {No_printer, Printer_ended}
            then Some (Inr (check_intro jobs silent @ check_summary C argv0 (ck_progress s))) else None
        | _ \<Rightarrow> None))"

section \<open>Progress grows\<close>

text \<open>The objects that are still to be delivered or being checked.\<close>

definition objects_left :: "check_state \<Rightarrow> nat" where
  "objects_left s = length (concat (ck_portal s)) + length (ck_running s)"

lemma completed_left:
  assumes "check_inv L fs d db0 s"
  shows "completed (ck_progress s) = of_nat (length (tb_object db0) - objects_left s)"
    and "objects_left s \<le> length (tb_object db0)"
proof -
  obtain checked flushed where acc: "accounted L fs d db0 s checked flushed"
    using assms by (auto simp: check_inv_def)
  have "length (tb_object db0) = objects_left s + length checked"
    using acc arg_cong [of _ _ size, OF conjunct1 [OF acc [unfolded accounted_def]]]
    by (simp add: objects_left_def get_objects_length)
  moreover have "length checked = length (flushed @ ck_out s @ ck_in s)"
    using acc unfolding accounted_def by (metis length_map)
  moreover have "completed (ck_progress s) = of_nat (length (flushed @ ck_out s @ ck_in s))"
    using acc tally_split [of flawed "flushed @ ck_out s @ ck_in s"] by (simp add: accounted_def completed_def)
  ultimately show "completed (ck_progress s) = of_nat (length (tb_object db0) - objects_left s)"
    and "objects_left s \<le> length (tb_object db0)" by simp_all
qed

lemma check_step_left:
  assumes "check_step L fs d bs s t"
  shows "objects_left t \<le> objects_left s" and "pg_total (ck_progress t) = pg_total (ck_progress s)"
  using assms
  by (cases, auto simp: objects_left_def task_done_def Let_def fetch_batch_def swap_records_def update_done_def
      length_remove1 neq_Nil_conv split: prod.splits sum.splits)+

lemma total_counts:
  assumes "check_total L before = Inr n" shows "unat n = length (tb_object before)"
proof -
  let ?n = "int (length (tb_object before))"
  have "is_int64 ?n \<and> n = word_of_int ?n"
    using assms
    by (auto simp: check_total_def bind_sum_Inr_iff connection_fetch_store_totals_def reading_def
        fetch_prepared_def prepared_provide sql_fetch_store_totals_def int8_def execute_def to_store_totals_def
        split: if_splits option.splits)
  then show ?thesis using unat_word_of_int64 [of ?n] by (metis of_nat_0_le_iff of_nat_eq_iff)
qed

lemma unat_uint64: "n < 2 ^ 64 \<Longrightarrow> unat (of_nat n :: uint64) = n"
  by (simp add: unat_of_nat take_bit_nat_eq_self)

lemma completed_count:
  assumes "check_inv L fs d db0 s" and "length (tb_object db0) < 2 ^ 64"
  shows "unat (completed (ck_progress s)) = length (tb_object db0) - objects_left s"
  unfolding completed_left(1) [OF assms(1)] using assms(2) by (intro unat_uint64) simp

lemma completed_grows:
  assumes "check_inv L fs d db0 s" and "length (tb_object db0) < 2 ^ 64" and step: "check_step L fs d bs s t"
  shows "completed (ck_progress s) \<le> completed (ck_progress t)"
  using completed_count [OF assms(1,2)] completed_count [OF check_step_inv [OF assms(1) step] assms(2)]
    check_step_left(1) [OF step] by (simp add: word_le_nat_alt)

section \<open>The invariant of the process\<close>

definition phase_inv :: "libs \<Rightarrow> filesystem \<Rightarrow> database \<Rightarrow> world \<Rightarrow> db_object list list \<Rightarrow> check_phase \<Rightarrow> bool" where
  "phase_inv L fs before w batches ph \<longleftrightarrow> (case ph of
     Preparing \<Rightarrow> True
   | Failed e \<Rightarrow> check_total L before = Inl e
   | Counted n \<Rightarrow> check_total L before = Inr n
   | Checking s \<Rightarrow> check_total L before = Inr (pg_total (ck_progress s)) \<and> check_inv L fs (w_disk w) (w_db w) s)"

text \<open>What a line can show: no total yet, or the number of objects that were there before; and at most those that are there.\<close>

definition line_ok :: "database \<Rightarrow> world \<Rightarrow> check_progress \<Rightarrow> bool" where
  "line_ok before w p \<longleftrightarrow> (pg_total p = 0 \<or> unat (pg_total p) = length (tb_object before)) \<and>
     unat (completed p) \<le> length (tb_object (w_db w))"

definition printed_inv :: "database \<Rightarrow> world \<Rightarrow> check_process \<Rightarrow> bool" where
  "printed_inv before w r \<longleftrightarrow> sorted (map completed (cp_printed r @ [phase_progress (cp_phase r)])) \<and>
     (\<forall>p \<in> set (cp_printed r). line_ok before w p) \<and>
     (cp_printer r = Printer_ended \<longrightarrow> task_ready (cp_phase r) \<and>
       (cp_printed r \<noteq> [] \<longrightarrow> last (cp_printed r) = phase_progress (cp_phase r))) \<and>
     (cp_printer r \<in> {No_printer, Created} \<longrightarrow> cp_printed r = [])"

definition process_inv ::
  "libs \<Rightarrow> filesystem \<Rightarrow> database \<Rightarrow> world \<Rightarrow> db_object list list \<Rightarrow> check_process \<Rightarrow> bool" where
  "process_inv L fs before w batches r \<longleftrightarrow> db_inv (w_db w) \<and> portal_law batches (w_db w) \<and>
     phase_inv L fs before w batches (cp_phase r) \<and>
     (length (tb_object (w_db w)) < 2 ^ 64 \<longrightarrow> printed_inv before w r)"

lemma check_ended:
  assumes inv: "check_inv L fs d db0 s" and ready: "task_ready (Checking s)"
  shows "ck_pc s = Returned" and "\<not> check_step L fs d bs s t"
proof -
  show pc: "ck_pc s = Returned"
    using inv ready by (auto simp: check_inv_def control_inv_def split: check_pc.splits)
  show "\<not> check_step L fs d bs s t"
    using inv pc by (auto simp: check_inv_def control_inv_def quiet_def elim!: check_stepE)
qed

lemma phase_line_ok:
  assumes "phase_inv L fs before w batches ph" and "length (tb_object (w_db w)) < 2 ^ 64"
  shows "line_ok before w (phase_progress ph)"
  using assms completed_count [OF _ assms(2)] total_counts
  by (cases ph) (auto simp: phase_inv_def line_ok_def completed_def)

lemma process_step_inv:
  assumes inv: "process_inv L fs before w batches r" and step: "process_step L fs before w batches bs r r'"
  shows "process_inv L fs before w batches r'"
proof -
  have db: "db_inv (w_db w)" "portal_law batches (w_db w)" and ph: "phase_inv L fs before w batches (cp_phase r)"
    and pr: "length (tb_object (w_db w)) < 2 ^ 64 \<Longrightarrow> printed_inv before w r"
    using inv by (simp_all add: process_inv_def)
  from step show ?thesis
  proof cases
    case Count
    have "phase_inv L fs before w batches (cp_phase r')" using Count(1) by (simp add: phase_inv_def split: sum.split)
    moreover have "printed_inv before w r'" if few: "length (tb_object (w_db w)) < 2 ^ 64"
      using pr [OF few] Count by (auto simp: printed_inv_def sorted_append completed_def split: sum.split)
    ultimately show ?thesis using db by (simp add: process_inv_def)
  next
    case (Begin n)
    have "phase_inv L fs before w batches (cp_phase r')"
      using ph Begin check_start_inv [OF db] by (simp add: phase_inv_def) (simp add: check_start_def)
    moreover have "printed_inv before w r'" if few: "length (tb_object (w_db w)) < 2 ^ 64"
      using pr [OF few] Begin by (auto simp: printed_inv_def sorted_append completed_def check_start_def)
    ultimately show ?thesis using db by (simp add: process_inv_def)
  next
    case (Work s t)
    have s: "check_inv L fs (w_disk w) (w_db w) s" using ph Work(2) by (simp add: phase_inv_def)
    have "phase_inv L fs before w batches (Checking t)"
      using ph check_step_inv [OF s Work(3)] check_step_left(2) [OF Work(3)] Work(2) by (simp add: phase_inv_def)
    moreover have "\<not> task_ready (cp_phase r)"
      using check_ended(2) [OF s] Work(2,3) by fastforce
    then have "printed_inv before w r'" if few: "length (tb_object (w_db w)) < 2 ^ 64"
      using pr [OF few] completed_grows [OF s few Work(3)] Work
      by (auto simp: printed_inv_def sorted_append intro: order_trans)
    ultimately show ?thesis using db Work(1) by (simp add: process_inv_def)
  next
    case Test
    then have "printed_inv before w r'" if "length (tb_object (w_db w)) < 2 ^ 64"
      using pr [OF that] by (simp add: printed_inv_def printer_test_def)
    with db ph Test(1) show ?thesis by (simp add: process_inv_def printer_test_def)
  next
    case Wake
    then have "printed_inv before w r'" if "length (tb_object (w_db w)) < 2 ^ 64"
      using pr [OF that] phase_line_ok [OF ph that] by (auto simp: printed_inv_def printer_test_def sorted_append)
    with db ph Wake(1) show ?thesis by (simp add: process_inv_def printer_test_def)
  qed
qed

interpretation check_process: invariant_system "process_step L fs before w batches bs" "process_inv L fs before w batches"
  for L fs before w batches bs
  by unfold_locales (rule process_step_inv)

lemma process_start_inv:
  "db_inv (w_db w) \<Longrightarrow> portal_law batches (w_db w) \<Longrightarrow> process_inv L fs before w batches (check_process_start silent)"
  by (simp add: process_inv_def phase_inv_def printed_inv_def check_process_start_def)

end
