(* ===== verification/Check_Command_Properties.thy ===== *)
theory Check_Command_Properties
  imports Check_Command Check_Properties
begin

text \<open>
  The properties of the command \<open>check\<close>: what its progress lines and its summary say, and that it ends.
\<close>

section \<open>A sample process\<close>

definition cli_sample :: cli_libs where
  "cli_sample = \<lparr>data_size = show_uint64, localized = show_uint64\<rparr>"

abbreviation process3 :: "check_process \<Rightarrow> check_process \<Rightarrow> bool" where
  "process3 \<equiv> process_step sample fs0 db3 w3 batches3 500"

section \<open>Progress\<close>

lemma percent_range:
  assumes law: "long_double_law ld" and le: "completed p \<le> pg_total p" and pos: "0 < pg_total p"
  shows "0 \<le> percent ld p" and "percent ld p \<le> 100" and "completed p = pg_total p \<Longrightarrow> percent ld p = 100"
proof -
  let ?c = "ld (real (unat (completed p)))" and ?t = "ld (real (unat (pg_total p)))"
  have mono: "x \<le> y \<Longrightarrow> ld x \<le> ld y" for x y using law by (simp add: long_double_law_def mono_def)
  have pts: "ld 0 = 0" "ld 1 = 1" "ld 100 = 100" using law by (simp_all add: long_double_law_def)
  have "1 \<le> unat (pg_total p)" using pos by (simp add: word_less_nat_alt)
  then have "1 \<le> real (unat (pg_total p))" by linarith
  from mono [OF this] have t: "1 \<le> ?t" unfolding pts(2) .
  have "unat (completed p) \<le> unat (pg_total p)" using le by (simp add: word_le_nat_alt)
  then have c: "0 \<le> ?c" "?c \<le> ?t"
    using mono [of 0 "real (unat (completed p))"] unfolding pts(1) by (simp_all only: of_nat_0_le_iff mono of_nat_le_iff)
  have "0 \<le> ?c / ?t" "?c / ?t \<le> 1" using t c by simp_all
  then have q: "0 \<le> ld (?c / ?t)" "ld (?c / ?t) \<le> 1" using mono pts by (metis, metis)
  then have "0 \<le> ld (ld (?c / ?t) * 100)" "ld (ld (?c / ?t) * 100) \<le> 100"
    using mono [of 0 "ld (?c / ?t) * 100"] mono [of "ld (?c / ?t) * 100" 100] pts by simp_all
  then show "0 \<le> percent ld p" and "percent ld p \<le> 100"
    by (simp_all add: percent_def round_half_away_def)
  show "percent ld p = 100" if "completed p = pg_total p"
  proof -
    have "?t / ?t = 1" using t by simp
    then show ?thesis by (simp add: that percent_def round_half_away_def pts)
  qed
qed

lemma process_reachable:
  assumes "db_inv (w_db w)" and "portal_law batches (w_db w)"
    and "(process_step L fs before w batches bs)\<^sup>*\<^sup>* (check_process_start silent) r"
  shows "process_inv L fs before w batches r"
  using check_process.inv_reachable [OF assms(3) process_start_inv [OF assms(1,2)]] .

text \<open>C27: The progress a check prints never goes back, and never exceeds the number of objects it checks.  The total in it
  was counted before the check's transaction began: if no object was added in between, no line exceeds the total, and the
  percentage lies between 0 and 100, whatever the rounding of \<open>long double\<close>.  The last line before the command ends has the
  number of objects checked, and the total counted before, so it shows 100% if these are the same.  This is for fewer than
  \<open>2 ^ 64\<close> objects, and while no other request changes the objects or their files after the transaction has begun.\<close>

theorem check_progress_lines:
  assumes "long_double_law ld" and "db_inv (w_db w)" and "portal_law batches (w_db w)"
    and few: "length (tb_object (w_db w)) < 2 ^ 64"
    and "(process_step L fs before w batches batch_size)\<^sup>*\<^sup>* (check_process_start silent) r"
  shows "sorted (map completed (cp_printed r)) \<and>
    (\<forall>p \<in> set (cp_printed r). unat (completed p) \<le> length (tb_object (w_db w)) \<and>
      (pg_total p = 0 \<or> unat (pg_total p) = length (tb_object before)) \<and>
      (0 < pg_total p \<and> length (tb_object (w_db w)) \<le> length (tb_object before) \<longrightarrow>
        completed p \<le> pg_total p \<and> 0 \<le> percent ld p \<and> percent ld p \<le> 100)) \<and>
    (check_output C argv0 jobs silent r = Some (Inr out) \<and> cp_printed r \<noteq> [] \<longrightarrow>
      unat (completed (last (cp_printed r))) = length (tb_object (w_db w)) \<and>
      unat (pg_total (last (cp_printed r))) = length (tb_object before) \<and>
      (length (tb_object before) = length (tb_object (w_db w)) \<and> tb_object (w_db w) \<noteq> [] \<longrightarrow>
        percent ld (last (cp_printed r)) = 100))"
proof -
  have inv: "process_inv L fs before w batches r" using process_reachable [OF assms(2,3,5)] .
  then have pr: "printed_inv before w r" and ph: "phase_inv L fs before w batches (cp_phase r)"
    using few by (simp_all add: process_inv_def)
  have line: "unat (completed p) \<le> length (tb_object (w_db w))"
      "pg_total p = 0 \<or> unat (pg_total p) = length (tb_object before)"
      "0 < pg_total p \<Longrightarrow> length (tb_object (w_db w)) \<le> length (tb_object before) \<Longrightarrow> completed p \<le> pg_total p"
    if "p \<in> set (cp_printed r)" for p
    using pr that by (auto simp: printed_inv_def line_ok_def word_le_nat_alt)
  have lastly: "unat (completed (last (cp_printed r))) = length (tb_object (w_db w)) \<and>
      unat (pg_total (last (cp_printed r))) = length (tb_object before)"
    if done': "check_output C argv0 jobs silent r = Some (Inr out)" "cp_printed r \<noteq> []"
  proof -
    obtain s where s: "cp_phase r = Checking s" "ck_pc s = Returned" "cp_printer r \<in> {No_printer, Printer_ended}"
      using done'(1) by (auto simp: check_output_def split: check_phase.splits check_pc.splits if_splits)
    have cs: "check_inv L fs (w_disk w) (w_db w) s" "unat (pg_total (ck_progress s)) = length (tb_object before)"
      using ph s(1) by (auto simp: phase_inv_def intro: total_counts)
    moreover have "last (cp_printed r) = ck_progress s" using pr s done'(2) by (auto simp: printed_inv_def)
    ultimately show ?thesis using check_result_counts(3) [OF cs(1) s(2)] unat_uint64 [OF few] by simp
  qed
  moreover have "percent ld (last (cp_printed r)) = 100"
    if "check_output C argv0 jobs silent r = Some (Inr out)" "cp_printed r \<noteq> []"
      "length (tb_object before) = length (tb_object (w_db w))" "tb_object (w_db w) \<noteq> []"
  proof -
    have u: "unat (completed (last (cp_printed r))) = unat (pg_total (last (cp_printed r)))"
      "0 < unat (pg_total (last (cp_printed r)))" using lastly [OF that(1,2)] that(3,4) by simp_all
    then have "completed (last (cp_printed r)) = pg_total (last (cp_printed r))" "0 < pg_total (last (cp_printed r))"
      by (simp_all only: unsigned_word_eqI word_less_nat_alt unsigned_0)
    then show ?thesis using percent_range(3) [OF assms(1), of "last (cp_printed r)"] by simp
  qed
  moreover have "sorted (map completed (cp_printed r))" using pr by (simp add: printed_inv_def sorted_append)
  ultimately show ?thesis using line percent_range(1,2) [OF assms(1)] by blast
qed

text \<open>A run of the command on the sample store, up to its first line.\<close>

definition first_line :: check_process where
  "first_line = \<lparr>cp_phase = Checking (check_start 1 batches3 db3), cp_printer = Sleeping,
     cp_printed = [\<lparr>pg_success = 0, pg_errors = 0, pg_total = 1\<rparr>]\<rparr>"

lemma first_line_reached: "process3\<^sup>*\<^sup>* (check_process_start False) first_line"
proof -
  let ?s = "check_start 1 batches3 db3"
  have "process3 (check_process_start False) (check_process_start False\<lparr>cp_phase := Counted 1\<rparr>)"
    using process_step.Count [of "check_process_start False" sample fs0 db3 w3 batches3 500] counted3
    by (simp add: check_process_start_def)
  moreover have "process3 (check_process_start False\<lparr>cp_phase := Counted 1\<rparr>) (check_process_start False\<lparr>cp_phase := Checking ?s\<rparr>)"
    using process_step.Begin [of "check_process_start False\<lparr>cp_phase := Counted 1\<rparr>" 1 sample fs0 db3 w3 batches3 500]
    by (simp add: check_process_start_def commit3(2))
  moreover have "process3 (check_process_start False\<lparr>cp_phase := Checking ?s\<rparr>) (first_line\<lparr>cp_printed := []\<rparr>)"
    using process_step.Test [of "check_process_start False\<lparr>cp_phase := Checking ?s\<rparr>" sample fs0 db3 w3 batches3 500]
    by (simp add: check_process_start_def printer_test_def first_line_def check_start_def)
  moreover have "process3 (first_line\<lparr>cp_printed := []\<rparr>) first_line"
    using process_step.Wake [of "first_line\<lparr>cp_printed := []\<rparr>" sample fs0 db3 w3 batches3 500]
    by (simp add: printer_test_def first_line_def check_start_def)
  ultimately show ?thesis by (meson converse_rtranclp_into_rtranclp rtranclp.rtrancl_refl)
qed

theorem check_progress_lines_witness:
  "percent (\<lambda>x. x) \<lparr>pg_success = 0, pg_errors = 0, pg_total = 1\<rparr> \<le> 100 \<and>
   sorted (map completed (cp_printed first_line))"
proof -
  have "long_double_law (\<lambda>x. x)" by (simp add: long_double_law_def mono_def)
  from check_progress_lines [OF this db3_inv portal3 _ first_line_reached] show ?thesis
    by (simp add: first_line_def commit3(2) db3_def)
qed

section \<open>The end\<close>

text \<open>C28: When the command \<open>check\<close> ends, it has failed with the error that kept the check from beginning, or it
  prints how many objects are sound and how many flawed, exactly.\<close>

theorem check_command_reports:
  assumes "db_inv (w_db w)" and "portal_law batches (w_db w)"
    and "(process_step L fs before w batches batch_size)\<^sup>*\<^sup>* (check_process_start silent) r"
    and out: "check_output C argv0 jobs silent r = Some res"
  shows "res = (case check_begin L batches before w of Inl e \<Rightarrow> Inl e
    | Inr _ \<Rightarrow> Inr (check_intro jobs silent @ check_summary C argv0
        \<lparr>pg_success = of_nat (card {q \<in> set (tb_object (w_db w)). check_object L fs (w_disk w) (object_view q) = []}),
         pg_errors = of_nat (card {q \<in> set (tb_object (w_db w)). check_object L fs (w_disk w) (object_view q) \<noteq> []}),
         pg_total = of_nat (length (tb_object before))\<rparr>))"
proof (cases "cp_phase r")
  case (Checking s)
  have inv: "check_inv L fs (w_disk w) (w_db w) s" and total: "check_total L before = Inr (pg_total (ck_progress s))"
    using process_reachable [OF assms(1-3)] Checking by (simp_all add: process_inv_def phase_inv_def)
  have ret: "ck_pc s = Returned"
    using inv out Checking by (auto simp: check_inv_def control_inv_def check_output_def split: check_pc.splits)
  have n: "pg_total (ck_progress s) = of_nat (length (tb_object before))"
    unfolding total_counts [OF total, symmetric] by simp
  have "ck_progress s = \<lparr>pg_success = pg_success (ck_progress s), pg_errors = pg_errors (ck_progress s),
      pg_total = pg_total (ck_progress s)\<rparr>" by simp
  then have "ck_progress s = \<lparr>pg_success = of_nat (card {q \<in> set (tb_object (w_db w)). check_object L fs (w_disk w) (object_view q) = []}),
      pg_errors = of_nat (card {q \<in> set (tb_object (w_db w)). check_object L fs (w_disk w) (object_view q) \<noteq> []}),
      pg_total = of_nat (length (tb_object before))\<rparr>"
    unfolding check_result_cards [OF inv ret] n .
  with total ret out Checking show ?thesis by (auto simp: check_output_def check_begin_def split: if_splits)
qed (use process_reachable [OF assms(1-3)] out in
    \<open>auto simp: process_inv_def phase_inv_def check_output_def check_begin_def\<close>)

lemma work_lift:
  "(check_step L fs (w_disk w) bs)\<^sup>*\<^sup>* s t \<Longrightarrow> cp_phase r = Checking s \<Longrightarrow>
   (process_step L fs before w batches bs)\<^sup>*\<^sup>* r (r\<lparr>cp_phase := Checking t\<rparr>)"
proof (induction rule: rtranclp_induct)
  case (step t u)
  have "process_step L fs before w batches bs (r\<lparr>cp_phase := Checking t\<rparr>) (r\<lparr>cp_phase := Checking u\<rparr>)"
    using process_step.Work [of "r\<lparr>cp_phase := Checking t\<rparr>" t L fs w bs u before batches] step(2) by simp
  with step show ?case by (simp add: rtranclp.rtrancl_into_rtrancl)
qed (metis check_process.surjective check_process.update_convs(1) rtranclp.rtrancl_refl)

lemma printer_ends:
  assumes "cp_phase r = Checking s" and "ck_pc s = Returned"
  shows "\<exists>r'. (process_step L fs before w batches bs)\<^sup>*\<^sup>* r r' \<and> check_output C argv0 jobs silent r' \<noteq> None"
proof -
  have now: "check_output C argv0 jobs silent r' \<noteq> None"
    if "cp_phase r' = Checking s" "cp_printer r' \<in> {No_printer, Printer_ended}" for r'
    using that assms by (auto simp: check_output_def)
  show ?thesis
  proof (cases "cp_printer r")
    case Created
    from process_step.Test [OF this, of L fs before w batches bs] show ?thesis
      using now [of "printer_test r"] assms by (auto simp: printer_test_def intro!: r_into_rtranclp exI)
  next
    case Sleeping
    let ?r = "printer_test (r\<lparr>cp_printed := cp_printed r @ [phase_progress (cp_phase r)]\<rparr>)"
    from process_step.Wake [OF Sleeping, of L fs before w batches bs] show ?thesis
      using now [of ?r] assms by (intro exI [of _ ?r]) (auto simp: printer_test_def)
  qed (use now [of r] assms in blast)+
qed

text \<open>The silent command on the sample store, at its end.\<close>

lemma silent_end_reached:
  obtains t where "process3\<^sup>*\<^sup>* (check_process_start True)
      \<lparr>cp_phase = Checking t, cp_printer = No_printer, cp_printed = []\<rparr>" and "ck_pc t = Returned"
proof -
  let ?s = "check_start 1 batches3 db3"
  let ?r = "check_process_start True\<lparr>cp_phase := Checking ?s\<rparr>"
  obtain t where t: "(check_step sample fs0 (w_disk w3) 500)\<^sup>*\<^sup>* ?s t" "ck_pc t = Returned"
    using end3_exists by (auto simp: end3_def)
  have "process3 (check_process_start True) (check_process_start True\<lparr>cp_phase := Counted 1\<rparr>)"
    using process_step.Count [of "check_process_start True" sample fs0 db3 w3 batches3 500] counted3
    by (simp add: check_process_start_def)
  moreover have "process3 (check_process_start True\<lparr>cp_phase := Counted 1\<rparr>) ?r"
    using process_step.Begin [of "check_process_start True\<lparr>cp_phase := Counted 1\<rparr>" 1 sample fs0 db3 w3 batches3 500]
    by (simp add: check_process_start_def commit3(2))
  moreover have "process3\<^sup>*\<^sup>* ?r (?r\<lparr>cp_phase := Checking t\<rparr>)" by (rule work_lift [OF t(1)]) simp
  ultimately have "process3\<^sup>*\<^sup>* (check_process_start True) (?r\<lparr>cp_phase := Checking t\<rparr>)" by simp
  with t(2) show ?thesis by (intro that [of t]) (simp_all add: check_process_start_def)
qed

theorem check_command_reports_witness:
  "\<exists>r. process3\<^sup>*\<^sup>* (check_process_start True) r \<and>
     check_output cli_sample ''fstore'' 1 True r = Some (Inr (check_intro 1 True @
       check_summary cli_sample ''fstore'' \<lparr>pg_success = 1, pg_errors = 0, pg_total = 1\<rparr>))"
proof -
  obtain t where t: "process3\<^sup>*\<^sup>* (check_process_start True)
      \<lparr>cp_phase = Checking t, cp_printer = No_printer, cp_printed = []\<rparr>" "ck_pc t = Returned"
    by (rule silent_end_reached)
  have sound: "check_object sample fs0 (w_disk w3) (object_view q) = []" if "q \<in> set (tb_object (w_db w3))" for q
    using check_object_sound [OF sample_inv(4) that] .
  have one: "length (tb_object db3) = 1" "card (set (tb_object (w_db w3))) = 1"
    by (simp_all add: commit3(2) db3_def)
  have cards: "{q \<in> set (tb_object (w_db w3)). check_object sample fs0 (w_disk w3) (object_view q) = []} =
      set (tb_object (w_db w3))"
    "{q \<in> set (tb_object (w_db w3)). check_object sample fs0 (w_disk w3) (object_view q) \<noteq> []} = {}"
    using sound by auto
  obtain res where res: "check_output cli_sample ''fstore'' 1 True
      \<lparr>cp_phase = Checking t, cp_printer = No_printer, cp_printed = []\<rparr> = Some res"
    using t(2) by (simp add: check_output_def)
  from check_command_reports [OF db3_inv portal3 t(1) res] show ?thesis
    unfolding begin3 cards one card.empty
    using t(1) res by (intro exI [of _ "\<lparr>cp_phase = Checking t, cp_printer = No_printer, cp_printed = []\<rparr>"]) simp
qed

text \<open>C29: The command \<open>check\<close> cannot get stuck: from every state it can be in, with its coroutines interleaved
  in whatever way, it can still come to its end.\<close>

theorem check_command_ends:
  assumes "0 \<le> batch_size" and "db_inv (w_db w)" and "portal_law batches (w_db w)"
    and "(process_step L fs before w batches batch_size)\<^sup>*\<^sup>* (check_process_start silent) r"
  shows "\<exists>r'. (process_step L fs before w batches batch_size)\<^sup>*\<^sup>* r r' \<and> check_output C argv0 jobs silent r' \<noteq> None"
proof -
  let ?step = "process_step L fs before w batches batch_size"
  have running: "\<exists>r'. ?step\<^sup>*\<^sup>* r r' \<and> check_output C argv0 jobs silent r' \<noteq> None"
    if inv: "process_inv L fs before w batches r" and s: "cp_phase r = Checking s" for r s
  proof -
    have sys: "check_system_inv L fs (w_disk w) (w_db w) batch_size s"
      using inv s assms(1) by (simp add: check_system_inv_def process_inv_def phase_inv_def)
    obtain t where t: "(check_step L fs (w_disk w) batch_size)\<^sup>*\<^sup>* s t" "check_final t"
      using check_run.reaches_final [OF sys] by blast
    have "ck_pc t = Returned"
      using check_run.inv_reachable [OF t(1) sys] final_returned t(2) by (auto simp: check_system_inv_def)
    then have "\<exists>r'. ?step\<^sup>*\<^sup>* (r\<lparr>cp_phase := Checking t\<rparr>) r' \<and> check_output C argv0 jobs silent r' \<noteq> None"
      by (intro printer_ends) simp
    then obtain r' where "?step\<^sup>*\<^sup>* (r\<lparr>cp_phase := Checking t\<rparr>) r'" "check_output C argv0 jobs silent r' \<noteq> None"
      by blast
    with work_lift [OF t(1) s] show ?thesis by (meson rtranclp_trans)
  qed
  have inv: "process_inv L fs before w batches r" using process_reachable [OF assms(2-4)] .
  have begun: "\<exists>r'. ?step\<^sup>*\<^sup>* r r' \<and> check_output C argv0 jobs silent r' \<noteq> None"
    if inv: "process_inv L fs before w batches r" and n: "cp_phase r = Counted n" for r n
  proof -
    note b = process_step.Begin [OF n, of L fs before w batches batch_size]
    from running [OF process_step_inv [OF inv b], of "check_start n batches (w_db w)"] b show ?thesis
      by (auto intro: converse_rtranclp_into_rtranclp)
  qed
  show ?thesis
  proof (cases "cp_phase r")
    case Preparing
    note b = process_step.Count [OF Preparing, of L fs before w batches batch_size]
    show ?thesis
    proof (cases "check_total L before")
      case (Inl e)
      with b show ?thesis by (auto simp: check_output_def intro!: exI r_into_rtranclp)
    next
      case (Inr n)
      with begun [OF process_step_inv [OF inv b], of n] b show ?thesis by (auto intro: converse_rtranclp_into_rtranclp)
    qed
  next
    case (Failed e)
    then show ?thesis by (auto simp: check_output_def)
  qed (rule running [OF inv] begun [OF inv]; assumption)+
qed

theorem check_command_ends_witness:
  "\<exists>r. process3\<^sup>*\<^sup>* first_line r \<and> check_output cli_sample ''fstore'' 1 False r \<noteq> None"
  using check_command_ends [OF _ db3_inv portal3 first_line_reached] by simp

end
