(* ===== verification/Start.thy ===== *)
theory Start
  imports Conf Transitions
begin

text \<open>
  The command \<open>start\<close> (\<open>src/fstore/commands/start.cpp\<close>) and the commands \<open>init\<close> and \<open>migrate\<close>: what they ask
  of the libraries, in which order, and how a running server comes to its end.
\<close>

section \<open>Administration of the database\<close>

text \<open>The options \<open>database\<close> (\<open>db.cpp\<close>) passes to dbtools; \<open>None\<close> leaves its default program.\<close>

record database_options =
  do_client_program :: "string option"
  do_connection_string :: string
  do_dump_program :: "string option"
  do_restore_program :: "string option"
  do_sql_directory :: string

definition database_of :: "('c \<Rightarrow> string) \<Rightarrow> ('g, 'u, 'c, 'e) settings \<Rightarrow> database_options" where
  "database_of str s = (let config = se_database s in
     \<lparr>do_client_program = dbs_client config, do_connection_string = str (dbs_connection config),
      do_dump_program = dbs_dump config, do_restore_program = dbs_restore config,
      do_sql_directory = dbs_sqldir config\<rparr>)"

datatype admin_action =
    Reset_database database_options string
  | Init_database database_options string
  | Migrate_database database_options string

definition command_init ::
  "(admin_action \<Rightarrow> error + unit) \<Rightarrow> ('c \<Rightarrow> string) \<Rightarrow> (string \<Rightarrow> error + ('g, 'u, 'c, 'e) settings) \<Rightarrow>
     string \<Rightarrow> string \<Rightarrow> bool \<Rightarrow> error + unit" where
  "command_init env str load_file version confpath overwrite =
     bind_sum (load_file confpath) (\<lambda>s.
       if overwrite then env (Reset_database (database_of str s) version)
       else env (Init_database (database_of str s) version))"

definition command_migrate ::
  "(admin_action \<Rightarrow> error + unit) \<Rightarrow> ('c \<Rightarrow> string) \<Rightarrow> (string \<Rightarrow> error + ('g, 'u, 'c, 'e) settings) \<Rightarrow>
     string \<Rightarrow> string \<Rightarrow> error + unit" where
  "command_migrate env str load_file version confpath =
     bind_sum (load_file confpath) (\<lambda>s. env (Migrate_database (database_of str s) version))"

section \<open>Starting\<close>

text \<open>
  The actions before the server serves.  \<open>Daemonize\<close> forks: it gives \<open>False\<close> in the process that is to
  return, and the other actions give \<open>True\<close>.
\<close>

datatype ('g, 'u, 'e) start_action =
    Daemonize 'g string string 'u
  | Open_store string
  | Listen_http string string "'e list"
  | Listen_sockets "'e list"

datatype start_result = Parent_returns | Serving

type_synonym ('g, 'u, 'e) start_outcome = "(error, start_result, ('g, 'u, 'e) start_action list) outcome"

definition try_start ::
  "('a \<Rightarrow> error + bool) \<Rightarrow> 'a \<Rightarrow> 'a list \<Rightarrow> (error, bool, 'a list) outcome" where
  "try_start env a past = (env a, past @ [a])"

definition default_pidfile :: "string \<Rightarrow> string \<Rightarrow> string" where
  "default_pidfile temp name = path_append temp name @ ''.pid''"

definition start_daemon ::
  "(('g, 'u, 'e) start_action \<Rightarrow> error + bool) \<Rightarrow> string \<Rightarrow> string \<Rightarrow> ('g, 'u, 'c, 'e) settings \<Rightarrow> bool \<Rightarrow>
     string option \<Rightarrow> (error, bool, ('g, 'u, 'e) start_action list) outcome" where
  "start_daemon env temp name s daemon pidfile =
     (if daemon then try_start env (Daemonize (ds_group (se_daemon s)) name
         (value_or pidfile (default_pidfile temp name)) (ds_user (se_daemon s))) []
      else (Inr True, []))"

definition command_start ::
  "(('g, 'u, 'e) start_action \<Rightarrow> error + bool) \<Rightarrow> (string \<Rightarrow> error + ('g, 'u, 'c, 'e) settings) \<Rightarrow> string \<Rightarrow> string \<Rightarrow>
     string \<Rightarrow> bool \<Rightarrow> string option \<Rightarrow> ('g, 'u, 'e) start_outcome" where
  "command_start env load_file temp name conf daemon pidfile =
     (case load_file conf of
        Inl e \<Rightarrow> (Inl e, [])
      | Inr s \<Rightarrow>
          and_then (start_daemon env temp name s daemon pidfile) (\<lambda>proceed past.
            if \<not> proceed then (Inr Parent_returns, past)
            else and_then (try_start env (Open_store (se_home s)) past) (\<lambda>_ past.
                 and_then (try_start env (Listen_http (hs_cert (se_http s)) (hs_key (se_http s)) (hs_listen (se_http s))) past)
                   (\<lambda>_ past.
                 and_then (try_start env (Listen_sockets (se_server s)) past) (\<lambda>_ past. (Inr Serving, past))))))"

section \<open>Serving until a signal\<close>

text \<open>
  A list of servers belongs to netcore or to the http library: it can be closed, makes steps of its own,
  and ends.  Relied on: a closed list stays closed and comes to its end, and an ended list stays ended.
\<close>

record 'l list_lib =
  ll_close :: "'l \<Rightarrow> 'l"
  ll_step :: "'l \<Rightarrow> 'l \<Rightarrow> bool"
  ll_closed :: "'l \<Rightarrow> bool"
  ll_ended :: "'l \<Rightarrow> bool"

definition list_law :: "'l list_lib \<Rightarrow> bool" where
  "list_law P \<longleftrightarrow> (\<forall>l. ll_closed P (ll_close P l)) \<and>
     (\<forall>l l'. ll_closed P l \<and> ll_step P l l' \<longrightarrow> ll_closed P l') \<and>
     (\<forall>l. ll_closed P l \<longrightarrow> (\<exists>l'. (ll_step P)\<^sup>*\<^sup>* l l' \<and> ll_ended P l')) \<and>
     (\<forall>l l'. ll_ended P l \<and> ll_step P l l' \<longrightarrow> ll_ended P l') \<and> (\<forall>l. ll_ended P l \<longrightarrow> ll_ended P (ll_close P l))"

datatype serving_pc = Joining_sockets | Joining_http | Joined

record ('l, 'm) serving_state =
  sv_pc :: serving_pc
  sv_sockets :: 'l
  sv_http :: 'm

text \<open>
  \<open>handle_signals\<close> closes both lists at every signal; the command joins the one list, then the other, and
  then the coroutine that handles signals is destroyed with it.
\<close>

definition handle_signal :: "'l list_lib \<Rightarrow> 'm list_lib \<Rightarrow> ('l, 'm) serving_state \<Rightarrow> ('l, 'm) serving_state" where
  "handle_signal P H v = v\<lparr>sv_sockets := ll_close P (sv_sockets v), sv_http := ll_close H (sv_http v)\<rparr>"

inductive serve_step :: "'l list_lib \<Rightarrow> 'm list_lib \<Rightarrow> ('l, 'm) serving_state \<Rightarrow> ('l, 'm) serving_state \<Rightarrow> bool" for P H where
  Signal: "sv_pc v \<noteq> Joined \<Longrightarrow> serve_step P H v (handle_signal P H v)"
| Sockets: "ll_step P (sv_sockets v) l \<Longrightarrow> serve_step P H v (v\<lparr>sv_sockets := l\<rparr>)"
| Http: "ll_step H (sv_http v) m \<Longrightarrow> serve_step P H v (v\<lparr>sv_http := m\<rparr>)"
| Join_sockets: "sv_pc v = Joining_sockets \<Longrightarrow> ll_ended P (sv_sockets v) \<Longrightarrow>
    serve_step P H v (v\<lparr>sv_pc := Joining_http\<rparr>)"
| Join_http: "sv_pc v = Joining_http \<Longrightarrow> ll_ended H (sv_http v) \<Longrightarrow>
    serve_step P H v (v\<lparr>sv_pc := Joined\<rparr>)"

definition serving_start :: "'l \<Rightarrow> 'm \<Rightarrow> ('l, 'm) serving_state" where
  "serving_start l m = \<lparr>sv_pc = Joining_sockets, sv_sockets = l, sv_http = m\<rparr>"

text \<open>What has been joined has ended.\<close>

definition joined_inv :: "'l list_lib \<Rightarrow> 'm list_lib \<Rightarrow> ('l, 'm) serving_state \<Rightarrow> bool" where
  "joined_inv P H v \<longleftrightarrow> list_law P \<and> list_law H \<and>
     (sv_pc v \<noteq> Joining_sockets \<longrightarrow> ll_ended P (sv_sockets v)) \<and> (sv_pc v = Joined \<longrightarrow> ll_ended H (sv_http v))"

definition closed_inv :: "'l list_lib \<Rightarrow> 'm list_lib \<Rightarrow> ('l, 'm) serving_state \<Rightarrow> bool" where
  "closed_inv P H v \<longleftrightarrow> joined_inv P H v \<and> ll_closed P (sv_sockets v) \<and> ll_closed H (sv_http v)"

lemma joined_step: "joined_inv P H v \<Longrightarrow> serve_step P H v v' \<Longrightarrow> joined_inv P H v'"
  by (erule serve_step.cases) (auto simp: joined_inv_def handle_signal_def list_law_def)

lemma closed_step: "closed_inv P H v \<Longrightarrow> serve_step P H v v' \<Longrightarrow> closed_inv P H v'"
  using joined_step [of P H v v'] unfolding closed_inv_def
  by (elim conjE serve_step.cases; simp add: joined_inv_def handle_signal_def list_law_def; metis)

interpretation joined: invariant_system "serve_step P H" "joined_inv P H" for P H
  by unfold_locales (rule joined_step)

interpretation closed: invariant_system "serve_step P H" "closed_inv P H" for P H
  by unfold_locales (rule closed_step)

lemma sockets_run:
  "(ll_step P)\<^sup>*\<^sup>* (sv_sockets v) l \<Longrightarrow> (serve_step P H)\<^sup>*\<^sup>* v (v\<lparr>sv_sockets := l\<rparr>)"
proof (induction rule: rtranclp_induct)
  case (step l m)
  have "serve_step P H (v\<lparr>sv_sockets := l\<rparr>) (v\<lparr>sv_sockets := m\<rparr>)"
    using serve_step.Sockets [of P "v\<lparr>sv_sockets := l\<rparr>" m H] step(2) by simp
  with step.IH show ?case by simp
qed simp

lemma http_run:
  "(ll_step H)\<^sup>*\<^sup>* (sv_http v) l \<Longrightarrow> (serve_step P H)\<^sup>*\<^sup>* v (v\<lparr>sv_http := l\<rparr>)"
proof (induction rule: rtranclp_induct)
  case (step l m)
  have "serve_step P H (v\<lparr>sv_http := l\<rparr>) (v\<lparr>sv_http := m\<rparr>)"
    using serve_step.Http [of H "v\<lparr>sv_http := l\<rparr>" m P] step(2) by simp
  with step.IH show ?case by simp
qed simp

text \<open>Once both lists are closed, each join can be reached.\<close>

lemma closed_join:
  assumes inv: "closed_inv P H v" shows "\<exists>v'. (serve_step P H)\<^sup>*\<^sup>* v v' \<and> sv_pc v' = Joined"
proof -
  have laws: "list_law P" "list_law H" using inv by (simp_all add: closed_inv_def joined_inv_def)
  have http: "\<exists>v'. (serve_step P H)\<^sup>*\<^sup>* v v' \<and> sv_pc v' = Joined"
    if inv: "closed_inv P H v" and pc: "sv_pc v = Joining_http" for v
  proof -
    obtain m where m: "(ll_step H)\<^sup>*\<^sup>* (sv_http v) m" "ll_ended H m"
      using inv laws by (auto simp: closed_inv_def list_law_def)
    have "serve_step P H (v\<lparr>sv_http := m\<rparr>) (v\<lparr>sv_http := m, sv_pc := Joined\<rparr>)"
      using serve_step.Join_http [of "v\<lparr>sv_http := m\<rparr>" H P] pc m(2) by simp
    then have "(serve_step P H)\<^sup>*\<^sup>* v (v\<lparr>sv_http := m, sv_pc := Joined\<rparr>)"
      using http_run [OF m(1), of P] by simp
    then show ?thesis by (intro exI [of _ "v\<lparr>sv_http := m, sv_pc := Joined\<rparr>"]) simp
  qed
  show ?thesis
  proof (cases "sv_pc v")
    case Joining_sockets
    obtain l where l: "(ll_step P)\<^sup>*\<^sup>* (sv_sockets v) l" "ll_ended P l"
      using inv laws by (auto simp: closed_inv_def list_law_def)
    have "serve_step P H (v\<lparr>sv_sockets := l\<rparr>) (v\<lparr>sv_sockets := l, sv_pc := Joining_http\<rparr>)"
      using serve_step.Join_sockets [of "v\<lparr>sv_sockets := l\<rparr>" P H] Joining_sockets l(2) by simp
    then have run: "(serve_step P H)\<^sup>*\<^sup>* v (v\<lparr>sv_sockets := l, sv_pc := Joining_http\<rparr>)"
      using sockets_run [OF l(1), of H] by simp
    have "closed_inv P H (v\<lparr>sv_sockets := l, sv_pc := Joining_http\<rparr>)"
      by (rule closed.inv_reachable [OF run inv])
    from http [OF this] run show ?thesis by (auto intro: rtranclp_trans)
  qed (use http [OF inv] in auto)
qed

end
