(* ===== verification/Start_Properties.thy ===== *)
theory Start_Properties
  imports Start
begin

text \<open>
  The properties of the command \<open>start\<close>.
\<close>

section \<open>Starting\<close>

text \<open>What a start does, in its order, and when it goes on: \<open>daemonize\<close> has to say so, the others not to throw.\<close>

definition start_actions ::
  "string \<Rightarrow> string \<Rightarrow> ('g, 'u, 'c, 'e) settings \<Rightarrow> bool \<Rightarrow> string option \<Rightarrow> ('g, 'u, 'e) start_action list" where
  "start_actions temp name s daemon pidfile =
     (if daemon then [Daemonize (ds_group (se_daemon s)) name (value_or pidfile (path_append temp name @ ''.pid''))
        (ds_user (se_daemon s))] else []) @
     [Open_store (se_home s), Listen_http (hs_cert (se_http s)) (hs_key (se_http s)) (hs_listen (se_http s)),
      Listen_sockets (se_server s)]"

fun goes_on :: "(('g, 'u, 'e) start_action \<Rightarrow> error + bool) \<Rightarrow> ('g, 'u, 'e) start_action \<Rightarrow> bool" where
  "goes_on env (Daemonize g n p u) = (env (Daemonize g n p u) = Inr True)"
| "goes_on env a = (\<exists>b. env a = Inr b)"

text \<open>A start performs its actions in order up to the first that does not go on: the daemon, the store, the
  HTTP servers, the socket servers.  It serves exactly when all of them go on, the process that has forked a
  daemon returns without touching the store, and without a pidfile option the pidfile is the program's in the
  temporary directory.\<close>

theorem start_in_order:
  assumes "load_file conf = Inr s"
  shows "(let todo = start_actions temp name s daemon pidfile;
      r = command_start env load_file temp name conf daemon pidfile in
    snd r = take (Suc (length (takeWhile (goes_on env) todo))) todo \<and>
    (fst r = Inr Serving) = list_all (goes_on env) todo \<and>
    (fst r = Inr Parent_returns) = (daemon \<and> env (hd todo) = Inr False))"
proof -
  let ?d = "Daemonize (ds_group (se_daemon s)) name (value_or pidfile (path_append temp name @ ''.pid'')) (ds_user (se_daemon s))"
  let ?http = "Listen_http (hs_cert (se_http s)) (hs_key (se_http s)) (hs_listen (se_http s))"
  note defs = command_start_def start_daemon_def start_actions_def default_pidfile_def try_start_def assms Let_def
  consider (fails) e where "env ?d = Inl e" | (parent) "env ?d = Inr False" | (child) "env ?d = Inr True"
    by (cases "env ?d") auto
  then show ?thesis
  proof cases
    case child
    then show ?thesis
      by (cases daemon; cases "env (Open_store (se_home s))"; cases "env ?http"; cases "env (Listen_sockets (se_server s))")
         (simp_all add: defs)
  next
    case parent
    then show ?thesis
      by (cases daemon; cases "env (Open_store (se_home s))"; cases "env ?http"; cases "env (Listen_sockets (se_server s))")
         (simp_all add: defs)
  next
    case fails
    then show ?thesis
      by (cases daemon; cases "env (Open_store (se_home s))"; cases "env ?http"; cases "env (Listen_sockets (se_server s))")
         (simp_all add: defs)
  qed
qed

text \<open>A configuration, and a machine on which everything works.\<close>

definition start_settings :: "(string, string, string, string) settings" where
  "start_settings = \<lparr>se_archive = default_archive, se_daemon = \<lparr>ds_group = ''fstore'', ds_user = ''fstore''\<rparr>,
     se_database = \<lparr>dbs_client = None, dbs_connection = ''dbname=fstore'', dbs_connections = 1, dbs_dump = None,
       dbs_restore = None, dbs_sqldir = ''/sql''\<rparr>,
     se_home = ''/srv'', se_http = \<lparr>hs_listen = [''localhost:80''], hs_cert = ''c'', hs_key = ''k''\<rparr>,
     se_server = [''/run/fstore'']\<rparr>"

theorem start_in_order_witness:
  "command_start (\<lambda>a. Inr False) (\<lambda>_. Inr start_settings) ''/tmp'' ''fstore'' ''fstore.yml'' True None =
     (Inr Parent_returns, [Daemonize ''fstore'' ''fstore'' ''/tmp/fstore.pid'' ''fstore''])"
  using start_in_order [of "\<lambda>_. Inr start_settings" "''fstore.yml''" start_settings "''/tmp''" "''fstore''" True None
      "\<lambda>a. Inr False"]
  by (simp add: start_actions_def start_settings_def value_or_def path_append_def Let_def prod_eq_iff)

section \<open>Stopping\<close>

text \<open>C40: The command does not return while a server is running, and after a signal it can always return: whatever
  further signals arrive and whatever the servers do, both lists come to their end and both joins succeed.\<close>

theorem server_stops:
  assumes "list_law P" and "list_law H" and v: "(serve_step P H)\<^sup>*\<^sup>* (serving_start l m) v"
  shows "(sv_pc v = Joined \<longrightarrow> ll_ended P (sv_sockets v) \<and> ll_ended H (sv_http v)) \<and>
    (\<forall>u. (serve_step P H)\<^sup>*\<^sup>* (handle_signal P H v) u \<longrightarrow>
      (\<exists>u'. (serve_step P H)\<^sup>*\<^sup>* u u' \<and> sv_pc u' = Joined))"
proof -
  have "joined_inv P H (serving_start l m)" using assms by (simp add: joined_inv_def serving_start_def)
  then have inv: "joined_inv P H v" by (rule joined.inv_reachable [OF v])
  then have signal: "closed_inv P H (handle_signal P H v)"
    using assms(1,2) by (auto simp: closed_inv_def joined_inv_def handle_signal_def list_law_def)
  have "\<exists>u'. (serve_step P H)\<^sup>*\<^sup>* u u' \<and> sv_pc u' = Joined" if "(serve_step P H)\<^sup>*\<^sup>* (handle_signal P H v) u" for u
    by (rule closed_join [OF closed.inv_reachable [OF that signal]])
  with inv show ?thesis by (auto simp: joined_inv_def)
qed

text \<open>A list that is open, closing or ended.\<close>

definition three_states :: "nat list_lib" where
  "three_states = \<lparr>ll_close = (\<lambda>l. if l = 2 then 2 else 1), ll_step = (\<lambda>l l'. l = 1 \<and> l' = 2), ll_closed = (\<lambda>l. l = 1 \<or> l = 2),
     ll_ended = (\<lambda>l. l = 2)\<rparr>"

lemma three_states_law: "list_law (three_states :: nat list_lib)"
proof -
  have "\<exists>l'. (ll_step three_states)\<^sup>*\<^sup>* l l' \<and> ll_ended three_states l'" if "l = 1 \<or> l = 2" for l
    using that by (intro exI [of _ 2]) (auto simp: three_states_def intro: r_into_rtranclp)
  then show ?thesis by (auto simp: list_law_def three_states_def)
qed

theorem server_stops_witness:
  "\<exists>u. (serve_step three_states three_states)\<^sup>*\<^sup>* \<lparr>sv_pc = Joining_sockets, sv_sockets = 1, sv_http = 1\<rparr> u \<and> sv_pc u = Joined"
  using server_stops [OF three_states_law three_states_law, of 0 0 "serving_start 0 0"]
  by (auto simp: handle_signal_def serving_start_def three_states_def)

end
