(* ===== verification/Program.thy ===== *)
theory Program
  imports Cli
begin

text \<open>
  The program's entry (\<open>src/fstore/main.cpp\<close>) and the options of its commands (\<open>src/fstore/options\<close>, the
  functions of \<open>src/fstore/commands\<close> that build a command).  A command is a node of a tree, as commline takes
  it: a name, a description, options, arguments, the function it runs and subcommands.  What commline makes of
  the words of a command line is its own; relied on is the shape of its calls: the function of a command is
  called with the value of each option and then of each argument, in the order they are declared.
\<close>

section \<open>Options and arguments\<close>

text \<open>The types of values, and values of them; \<open>'l\<close> is \<open>timber::level\<close>.\<close>

datatype value_type = Bool_type | Int_type | Text_type | Level_type | Optional_type | Texts_type

datatype 'l arg_value =
    Bool_value bool
  | Int_value int
  | Text_value string
  | Level_value 'l
  | Optional_value "string option"
  | Texts_value "string list"

fun type_of :: "'l arg_value \<Rightarrow> value_type" where
  "type_of (Bool_value _) = Bool_type"
| "type_of (Int_value _) = Int_type"
| "type_of (Text_value _) = Text_type"
| "type_of (Level_value _) = Level_type"
| "type_of (Optional_value _) = Optional_type"
| "type_of (Texts_value _) = Texts_type"

text \<open>An option: its short and its long name, what it is for, the name of its parameter, and the value it has when it
  is not given.\<close>

record 'l option_spec =
  op_short :: string
  op_long :: string
  op_about :: string
  op_parameter :: string
  op_default :: "'l arg_value"

definition flag :: "string \<Rightarrow> string \<Rightarrow> string \<Rightarrow> 'l option_spec" where
  "flag short long about = \<lparr>op_short = short, op_long = long, op_about = about, op_parameter = [],
     op_default = Bool_value False\<rparr>"

definition config_option :: "string \<Rightarrow> 'l option_spec" where
  "config_option confpath = \<lparr>op_short = ''c'', op_long = ''config'', op_about = ''Path to configuration file'',
     op_parameter = ''path'', op_default = Text_value confpath\<rparr>"

definition log_level_option :: "'l \<Rightarrow> 'l option_spec" where
  "log_level_option info = \<lparr>op_short = ''l'', op_long = ''log-level'', op_about = ''Minimum log level to display'',
     op_parameter = ''level'', op_default = Level_value info\<rparr>"

definition int_option :: "string \<Rightarrow> string \<Rightarrow> string \<Rightarrow> string \<Rightarrow> int \<Rightarrow> 'l option_spec" where
  "int_option short long about par n = \<lparr>op_short = short, op_long = long, op_about = about, op_parameter = par,
     op_default = Int_value n\<rparr>"

definition optional_option :: "string \<Rightarrow> string \<Rightarrow> string \<Rightarrow> string \<Rightarrow> 'l option_spec" where
  "optional_option short long about par = \<lparr>op_short = short, op_long = long, op_about = about, op_parameter = par,
     op_default = Optional_value None\<rparr>"

text \<open>\<open>commline::parser<timber::level>::parse\<close>: what \<open>timber::parse_level\<close> does not know is an error of the command line.\<close>

definition parse_log_level :: "(string \<Rightarrow> 'l option) \<Rightarrow> string \<Rightarrow> string + 'l" where
  "parse_log_level parse_level argument =
     (case parse_level argument of None \<Rightarrow> Inl (''unknown log level: '' @ argument) | Some l \<Rightarrow> Inr l)"

text \<open>Arguments by position.\<close>

datatype argument_spec = Required string | Optional_argument string | Variadic string

fun argument_type :: "argument_spec \<Rightarrow> value_type" where
  "argument_type (Required _) = Text_type"
| "argument_type (Optional_argument _) = Optional_type"
| "argument_type (Variadic _) = Texts_type"

section \<open>Commands\<close>

text \<open>The functions in the anonymous namespaces of the commands, and a call of one with its parameters.\<close>

datatype handler = H_main | H_archive | H_bucket | H_add | H_remove | H_rename | H_check | H_errors | H_init | H_migrate
  | H_prune | H_restore | H_start | H_status

datatype 'l call =
    Call_main bool
  | Call_archive string "string option" 'l
  | Call_bucket string
  | Call_add string string
  | Call_remove string string
  | Call_rename string string string
  | Call_check string int int bool 'l
  | Call_errors string
  | Call_init string bool
  | Call_migrate string 'l
  | Call_prune string
  | Call_restore string "string option" 'l "string option"
  | Call_start string bool "string option" 'l
  | Call_status string bool "string list"

text \<open>\<open>None\<close>: the values do not have the types of the parameters.\<close>

fun call_handler :: "handler \<Rightarrow> 'l arg_value list \<Rightarrow> 'l call option" where
  "call_handler H_main vs = (case vs of [Bool_value version] \<Rightarrow> Some (Call_main version) | _ \<Rightarrow> None)"
| "call_handler H_archive vs = (case vs of [Text_value c, Optional_value out, Level_value l] \<Rightarrow> Some (Call_archive c out l) | _ \<Rightarrow> None)"
| "call_handler H_bucket vs = (case vs of [Text_value c] \<Rightarrow> Some (Call_bucket c) | _ \<Rightarrow> None)"
| "call_handler H_add vs = (case vs of [Text_value c, Text_value name] \<Rightarrow> Some (Call_add c name) | _ \<Rightarrow> None)"
| "call_handler H_remove vs = (case vs of [Text_value c, Text_value name] \<Rightarrow> Some (Call_remove c name) | _ \<Rightarrow> None)"
| "call_handler H_rename vs = (case vs of [Text_value c, Text_value old, Text_value new] \<Rightarrow> Some (Call_rename c old new) | _ \<Rightarrow> None)"
| "call_handler H_check vs = (case vs of [Text_value c, Int_value batch, Int_value jobs, Bool_value silent, Level_value l] \<Rightarrow>
     Some (Call_check c batch jobs silent l) | _ \<Rightarrow> None)"
| "call_handler H_errors vs = (case vs of [Text_value c] \<Rightarrow> Some (Call_errors c) | _ \<Rightarrow> None)"
| "call_handler H_init vs = (case vs of [Text_value c, Bool_value overwrite] \<Rightarrow> Some (Call_init c overwrite) | _ \<Rightarrow> None)"
| "call_handler H_migrate vs = (case vs of [Text_value c, Level_value l] \<Rightarrow> Some (Call_migrate c l) | _ \<Rightarrow> None)"
| "call_handler H_prune vs = (case vs of [Text_value c] \<Rightarrow> Some (Call_prune c) | _ \<Rightarrow> None)"
| "call_handler H_restore vs = (case vs of [Text_value c, Optional_value user, Level_value l, Optional_value filename] \<Rightarrow>
     Some (Call_restore c user l filename) | _ \<Rightarrow> None)"
| "call_handler H_start vs = (case vs of [Text_value c, Bool_value daemon, Optional_value pidfile, Level_value l] \<Rightarrow>
     Some (Call_start c daemon pidfile l) | _ \<Rightarrow> None)"
| "call_handler H_status vs = (case vs of [Text_value c, Bool_value verbose, Texts_value names] \<Rightarrow>
     Some (Call_status c verbose names) | _ \<Rightarrow> None)"

datatype 'l command_node =
  Command (cn_name: string) (cn_about: string) (cn_options: "'l option_spec list") (cn_arguments: "argument_spec list")
    (cn_handler: handler) (cn_subs: "'l command_node list")

definition cmd_archive :: "'l \<Rightarrow> string \<Rightarrow> 'l command_node" where
  "cmd_archive info confpath = Command ''archive'' ''Create a backup of the database and object files''
     [config_option confpath, optional_option ''o'' ''output'' ''Send data to the specified directory'' ''directory'',
      log_level_option info] [] H_archive []"

definition cmd_add :: "string \<Rightarrow> 'l command_node" where
  "cmd_add confpath = Command ''add'' ''Create a new bucket'' [config_option confpath] [Required ''name''] H_add []"

definition cmd_remove :: "string \<Rightarrow> 'l command_node" where
  "cmd_remove confpath = Command ''remove'' ''Delete a bucket'' [config_option confpath] [Required ''name''] H_remove []"

definition cmd_rename :: "string \<Rightarrow> 'l command_node" where
  "cmd_rename confpath = Command ''rename'' ''Rename a bucket'' [config_option confpath]
     [Required ''old_name'', Required ''new_name''] H_rename []"

definition cmd_bucket :: "string \<Rightarrow> 'l command_node" where
  "cmd_bucket confpath = Command ''bucket'' ''List bucket information'' [config_option confpath] [] H_bucket
     [cmd_add confpath, cmd_remove confpath, cmd_rename confpath]"

definition cmd_check :: "'l \<Rightarrow> string \<Rightarrow> 'l command_node" where
  "cmd_check info confpath = Command ''check'' ''Check integrity of objects''
     [config_option confpath,
      int_option ''b'' ''batch-size'' ''Number of objects to fetch from the database at a time'' ''objects'' 500,
      int_option ''j'' ''jobs'' ''Number of jobs to run simultaneously'' ''jobs'' 1,
      flag ''q'' ''quiet'' ''Do not print progress'', log_level_option info] [] H_check []"

definition cmd_errors :: "string \<Rightarrow> 'l command_node" where
  "cmd_errors confpath = Command ''errors'' ''Get object errors'' [config_option confpath] [] H_errors []"

definition cmd_init :: "string \<Rightarrow> 'l command_node" where
  "cmd_init confpath = Command ''init'' ''Initialize the database''
     [config_option confpath, flag ''o'' ''overwrite'' ''Delete existing data if necessary''] [] H_init []"

definition cmd_migrate :: "'l \<Rightarrow> string \<Rightarrow> 'l command_node" where
  "cmd_migrate info confpath = Command ''migrate'' ''Update schemas to the current program version''
     [config_option confpath, log_level_option info] [] H_migrate []"

definition cmd_prune :: "string \<Rightarrow> 'l command_node" where
  "cmd_prune confpath = Command ''prune'' ''Remove any objects not referenced by a bucket'' [config_option confpath] []
     H_prune []"

definition cmd_restore :: "'l \<Rightarrow> string \<Rightarrow> 'l command_node" where
  "cmd_restore info confpath = Command ''restore'' ''Restore database data and object files from a backup''
     [config_option confpath, optional_option ''u'' ''user'' ''User name to connect as'' ''username'',
      log_level_option info] [Optional_argument ''filename''] H_restore []"

definition cmd_start :: "'l \<Rightarrow> string \<Rightarrow> 'l command_node" where
  "cmd_start info confpath = Command ''start'' ''Start the server''
     [config_option confpath, flag ''d'' ''daemon'' ''Run the program as a daemon'',
      optional_option ''p'' ''pidfile'' ''Path to the pidfile'' ''path'', log_level_option info] [] H_start []"

definition cmd_status :: "string \<Rightarrow> 'l command_node" where
  "cmd_status confpath = Command ''status'' ''Print information about the object store''
     [config_option confpath, flag ''v'' ''verbose'' ''Print information about all buckets''] [Variadic ''names'']
     H_status []"

section \<open>The program\<close>

definition default_config :: "string \<Rightarrow> string" where
  "default_config confdir = path_append confdir ''fstore.yml''"

text \<open>\<open>main\<close>: the application with its subcommands.\<close>

definition application :: "'l \<Rightarrow> string \<Rightarrow> string \<Rightarrow> string \<Rightarrow> 'l command_node" where
  "application info name about confdir =
     (let confpath = default_config confdir
      in Command name about [flag ''v'' ''version'' ''Print the program version information''] [] H_main
        [cmd_archive info confpath, cmd_bucket confpath, cmd_check info confpath, cmd_errors confpath, cmd_init confpath,
         cmd_migrate info confpath, cmd_prune confpath, cmd_restore info confpath, cmd_start info confpath,
         cmd_status confpath])"

text \<open>\<open>internal::main\<close>: the command without a subcommand prints the version when asked to, and nothing otherwise.\<close>

definition main_command :: "string \<Rightarrow> bool \<Rightarrow> string" where
  "main_command version_text version = (if version then version_text else [])"

text \<open>\<open>handle_error\<close>: what an exception that left a command says is logged.\<close>

definition handle_error :: "libs \<Rightarrow> error option \<Rightarrow> string list" where
  "handle_error L e = (case e of None \<Rightarrow> [] | Some e \<Rightarrow> [what L e])"

section \<open>Calling a command\<close>

text \<open>
  The values a command is called with: \<open>given\<close> is what the parser made of the command line for the option of a long
  name, if it is there.
\<close>

definition option_values :: "'l option_spec list \<Rightarrow> (string \<Rightarrow> 'l arg_value option) \<Rightarrow> 'l arg_value list" where
  "option_values specs given = map (\<lambda>s. case given (op_long s) of None \<Rightarrow> op_default s | Some v \<Rightarrow> v) specs"

definition run_command ::
  "'l command_node \<Rightarrow> (string \<Rightarrow> 'l arg_value option) \<Rightarrow> 'l arg_value list \<Rightarrow> 'l call option" where
  "run_command c given positional = call_handler (cn_handler c) (option_values (cn_options c) given @ positional)"

end
