(* ===== verification/Program_Properties.thy ===== *)
theory Program_Properties
  imports Program
begin

text \<open>
  The property of the command tree: the function of every command can be called with what is declared for it.
\<close>

text \<open>All commands, subcommands included.\<close>

fun nodes :: "'l command_node \<Rightarrow> 'l command_node list" where
  "nodes (Command n about os as h subs) = Command n about os as h subs # concat (map nodes subs)"

lemmas cmd_defs = cmd_archive_def cmd_bucket_def cmd_add_def cmd_remove_def cmd_rename_def cmd_check_def cmd_errors_def
  cmd_init_def cmd_migrate_def cmd_prune_def cmd_restore_def cmd_start_def cmd_status_def

lemmas option_defs = flag_def config_option_def log_level_option_def int_option_def optional_option_def

lemma type_of_eq:
  "type_of v = Bool_type \<longleftrightarrow> (\<exists>b. v = Bool_value b)" "type_of v = Int_type \<longleftrightarrow> (\<exists>i. v = Int_value i)"
  "type_of v = Text_type \<longleftrightarrow> (\<exists>s. v = Text_value s)" "type_of v = Level_type \<longleftrightarrow> (\<exists>l. v = Level_value l)"
  "type_of v = Optional_type \<longleftrightarrow> (\<exists>z. v = Optional_value z)" "type_of v = Texts_type \<longleftrightarrow> (\<exists>z. v = Texts_value z)"
  by (cases v; simp)+

text \<open>The types a function is called with decide whether it can be called.\<close>

fun parameters :: "handler \<Rightarrow> value_type list" where
  "parameters H_main = [Bool_type]"
| "parameters H_archive = [Text_type, Optional_type, Level_type]"
| "parameters H_bucket = [Text_type]"
| "parameters H_add = [Text_type, Text_type]"
| "parameters H_remove = [Text_type, Text_type]"
| "parameters H_rename = [Text_type, Text_type, Text_type]"
| "parameters H_check = [Text_type, Int_type, Int_type, Bool_type, Level_type]"
| "parameters H_errors = [Text_type]"
| "parameters H_init = [Text_type, Bool_type]"
| "parameters H_migrate = [Text_type, Level_type]"
| "parameters H_prune = [Text_type]"
| "parameters H_restore = [Text_type, Optional_type, Level_type, Optional_type]"
| "parameters H_start = [Text_type, Bool_type, Optional_type, Level_type]"
| "parameters H_status = [Text_type, Bool_type, Texts_type]"

lemma callable: "map type_of vs = parameters h \<Longrightarrow> call_handler h vs \<noteq> None"
  by (cases h) (auto simp: map_eq_Cons_conv type_of_eq)

lemma option_types:
  assumes "\<And>s v. s \<in> set specs \<Longrightarrow> given (op_long s) = Some v \<Longrightarrow> type_of v = type_of (op_default s)"
  shows "map type_of (option_values specs given) = map (\<lambda>s. type_of (op_default s)) specs"
  using assms by (auto simp: option_values_def split: option.split)

lemma declared:
  "\<forall>c \<in> set (nodes (application info name about confdir)).
     map (\<lambda>s. type_of (op_default s)) (cn_options c) @ map argument_type (cn_arguments c) = parameters (cn_handler c)"
  by (simp add: application_def Let_def cmd_defs option_defs)

lemma names_distinct:
  "\<forall>c \<in> set (nodes (application info name about confdir)).
     distinct (map op_short (cn_options c) @ map op_long (cn_options c)) \<and> distinct (map cn_name (cn_subs c))"
  by (simp add: application_def Let_def cmd_defs option_defs)

text \<open>The command tree is well formed: the function of every command is called with values of its parameters'
  types, in their order, whatever options are given; no two options of a command and no two subcommands share
  a name; and without options \<open>check\<close> reads batches of 500 objects with one job and prints its progress, with
  the configuration \<open>fstore.yml\<close> of the directory the program was built for.\<close>

theorem commands_well_typed:
  assumes c: "c \<in> set (nodes (application info name about confdir))"
    and given: "\<And>s v. s \<in> set (cn_options c) \<Longrightarrow> given (op_long s) = Some v \<Longrightarrow> type_of v = type_of (op_default s)"
    and positional: "map type_of vs = map argument_type (cn_arguments c)"
  shows "run_command c given vs \<noteq> None \<and>
    distinct (map op_short (cn_options c) @ map op_long (cn_options c)) \<and> distinct (map cn_name (cn_subs c)) \<and>
    run_command (cmd_check info (default_config confdir)) (\<lambda>_. None) [] =
      Some (Call_check (path_append confdir ''fstore.yml'') 500 1 False info)"
proof -
  have "map type_of (option_values (cn_options c) given @ vs) = parameters (cn_handler c)"
    using option_types [of "cn_options c" given, OF given] positional bspec [OF declared c] by simp
  then have "run_command c given vs \<noteq> None" unfolding run_command_def by (rule callable)
  with bspec [OF names_distinct c] show ?thesis
    by (simp add: run_command_def option_values_def cmd_check_def option_defs default_config_def)
qed

theorem commands_well_typed_witness:
  "run_command (cmd_rename ''/etc/fstore.yml'') (\<lambda>_. None) [Text_value ''a'', Text_value ''b''] \<noteq> (None :: nat call option)"
proof -
  have c: "cmd_rename (default_config ''/etc'') \<in> set (nodes (application (2::nat) ''fstore'' [] ''/etc''))"
    by (simp add: application_def Let_def cmd_bucket_def cmd_rename_def)
  have "default_config ''/etc'' = ''/etc/fstore.yml''" by (simp add: default_config_def path_append_def)
  with commands_well_typed [OF c, of "\<lambda>_. None" "[Text_value ''a'', Text_value ''b'']"] show ?thesis
    by (simp add: cmd_rename_def)
qed

end
