(* ===== verification/Interfaces.thy ===== *)
theory Interfaces
  imports Object_Store
begin

text \<open>
  The classes the object store is written against (\<open>connection.hpp\<close>, \<open>database.hpp\<close>, \<open>filesystem.hpp\<close> under
  \<open>include/internal/core\<close>) as records of their methods, whose methods are virtual in the build of the tests;
  the classes that implement them, the wrapper and the doubles included; and the object store over any such
  implementation (\<open>include/internal/core/object_store.hpp\<close>).  A method takes the state of whatever is behind
  it and returns its result or exception with the state it leaves.
\<close>

type_synonym ('w, 'a) virtual_fn = "'w \<Rightarrow> (error, 'a, 'w) outcome"

section \<open>The interfaces\<close>

record 'w connection_class =
  cn_add_object :: "uuid \<Rightarrow> uuid \<Rightarrow> string \<Rightarrow> int64 \<Rightarrow> string \<Rightarrow> string \<Rightarrow> ('w, db_object) virtual_fn"
  cn_begin :: "('w, unit) virtual_fn"
  cn_create_bucket :: "string \<Rightarrow> ('w, db_bucket) virtual_fn"
  cn_fetch_bucket :: "string \<Rightarrow> ('w, db_bucket) virtual_fn"
  cn_fetch_buckets_all :: "('w, db_bucket list) virtual_fn"
  cn_fetch_buckets :: "string list \<Rightarrow> ('w, db_bucket list) virtual_fn"
  cn_fetch_store_totals :: "('w, db_store_totals) virtual_fn"
  cn_get_errors :: "('w, object_error list) virtual_fn"
  cn_get_object :: "uuid \<Rightarrow> uuid \<Rightarrow> ('w, db_object) virtual_fn"
  cn_get_objects :: "string \<Rightarrow> int \<Rightarrow> ('w, db_object list list) virtual_fn"
  cn_remove_bucket :: "uuid \<Rightarrow> ('w, unit) virtual_fn"
  cn_remove_object :: "uuid \<Rightarrow> uuid \<Rightarrow> ('w, db_object) virtual_fn"
  cn_remove_objects :: "uuid \<Rightarrow> uuid list \<Rightarrow> ('w, db_remove_result) virtual_fn"
  cn_remove_orphan_objects :: "('w, db_object list) virtual_fn"
  cn_rename_bucket :: "uuid \<Rightarrow> string \<Rightarrow> ('w, unit) virtual_fn"
  cn_update_object_errors :: "object_error list \<Rightarrow> ('w, unit) virtual_fn"

record 'w database_class =
  dc_connect :: "('w, 'w connection_class) virtual_fn"

text \<open>An \<open>std::ofstream\<close> just opened: its path, and whether opening succeeded.\<close>

record 'w filesystem_class =
  fc_objects :: path
  fc_parts :: path
  fc_create_directories :: "path \<Rightarrow> ('w, unit) virtual_fn"
  fc_make_object_with :: "string \<Rightarrow> (path \<Rightarrow> ('w, unit) virtual_fn) \<Rightarrow> ('w, unit) virtual_fn"
  fc_copy :: "path \<Rightarrow> string \<Rightarrow> ('w, unit) virtual_fn"
  fc_get_part :: "string \<Rightarrow> ('w, path \<times> bool) virtual_fn"
  fc_hash_buffer :: "blob \<Rightarrow> ('w, string) virtual_fn"
  fc_hash :: "path \<Rightarrow> ('w, string) virtual_fn"
  fc_make_object :: "string \<Rightarrow> ('w, unit) virtual_fn"
  fc_mime_type :: "path \<Rightarrow> ('w, mime) virtual_fn"
  fc_object_path :: "string \<Rightarrow> ('w, path) virtual_fn"
  fc_open :: "string \<Rightarrow> ('w, blob) virtual_fn"
  fc_part_path :: "string \<Rightarrow> ('w, path) virtual_fn"
  fc_remove :: "string \<Rightarrow> ('w, unit) virtual_fn"
  fc_remove_part :: "string \<Rightarrow> ('w, unit) virtual_fn"
  fc_size :: "path \<Rightarrow> ('w, uint64) virtual_fn"
  fc_sync :: "string \<Rightarrow> string list \<Rightarrow> string \<Rightarrow> ('w, unit) virtual_fn"

section \<open>Implementations\<close>

text \<open>
  The connection over a client of the pool.  The time and the id the database generates are arguments, and so
  is how a portal cuts the rows of a statement into batches of a size.
\<close>

record database_env =
  dv_libs :: libs
  dv_new_id :: uuid
  dv_now :: time_point
  dv_cut :: "int \<Rightarrow> db_object list \<Rightarrow> db_object list list"

definition connection_get_objects ::
  "database_env \<Rightarrow> client \<Rightarrow> string \<Rightarrow> int \<Rightarrow> database \<Rightarrow> (error, db_object list list, database) outcome" where
  "connection_get_objects V c portal batch_size db =
     and_then (execute c ''get_objects'' (reading (\<lambda>db. Inr (sql_get_objects db))) db)
       (\<lambda>rows db. (Inr (dv_cut V batch_size rows), db))"

definition connection_new :: "database_env \<Rightarrow> client \<Rightarrow> world connection_class" where
  "connection_new V c = (let L = dv_libs V in
     \<lparr>cn_add_object = (\<lambda>b i hash size ty sub. on_db (connection_add_object L c b i hash size ty sub (dv_now V))),
      cn_begin = (\<lambda>w. (Inr (), w)),
      cn_create_bucket = (\<lambda>name. on_db (connection_create_bucket L c (dv_new_id V) (dv_now V) name)),
      cn_fetch_bucket = (\<lambda>name. on_db (connection_fetch_bucket L c name)),
      cn_fetch_buckets_all = on_db (connection_fetch_buckets_all c),
      cn_fetch_buckets = (\<lambda>names. on_db (connection_fetch_buckets c names)),
      cn_fetch_store_totals = on_db (connection_fetch_store_totals L c),
      cn_get_errors = on_db (connection_get_errors c),
      cn_get_object = (\<lambda>b x. on_db (connection_get_object L c b x)),
      cn_get_objects = (\<lambda>portal n. on_db (connection_get_objects V c portal n)),
      cn_remove_bucket = (\<lambda>b. on_db (connection_remove_bucket c b)),
      cn_remove_object = (\<lambda>b x. on_db (connection_remove_object L c b x)),
      cn_remove_objects = (\<lambda>b xs. on_db (connection_remove_objects L c b xs)),
      cn_remove_orphan_objects = on_db (connection_remove_orphan_objects c),
      cn_rename_bucket = (\<lambda>b name. on_db (connection_rename_bucket c b name)),
      cn_update_object_errors = (\<lambda>records. on_db (connection_update_object_errors c records))\<rparr>)"

text \<open>\<open>connection_wrapper\<close> passes every call on to the connection it holds.\<close>

definition connection_wrapper :: "'w connection_class \<Rightarrow> 'w connection_class" where
  "connection_wrapper inner =
     \<lparr>cn_add_object = (\<lambda>b i hash size ty sub. cn_add_object inner b i hash size ty sub),
      cn_begin = cn_begin inner,
      cn_create_bucket = (\<lambda>name. cn_create_bucket inner name),
      cn_fetch_bucket = (\<lambda>name. cn_fetch_bucket inner name),
      cn_fetch_buckets_all = cn_fetch_buckets_all inner,
      cn_fetch_buckets = (\<lambda>names. cn_fetch_buckets inner names),
      cn_fetch_store_totals = cn_fetch_store_totals inner,
      cn_get_errors = cn_get_errors inner,
      cn_get_object = (\<lambda>b x. cn_get_object inner b x),
      cn_get_objects = (\<lambda>portal n. cn_get_objects inner portal n),
      cn_remove_bucket = (\<lambda>b. cn_remove_bucket inner b),
      cn_remove_object = (\<lambda>b x. cn_remove_object inner b x),
      cn_remove_objects = (\<lambda>b xs. cn_remove_objects inner b xs),
      cn_remove_orphan_objects = cn_remove_orphan_objects inner,
      cn_rename_bucket = (\<lambda>b name. cn_rename_bucket inner b name),
      cn_update_object_errors = (\<lambda>records. cn_update_object_errors inner records)\<rparr>"

text \<open>
  \<open>database::connect\<close>: a connection over a client checked out of the pool, which may fail; in the build of
  the tests it is wrapped.
\<close>

definition database_connect ::
  "database_env \<Rightarrow> (world, client) virtual_fn \<Rightarrow> (world, world connection_class) virtual_fn" where
  "database_connect V checkout w = and_then (checkout w) (\<lambda>c w. (Inr (connection_new V c), w))"

definition database_connect_test ::
  "database_env \<Rightarrow> (world, client) virtual_fn \<Rightarrow> (world, world connection_class) virtual_fn" where
  "database_connect_test V checkout w =
     and_then (checkout w) (\<lambda>c w. (Inr (connection_wrapper (connection_new V c)), w))"

text \<open>A stream opened for appending.\<close>

definition open_part :: "path \<Rightarrow> (disk, path \<times> bool) virtual_fn" where
  "open_part p d = (case open_append p d of (ok, d') \<Rightarrow> (Inr (p, ok), d'))"

text \<open>The class \<open>filesystem\<close>; \<open>wait_exec\<close> runs a program and \<open>str\<close> is the text of a path.\<close>

definition filesystem_class_of ::
  "libs \<Rightarrow> (string \<Rightarrow> string list \<Rightarrow> exit_info) \<Rightarrow> (path \<Rightarrow> string) \<Rightarrow> filesystem \<Rightarrow> world filesystem_class" where
  "filesystem_class_of L wait_exec str fs =
     \<lparr>fc_objects = fs_objects fs,
      fc_parts = fs_parts fs,
      fc_create_directories = (\<lambda>p. on_disk (create_directories p)),
      fc_make_object_with = (\<lambda>i action w. and_then (from_disk (\<lambda>_. object_path fs i) w) (\<lambda>p w.
         and_then (on_disk (create_directories (butlast p)) w) (\<lambda>_ w.
         and_then (action p w) (\<lambda>_. on_disk (std_permissions p object_permissions))))),
      fc_copy = (\<lambda>src i. on_disk (copy_object fs src i)),
      fc_get_part = (\<lambda>i. on_disk (open_part (part_path fs i))),
      fc_hash_buffer = (\<lambda>buffer w. (Inr (hash_buffer L buffer), w)),
      fc_hash = (\<lambda>p. from_disk (\<lambda>d. hash_file L d p)),
      fc_make_object = (\<lambda>i. on_disk (make_object fs i)),
      fc_mime_type = (\<lambda>p. from_disk (\<lambda>d. file_mime_type L d p)),
      fc_object_path = (\<lambda>i. from_disk (\<lambda>_. object_path fs i)),
      fc_open = (\<lambda>i. from_disk (open_object fs i)),
      fc_part_path = (\<lambda>i w. (Inr (part_path fs i), w)),
      fc_remove = (\<lambda>i. on_disk (remove_object_file fs i)),
      fc_remove_part = (\<lambda>i. on_disk (remove_part fs i)),
      fc_size = (\<lambda>p. from_disk (\<lambda>d. file_size d p)),
      fc_sync = (\<lambda>program options dest. from_disk (\<lambda>_. sync wait_exec (str (fs_objects fs)) program options dest))\<rparr>"

text \<open>
  The double of the filesystem: the default constructor leaves both paths empty, the two private methods are
  inherited (here \<open>base\<close>), and every public method is what the test expects of it (\<open>expected\<close>).
\<close>

definition mock_filesystem :: "'w filesystem_class \<Rightarrow> 'w filesystem_class \<Rightarrow> 'w filesystem_class" where
  "mock_filesystem base expected =
     \<lparr>fc_objects = [], fc_parts = [],
      fc_create_directories = fc_create_directories base,
      fc_make_object_with = fc_make_object_with base,
      fc_copy = (\<lambda>src i. fc_copy expected src i),
      fc_get_part = (\<lambda>i. fc_get_part expected i),
      fc_hash_buffer = (\<lambda>buffer. fc_hash_buffer expected buffer),
      fc_hash = (\<lambda>p. fc_hash expected p),
      fc_make_object = (\<lambda>i. fc_make_object expected i),
      fc_mime_type = (\<lambda>p. fc_mime_type expected p),
      fc_object_path = (\<lambda>i. fc_object_path expected i),
      fc_open = (\<lambda>i. fc_open expected i),
      fc_part_path = (\<lambda>i. fc_part_path expected i),
      fc_remove = (\<lambda>i. fc_remove expected i),
      fc_remove_part = (\<lambda>i. fc_remove_part expected i),
      fc_size = (\<lambda>p. fc_size expected p),
      fc_sync = (\<lambda>program options dest. fc_sync expected program options dest)\<rparr>"

text \<open>The double of the connection, whose \<open>begin\<close> returns an empty transaction, and of the database.\<close>

definition mock_connection :: "'w connection_class \<Rightarrow> 'w connection_class" where
  "mock_connection expected = expected\<lparr>cn_begin := (\<lambda>w. (Inr (), w))\<rparr>"

definition test_database :: "'w connection_class \<Rightarrow> 'w database_class" where
  "test_database connection = \<lparr>dc_connect = (\<lambda>w. (Inr (connection_wrapper connection), w))\<rparr>"

section \<open>The object store over its interfaces\<close>

text \<open>The members of the class; \<open>sc_generate_uuid\<close> is what the generator returns.\<close>

record 'w store_class =
  sc_database :: "'w database_class"
  sc_filesystem :: "'w filesystem_class"
  sc_generate_uuid :: uuid

text \<open>The constructors: the generator given, or the random one.\<close>

definition object_store_with :: "'w database_class \<Rightarrow> 'w filesystem_class \<Rightarrow> uuid \<Rightarrow> 'w store_class" where
  "object_store_with db fs generated = \<lparr>sc_database = db, sc_filesystem = fs, sc_generate_uuid = generated\<rparr>"

definition with_connection :: "'w store_class \<Rightarrow> ('w connection_class \<Rightarrow> ('w, 'a) virtual_fn) \<Rightarrow> ('w, 'a) virtual_fn" where
  "with_connection S f w = and_then (dc_connect (sc_database S) w) f"

definition mapped :: "('a \<Rightarrow> 'b) \<Rightarrow> (error, 'a, 'w) outcome \<Rightarrow> (error, 'b, 'w) outcome" where
  "mapped g r = and_then r (\<lambda>x w. (Inr (g x), w))"

definition os_commit_part :: "libs \<Rightarrow> 'w store_class \<Rightarrow> uuid \<Rightarrow> uuid \<Rightarrow> ('w, object) virtual_fn" where
  "os_commit_part L S b i = with_connection S (\<lambda>db w. let fs = sc_filesystem S in
     and_then (fc_part_path fs (uuid_text L i) w) (\<lambda>part w.
     and_then (fc_mime_type fs part w) (\<lambda>mime w.
     and_then (fc_hash fs part w) (\<lambda>hash w.
     and_then (fc_size fs part w) (\<lambda>size w.
     and_then (cn_add_object db b i hash (sint size) (m_type mime) (m_subtype mime) w) (\<lambda>obj w.
     and_then (if db_o_id obj \<noteq> i then fc_remove_part fs (uuid_text L i) w
               else fc_make_object fs (uuid_text L i) w) (\<lambda>_ w.
     (Inr (to_object obj), w))))))))"

definition os_create_bucket :: "libs \<Rightarrow> 'w store_class \<Rightarrow> string \<Rightarrow> ('w, bucket) virtual_fn" where
  "os_create_bucket L S name = with_connection S (\<lambda>db w.
     case process_bucket_name L name of
       Inl e \<Rightarrow> (Inl e, w)
     | Inr n \<Rightarrow> mapped to_bucket (cn_create_bucket db n w))"

definition os_fetch_bucket :: "'w store_class \<Rightarrow> string \<Rightarrow> ('w, bucket) virtual_fn" where
  "os_fetch_bucket S name = with_connection S (\<lambda>db w. mapped to_bucket (cn_fetch_bucket db name w))"

definition os_fetch_buckets_all :: "'w store_class \<Rightarrow> ('w, bucket list) virtual_fn" where
  "os_fetch_buckets_all S = with_connection S (\<lambda>db w. mapped (map to_bucket) (cn_fetch_buckets_all db w))"

definition os_fetch_buckets :: "'w store_class \<Rightarrow> string list \<Rightarrow> ('w, bucket list) virtual_fn" where
  "os_fetch_buckets S names = with_connection S (\<lambda>db w. mapped (map to_bucket) (cn_fetch_buckets db names w))"

definition os_fetch_store_totals :: "'w store_class \<Rightarrow> ('w, store_totals) virtual_fn" where
  "os_fetch_store_totals S = with_connection S (\<lambda>db w. mapped to_store_totals (cn_fetch_store_totals db w))"

definition os_get_errors :: "'w store_class \<Rightarrow> ('w, object_error list) virtual_fn" where
  "os_get_errors S = with_connection S (\<lambda>db. cn_get_errors db)"

definition os_get_object_metadata :: "'w store_class \<Rightarrow> uuid \<Rightarrow> uuid \<Rightarrow> ('w, object) virtual_fn" where
  "os_get_object_metadata S b x = with_connection S (\<lambda>db w. mapped to_object (cn_get_object db b x w))"

definition os_get_object :: "libs \<Rightarrow> 'w store_class \<Rightarrow> uuid \<Rightarrow> uuid \<Rightarrow> ('w, object \<times> blob) virtual_fn" where
  "os_get_object L S b x w = and_then (os_get_object_metadata S b x w) (\<lambda>meta w.
     and_then (fc_open (sc_filesystem S) (uuid_text L x) w) (\<lambda>fd w. (Inr (meta, fd), w)))"

definition os_get_part :: "libs \<Rightarrow> 'w store_class \<Rightarrow> uuid option \<Rightarrow> ('w, part) virtual_fn" where
  "os_get_part L S part_id w = (let i = (case part_id of Some u \<Rightarrow> u | None \<Rightarrow> sc_generate_uuid S) in
     and_then (fc_get_part (sc_filesystem S) (uuid_text L i) w) (\<lambda>(p, ok) w.
       (Inr \<lparr>pt_id = i, pt_path = p, pt_good = ok, pt_buffer = []\<rparr>, w)))"

fun os_remove_files :: "libs \<Rightarrow> 'w filesystem_class \<Rightarrow> db_object list \<Rightarrow> ('w, unit) virtual_fn" where
  "os_remove_files L fs [] w = (Inr (), w)"
| "os_remove_files L fs (x # xs) w =
     and_then (fc_remove fs (uuid_text L (db_o_id x)) w) (\<lambda>_ w. os_remove_files L fs xs w)"

definition os_prune :: "libs \<Rightarrow> 'w store_class \<Rightarrow> ('w, object list) virtual_fn" where
  "os_prune L S = with_connection S (\<lambda>db w.
     and_then (cn_remove_orphan_objects db w) (\<lambda>orphans w.
     and_then (os_remove_files L (sc_filesystem S) orphans w) (\<lambda>_ w.
     (Inr (map to_object orphans), w))))"

definition os_remove_bucket :: "'w store_class \<Rightarrow> uuid \<Rightarrow> ('w, unit) virtual_fn" where
  "os_remove_bucket S b = with_connection S (\<lambda>db. cn_remove_bucket db b)"

definition os_remove_object :: "'w store_class \<Rightarrow> uuid \<Rightarrow> uuid \<Rightarrow> ('w, object) virtual_fn" where
  "os_remove_object S b x = with_connection S (\<lambda>db w. mapped to_object (cn_remove_object db b x w))"

definition os_remove_objects :: "'w store_class \<Rightarrow> uuid \<Rightarrow> uuid list \<Rightarrow> ('w, remove_result) virtual_fn" where
  "os_remove_objects S b xs = with_connection S (\<lambda>db w. mapped to_remove_result (cn_remove_objects db b xs w))"

definition os_rename_bucket :: "libs \<Rightarrow> 'w store_class \<Rightarrow> uuid \<Rightarrow> string \<Rightarrow> ('w, unit) virtual_fn" where
  "os_rename_bucket L S b name = with_connection S (\<lambda>db w.
     case process_bucket_name L name of
       Inl e \<Rightarrow> (Inl e, w)
     | Inr n \<Rightarrow> cn_rename_bucket db b n w)"

end
