(* ===== verification/Interface_Laws.thy ===== *)
theory Interface_Laws
  imports Interfaces Sample
begin

text \<open>
  The object store over its interfaces is the object store of the model: over the real connection and
  filesystem, in either build, every operation is the one of \<open>Object_Store\<close>.  What holds over every
  implementation whose \<open>connect\<close> succeeds is proved once, in the locale \<open>connected_store\<close>; the unit tests of
  \<open>src/libcore/functions\<close> are instances of it over their doubles.
\<close>

section \<open>Method results\<close>

lemma mapped_simps [simp]:
  "mapped g (Inl e, w) = (Inl e, w)" "mapped g (Inr x, w) = (Inr (g x), w)"
  by (simp_all add: mapped_def)

lemma mapped_returning [simp]: "mapped g r = returning g r"
  by (simp add: mapped_def returning_def)

text \<open>Every method of the wrapper is the wrapped one.\<close>

lemma connection_wrapper_forwards [simp]: "connection_wrapper c = c"
  by (cases c) (simp add: connection_wrapper_def)

lemma with_connection_connected:
  "dc_connect (sc_database S) w = (Inr c, w') \<Longrightarrow> with_connection S f w = f c w'"
  by (simp add: with_connection_def)

lemma with_connection_fails:
  "dc_connect (sc_database S) w = (Inl e, w') \<Longrightarrow> with_connection S f w = (Inl e, w')"
  by (simp add: with_connection_def)

lemmas os_defs = os_commit_part_def os_create_bucket_def os_fetch_bucket_def os_fetch_buckets_all_def
  os_fetch_buckets_def os_fetch_store_totals_def os_get_errors_def os_get_object_metadata_def
  os_prune_def os_remove_bucket_def os_remove_object_def os_remove_objects_def os_rename_bucket_def

section \<open>Without a connection\<close>

text \<open>
  When no connection can be had, every operation that needs the database ends with that exception and does
  nothing else; creating and renaming connect before they look at the name.
\<close>

lemma no_connection:
  assumes "dc_connect (sc_database S) w = (Inl e, w')"
  shows "os_commit_part L S b i w = (Inl e, w')" "os_create_bucket L S name w = (Inl e, w')"
    "os_fetch_bucket S name w = (Inl e, w')" "os_fetch_buckets_all S w = (Inl e, w')"
    "os_fetch_buckets S names w = (Inl e, w')" "os_fetch_store_totals S w = (Inl e, w')"
    "os_get_errors S w = (Inl e, w')" "os_get_object_metadata S b x w = (Inl e, w')"
    "os_get_object L S b x w = (Inl e, w')" "os_prune L S w = (Inl e, w')"
    "os_remove_bucket S b w = (Inl e, w')" "os_remove_object S b x w = (Inl e, w')"
    "os_remove_objects S b xs w = (Inl e, w')" "os_rename_bucket L S b name w = (Inl e, w')"
  by (simp_all add: os_get_object_def os_defs with_connection_fails [OF assms])

section \<open>With a connection\<close>

locale connected_store =
  fixes S :: "'w store_class" and c :: "'w connection_class"
  assumes connects: "dc_connect (sc_database S) w = (Inr c, w)"
begin

lemma with_connection_eq [simp]: "with_connection S f w = f c w"
  by (rule with_connection_connected [OF connects])

lemma create_named:
  assumes "process_bucket_name L name = Inr n" and "cn_create_bucket c n w = (Inr b, w')"
  shows "os_create_bucket L S name w = (Inr (to_bucket b), w')"
  using assms by (simp add: os_create_bucket_def)

lemma create_refused:
  assumes "process_bucket_name L name = Inl e"
  shows "os_create_bucket L S name w = (Inl e, w)"
  using assms by (simp add: os_create_bucket_def)

lemma rename_named:
  assumes "process_bucket_name L name = Inr n"
  shows "os_rename_bucket L S b name w = cn_rename_bucket c b n w"
  using assms by (simp add: os_rename_bucket_def)

lemma rename_refused:
  assumes "process_bucket_name L name = Inl e"
  shows "os_rename_bucket L S b name w = (Inl e, w)"
  using assms by (simp add: os_rename_bucket_def)

end

text \<open>The real classes, over a pool that has a client; \<open>test\<close> is the build of the tests.\<close>

definition pool_checkout :: "(world, client) virtual_fn" where
  "pool_checkout w = (Inr connect, w)"

definition real_store ::
  "bool \<Rightarrow> database_env \<Rightarrow> (string \<Rightarrow> string list \<Rightarrow> exit_info) \<Rightarrow> (path \<Rightarrow> string) \<Rightarrow> filesystem \<Rightarrow> uuid \<Rightarrow>
     world store_class" where
  "real_store test V wait_exec str fs generated = object_store_with
     \<lparr>dc_connect = (if test then database_connect_test V pool_checkout else database_connect V pool_checkout)\<rparr>
     (filesystem_class_of (dv_libs V) wait_exec str fs) generated"

interpretation real: connected_store "real_store test V wait_exec str fs generated" "connection_new V connect"
  for test V wait_exec str fs generated
  by unfold_locales
    (simp add: real_store_def object_store_with_def database_connect_def database_connect_test_def pool_checkout_def)

interpretation doubles: connected_store "object_store_with (test_database (mock_connection m)) fs generated"
    "mock_connection m" for m :: "'w connection_class" and fs generated
  by unfold_locales (simp add: test_database_def object_store_with_def)

section \<open>The store of the model\<close>

lemma connection_new_simps [simp]:
  "cn_add_object (connection_new V c) b i h n ty sub =
     on_db (connection_add_object (dv_libs V) c b i h n ty sub (dv_now V))"
  "cn_create_bucket (connection_new V c) name = on_db (connection_create_bucket (dv_libs V) c (dv_new_id V) (dv_now V) name)"
  "cn_fetch_bucket (connection_new V c) name = on_db (connection_fetch_bucket (dv_libs V) c name)"
  "cn_fetch_buckets_all (connection_new V c) = on_db (connection_fetch_buckets_all c)"
  "cn_fetch_buckets (connection_new V c) names = on_db (connection_fetch_buckets c names)"
  "cn_fetch_store_totals (connection_new V c) = on_db (connection_fetch_store_totals (dv_libs V) c)"
  "cn_get_errors (connection_new V c) = on_db (connection_get_errors c)"
  "cn_get_object (connection_new V c) b x = on_db (connection_get_object (dv_libs V) c b x)"
  "cn_remove_bucket (connection_new V c) b = on_db (connection_remove_bucket c b)"
  "cn_remove_object (connection_new V c) b x = on_db (connection_remove_object (dv_libs V) c b x)"
  "cn_remove_objects (connection_new V c) b xs = on_db (connection_remove_objects (dv_libs V) c b xs)"
  "cn_remove_orphan_objects (connection_new V c) = on_db (connection_remove_orphan_objects c)"
  "cn_rename_bucket (connection_new V c) b name = on_db (connection_rename_bucket c b name)"
  by (simp_all add: connection_new_def Let_def)

lemma real_store_simps [simp]:
  "sc_filesystem (real_store test V wait_exec str fs generated) = filesystem_class_of (dv_libs V) wait_exec str fs"
  "sc_generate_uuid (real_store test V wait_exec str fs generated) = generated"
  by (simp_all add: real_store_def object_store_with_def)

lemma filesystem_class_simps [simp]:
  "fc_get_part (filesystem_class_of L wait_exec str fs) i = on_disk (open_part (part_path fs i))"
  "fc_hash (filesystem_class_of L wait_exec str fs) p = from_disk (\<lambda>d. hash_file L d p)"
  "fc_make_object (filesystem_class_of L wait_exec str fs) i = on_disk (make_object fs i)"
  "fc_mime_type (filesystem_class_of L wait_exec str fs) p = from_disk (\<lambda>d. file_mime_type L d p)"
  "fc_open (filesystem_class_of L wait_exec str fs) i = from_disk (open_object fs i)"
  "fc_part_path (filesystem_class_of L wait_exec str fs) i w = (Inr (part_path fs i), w)"
  "fc_remove (filesystem_class_of L wait_exec str fs) i = on_disk (remove_object_file fs i)"
  "fc_remove_part (filesystem_class_of L wait_exec str fs) i = on_disk (remove_part fs i)"
  "fc_size (filesystem_class_of L wait_exec str fs) p = from_disk (\<lambda>d. file_size d p)"
  by (simp_all add: filesystem_class_of_def)

text \<open>The private \<open>make_object\<close> of the interface is the one \<open>make_object\<close> and \<open>copy\<close> use.\<close>

lemma make_object_with_real:
  "fc_make_object_with (filesystem_class_of L wait_exec str fs) i (\<lambda>p. on_disk (action p)) w =
     on_disk (make_object_with fs i action) w"
  by (cases "object_path fs i"; cases "create_directories (butlast (the_Inr (object_path fs i))) (w_disk w)")
     (auto simp: filesystem_class_of_def on_disk_def from_disk_def make_object_with_def and_then_def
       split: prod.split sum.split)

lemma os_remove_files_real:
  "os_remove_files L (filesystem_class_of M wait_exec str fs) xs w = on_disk (remove_files L fs xs) w"
proof (induction xs arbitrary: w)
  case (Cons x xs)
  show ?case
    by (cases "remove_object_file fs (uuid_text L (db_o_id x)) (w_disk w)"; cases "fst (remove_object_file fs (uuid_text L (db_o_id x)) (w_disk w))")
       (auto simp: Cons.IH on_disk_def split: prod.split)
qed (simp add: on_disk_def)

text \<open>Every operation over the real classes, wrapped or not, is the operation of the model.\<close>

lemma real_store_is_store:
  fixes V wait_exec str fs generated test
  defines "S \<equiv> real_store test V wait_exec str fs generated" and "L \<equiv> dv_libs V"
  shows "os_commit_part L S b i w = commit_part L fs (dv_now V) b i w"
    "os_create_bucket L S name w = store_create_bucket L (dv_new_id V) (dv_now V) name w"
    "os_fetch_bucket S name w = store_fetch_bucket L name w"
    "os_fetch_buckets_all S w = store_fetch_buckets_all w"
    "os_fetch_buckets S names w = store_fetch_buckets names w"
    "os_fetch_store_totals S w = store_fetch_totals L w"
    "os_get_errors S w = store_get_errors w"
    "os_get_object_metadata S b x w = get_object_metadata L b x w"
    "os_get_object L S b x w = get_object L fs b x w"
    "os_get_part L S part_id w = (case store_get_part L fs generated part_id w of (p, w) \<Rightarrow> (Inr p, w))"
    "os_prune L S w = prune L fs w"
    "os_remove_bucket S b w = store_remove_bucket b w"
    "os_remove_object S b x w = store_remove_object L b x w"
    "os_remove_objects S b xs w = store_remove_objects L b xs w"
    "os_rename_bucket L S b name w = store_rename_bucket L b name w"
  unfolding S_def L_def
  by (simp_all add: os_defs os_get_object_def os_get_part_def commit_part_def store_create_bucket_def
    store_fetch_bucket_def store_fetch_buckets_all_def store_fetch_buckets_def store_fetch_totals_def
    store_get_errors_def get_object_metadata_def get_object_def store_get_part_def prune_def
    store_remove_bucket_def store_remove_object_def store_remove_objects_def store_rename_bucket_def
    os_remove_files_real get_part_def open_part_def on_disk_def Let_def split: prod.split sum.split cong: if_cong option.case_cong)

end
