(* ===== verification/Unit_Tests.thy ===== *)
theory Unit_Tests
  imports Interface_Laws
begin

text \<open>
  The unit tests of the repository, carried out on the model: those of the object store over its doubles
  (\<open>src/libcore/functions/*.test.cpp\<close>), for every double that answers as expected, and those of the database
  (\<open>src/libcore/db/bucket.test.cpp\<close> and \<open>object.test.cpp\<close>) on the tables the test suites start from.
\<close>

section \<open>The object store over its doubles\<close>

text \<open>\<open>CreateBucket\<close>, \<open>CreateBucketNameTrimmed\<close>, \<open>RenameBucket\<close> and \<open>RenameBucketNameTrimmed\<close>.\<close>

lemma test_names_trimmed:
  assumes "trim_law L"
  shows "process_bucket_name L ''foo'' = Inr ''foo''"
    "process_bucket_name L ('' '' @ [CHR 0x09] @ ''  whitespace '' @ [CHR 0x0A] @ ''  '') = Inr ''whitespace''"
    "process_bucket_name L ('' '' @ [CHR 0x09] @ ''   foo   '' @ [CHR 0x0A] @ '' '') = Inr ''foo''"
    "process_bucket_name L [] = Inl (Invalid_data ''bucket name cannot be empty'')"
    "process_bucket_name L ([CHR 0x09] @ ''   '' @ [CHR 0x0A]) = Inl (Invalid_data ''bucket name cannot be empty'')"
  using assms by (simp_all add: process_bucket_name_def trim_law_def strip_def is_space_def)

lemma test_create_bucket:
  assumes "trim_law L" and "cn_create_bucket m ''whitespace'' w = (Inr b, w')"
  shows "os_create_bucket L (object_store_with (test_database (mock_connection m)) fs g)
      ('' '' @ [CHR 0x09] @ ''  whitespace '' @ [CHR 0x0A] @ ''  '') w = (Inr (to_bucket b), w')"
  using doubles.create_named [OF test_names_trimmed(2) [OF assms(1)]] assms(2) by (simp add: mock_connection_def)

lemma test_rename_bucket:
  assumes "trim_law L"
  shows "os_rename_bucket L (object_store_with (test_database (mock_connection m)) fs g) b
      ('' '' @ [CHR 0x09] @ ''   foo   '' @ [CHR 0x0A] @ '' '') w = cn_rename_bucket m b ''foo'' w"
  using doubles.rename_named [OF test_names_trimmed(3) [OF assms]] by (simp add: mock_connection_def)

text \<open>The tests of empty and blank names: the double is not called.\<close>

lemma test_empty_name:
  assumes "trim_law L" and "name \<in> {[], [CHR 0x09] @ ''   '' @ [CHR 0x0A]}"
  shows "os_create_bucket L (object_store_with (test_database (mock_connection m)) fs g) name w =
      (Inl (Invalid_data ''bucket name cannot be empty''), w)"
    and "os_rename_bucket L (object_store_with (test_database (mock_connection m)) fs g) b name w =
      (Inl (Invalid_data ''bucket name cannot be empty''), w)"
  using doubles.create_refused [OF test_names_trimmed(4) [OF assms(1)]]
    doubles.create_refused [OF test_names_trimmed(5) [OF assms(1)]]
    doubles.rename_refused [OF test_names_trimmed(4) [OF assms(1)]]
    doubles.rename_refused [OF test_names_trimmed(5) [OF assms(1)]] assms(2) by fastforce+

section \<open>Buckets in the database\<close>

abbreviation test_create :: "uuid \<Rightarrow> string \<Rightarrow> database \<Rightarrow> (error, db_bucket, database) outcome" where
  "test_create i name \<equiv> connection_create_bucket sample connect i 0 name"

abbreviation test_row :: "uuid \<Rightarrow> string \<Rightarrow> db_bucket" where
  "test_row i name \<equiv> \<lparr>db_b_id = i, db_b_name = name, db_b_date_created = 0, db_b_size = 0, db_b_space_used = 0\<rparr>"

definition with_buckets :: "(uuid \<times> string) list \<Rightarrow> database" where
  "with_buckets bs = empty_database\<lparr>tb_bucket := map (\<lambda>(i, n). \<lparr>bk_id = i, bk_name = n, bk_created = 0\<rparr>) bs\<rparr>"

lemma with_buckets_tables [simp]:
  "tb_bucket (with_buckets bs) = map (\<lambda>(i, n). \<lparr>bk_id = i, bk_name = n, bk_created = 0\<rparr>) bs"
  "tb_bucket_object (with_buckets bs) = []" "tb_object (with_buckets bs) = []"
  "tb_object_error (with_buckets bs) = []"
  by (simp_all add: with_buckets_def empty_database_def)

lemmas evaluate = connection_create_bucket_def connection_fetch_bucket_def connection_fetch_buckets_def
  connection_fetch_buckets_all_def connection_rename_bucket_def connection_remove_bucket_def fetch_prepared_def
  fetch_rows_prepared_def query_prepared_def execute_def prepared_provide reading_def sql_create_bucket_def
  sql_fetch_bucket_def sql_fetch_buckets_def sql_fetch_buckets_all_def sql_rename_bucket_def sql_remove_bucket_def
  insert_bucket_def update_bucket_name_def delete_buckets_def bucket_view_def bucket_links_def left_join_def
  inner_join_def is_int64_def Let_def sample_def

lemma test_bucket_new:
  assumes "i \<notin> fst ` set bs" and "name \<notin> snd ` set bs"
  shows "test_create i name (with_buckets bs) = (Inr (test_row i name), with_buckets (bs @ [(i, name)]))"
proof -
  have "insert_bucket i 0 name (with_buckets bs) = Inr (with_buckets (bs @ [(i, name)]))"
    using assms by (auto simp: insert_bucket_def with_buckets_def image_iff)
  moreover have "sql_fetch_bucket name (with_buckets (bs @ [(i, name)])) = Inr [test_row i name]"
  proof -
    have "filter (\<lambda>b. bk_name b = name) (tb_bucket (with_buckets bs)) = []"
      using assms(2) by (force simp: filter_empty_conv)
    then show ?thesis by (simp add: evaluate)
  qed
  ultimately have "sql_create_bucket i 0 name (with_buckets bs) = Inr ([test_row i name], with_buckets (bs @ [(i, name)]))"
    by (simp add: sql_create_bucket_def)
  then show ?thesis
    by (simp add: connection_create_bucket_def fetch_prepared_def execute_def prepared_provide sample_def)
qed

text \<open>\<open>Creation\<close>, \<open>CreationRequiresUniqueName\<close>, \<open>FetchWorks\<close> and \<open>Removal\<close>.\<close>

lemma test_creation:
  "fst (test_create 1 ''creation'' (with_buckets [])) = Inr (test_row 1 ''creation'')"
  by (simp add: test_bucket_new)

lemma test_creation_requires_unique_name:
  "fst (test_create 2 ''unique'' (snd (test_create 1 ''unique'' (with_buckets [])))) =
     Inl (Unique_bucket_violation ''unique'')"
  by (simp add: test_bucket_new evaluate)

lemma test_fetch_works:
  "fst (connection_fetch_bucket sample connect ''fetch'' (snd (test_create 1 ''fetch'' (with_buckets [])))) =
     fst (test_create 1 ''fetch'' (with_buckets []))"
  by (simp add: test_bucket_new evaluate)

lemma test_removal:
  "snd (connection_remove_bucket connect 1 (snd (test_create 1 ''removal'' (with_buckets [])))) = with_buckets []"
  by (simp add: test_bucket_new evaluate)

text \<open>\<open>FetchMultipleWorks\<close>: by their names and all of them.\<close>

lemma test_fetch_multiple:
  "let db = snd (test_create 3 ''three'' (snd (test_create 2 ''two'' (snd (test_create 1 ''one'' (with_buckets []))))));
       rows = [test_row 1 ''one'', test_row 2 ''two'', test_row 3 ''three''] in
     fst (connection_fetch_buckets connect [''one'', ''two'', ''three''] db) = Inr rows \<and>
     fst (connection_fetch_buckets_all connect db) = Inr rows"
  by (simp add: test_bucket_new evaluate)

text \<open>\<open>RenameWorks\<close> and \<open>RenameWithNonUniqueNameFails\<close>.\<close>

lemma test_rename_works:
  "let db = snd (connection_rename_bucket connect 1 ''second'' (snd (test_create 1 ''first'' (with_buckets [])))) in
     fst (connection_fetch_bucket sample connect ''second'' db) = Inr (test_row 1 ''second'')"
  by (simp add: test_bucket_new evaluate)

lemma test_rename_same_name:
  "connection_rename_bucket connect 1 ''one'' (with_buckets [(1, ''one'')]) = (Inr (), with_buckets [(1, ''one'')])"
  by (simp add: evaluate)

lemma test_rename_not_unique:
  "fst (connection_rename_bucket connect 2 ''one'' (with_buckets [(1, ''one''), (2, ''two'')])) =
     Inl (Unique_bucket_violation ''one'')"
  by (simp add: evaluate)

section \<open>Objects in the database\<close>

text \<open>The objects of the test suite, its bucket, and the tables when it holds some of them.\<close>

definition test_objects :: "object_row list" where
  "test_objects =
     [\<lparr>ob_id = 0xa4f33eab1fbf49abaf6b9fc72714f8c5,
        ob_hash = ''eab32d918fc1c07d87eddb59a45086666f9117538d6d9c40ee0efeda635bd330'', ob_size = 7,
        ob_type = ''text'', ob_subtype = ''plain'', ob_added = 0\<rparr>,
      \<lparr>ob_id = 0x4ca61fdd90584d08a16b744d3afc4b6d,
        ob_hash = ''1c661c11465816c9bbcd70ac08a655cdbf8dedf2122bd0ed1cb2d6b36b0e09ed'', ob_size = 250,
        ob_type = ''text'', ob_subtype = ''plain'', ob_added = 0\<rparr>,
      \<lparr>ob_id = 0xd7303d5a38924888a47eb201f5219ee1,
        ob_hash = ''ca3a6440be51f6a8687d25a683ff85c0a9676d45b2f57f27b841b6b259893dc9'', ob_size = 500,
        ob_type = ''text'', ob_subtype = ''plain'', ob_added = 0\<rparr>]"

definition holding :: "object_row list \<Rightarrow> object_row list \<Rightarrow> database" where
  "holding xs ls = \<lparr>tb_bucket = [\<lparr>bk_id = 9, bk_name = ''object-test'', bk_created = 0\<rparr>], tb_object = xs,
     tb_bucket_object = map (\<lambda>x. \<lparr>ln_bucket = 9, ln_object = ob_id x, ln_added = 0\<rparr>) ls, tb_object_error = []\<rparr>"

definition test_add :: "object_row \<Rightarrow> database \<Rightarrow> database" where
  "test_add x db = snd (connection_add_object sample connect 9 (ob_id x) (ob_hash x) (ob_size x) (ob_type x)
     (ob_subtype x) 0 db)"

definition bucket_size :: "database \<Rightarrow> error + int" where
  "bucket_size db = bind_sum (fst (connection_fetch_bucket sample connect ''object-test'' db)) (\<lambda>b. Inr (db_b_size b))"

lemmas evaluate_objects = connection_add_object_def connection_get_object_def connection_remove_object_def
  connection_remove_objects_def sql_add_object_def sql_create_object_def insert_object_def insert_link_def
  sql_get_object_def sql_remove_object_def sql_remove_objects_def delete_links_def bucket_contents_def
  holding_def test_add_def contents_row_def bucket_size_def

abbreviation ob1 :: object_row where "ob1 \<equiv> test_objects ! 0"
abbreviation ob2 :: object_row where "ob2 \<equiv> test_objects ! 1"
abbreviation ob3 :: object_row where "ob3 \<equiv> test_objects ! 2"

text \<open>\<open>BucketAdditionRemoval\<close>: adding again does nothing, what was removed can be added and removed again.\<close>

lemma test_addition:
  "test_add ob1 (holding [] []) = holding [ob1] [ob1]" "test_add ob1 (holding [ob1] [ob1]) = holding [ob1] [ob1]"
  "test_add ob1 (holding [ob1] []) = holding [ob1] [ob1]"
  by (simp_all add: evaluate evaluate_objects test_objects_def)

lemma test_sizes:
  "bucket_size (holding [] []) = Inr 0" "bucket_size (holding [ob1] []) = Inr 0"
  "bucket_size (holding [ob1] [ob1]) = Inr 1"
  by (simp_all add: evaluate evaluate_objects test_objects_def)

lemma test_removal_again:
  "snd (connection_remove_object sample connect 9 (ob_id ob1) (holding [ob1] [ob1])) = holding [ob1] []"
  "fst (connection_remove_object sample connect 9 (ob_id ob1) (holding [ob1] [])) =
     Inl (object_not_found sample 9 (ob_id ob1))"
  by (simp_all add: evaluate evaluate_objects test_objects_def)

text \<open>\<open>GetObjectNoObject\<close> and \<open>GetObject\<close>.\<close>

lemma test_get_object:
  "fst (connection_get_object sample connect 9 (ob_id ob1) (holding [] [])) = Inl (object_not_found sample 9 (ob_id ob1))"
  "fst (connection_get_object sample connect 9 (ob_id ob1) (holding [ob1] [ob1])) = Inr (object_view ob1)"
  by (simp_all add: evaluate evaluate_objects object_view_def test_objects_def)

text \<open>All three added.\<close>

lemma test_add_all:
  "fold test_add [ob1, ob2] (holding [] []) = holding [ob1, ob2] [ob1, ob2]"
  "fold test_add test_objects (holding [] []) = holding test_objects test_objects"
  by (simp_all add: evaluate evaluate_objects test_objects_def)

text \<open>\<open>GetObjects\<close>: the portal delivers the three rows, in the order of their ids, in two batches of at most two.\<close>

fun in_batches :: "nat \<Rightarrow> nat \<Rightarrow> 'a list \<Rightarrow> 'a list list" where
  "in_batches 0 n xs = []"
| "in_batches (Suc fuel) n xs = (if xs = [] then [] else take n xs # in_batches fuel n (drop n xs))"

definition test_env :: database_env where
  "test_env = \<lparr>dv_libs = sample, dv_new_id = 1, dv_now = 0,
     dv_cut = (\<lambda>n xs. in_batches (length xs) (nat n) xs)\<rparr>"

lemma test_get_objects:
  "fst (connection_get_objects test_env connect ''GetObjects'' 2 (holding test_objects test_objects)) =
     Inr [[object_view ob2, object_view ob1], [object_view ob3]]"
  by (simp add: connection_get_objects_def evaluate evaluate_objects sql_get_objects_def test_env_def
      object_view_def test_objects_def)

text \<open>\<open>RemoveObjectsEmptyList\<close>, \<open>Single\<close>, \<open>Multiple\<close>, \<open>Subset\<close> and \<open>Nonexistent\<close>.\<close>

lemma test_remove_none:
  "connection_remove_objects sample connect 9 [] (holding [] []) =
     (Inr \<lparr>db_rr_objects_removed = 0, db_rr_space_freed = 0\<rparr>, holding [] [])"
  by (simp add: evaluate evaluate_objects)

lemma test_remove_single:
  "connection_remove_objects sample connect 9 [ob_id ob1] (holding [ob1] [ob1]) =
     (Inr \<lparr>db_rr_objects_removed = 1, db_rr_space_freed = 7\<rparr>, holding [ob1] [])"
  by (simp add: evaluate evaluate_objects test_objects_def)

lemma test_remove_multiple:
  "connection_remove_objects sample connect 9 (map ob_id test_objects) (holding test_objects test_objects) =
     (Inr \<lparr>db_rr_objects_removed = 3, db_rr_space_freed = 757\<rparr>, holding test_objects [])"
  by (simp add: evaluate evaluate_objects test_objects_def)

lemma test_remove_subset:
  "let db = snd (connection_remove_objects sample connect 9 [ob_id ob1, ob_id ob2] (holding test_objects test_objects)) in
     bucket_size db = Inr 1 \<and> fst (connection_get_object sample connect 9 (ob_id ob3) db) = Inr (object_view ob3)"
  by (simp add: evaluate evaluate_objects object_view_def test_objects_def)

lemma test_remove_nonexistent:
  "connection_remove_objects sample connect 9 [ob_id ob3] (holding [ob1, ob2] [ob1, ob2]) =
     (Inr \<lparr>db_rr_objects_removed = 0, db_rr_space_freed = 0\<rparr>, holding [ob1, ob2] [ob1, ob2])"
  by (simp add: evaluate evaluate_objects test_objects_def)

section \<open>The filesystem\<close>

text \<open>\<open>CopyObject\<close> and \<open>Size\<close> of \<open>filesystem.test.cpp\<close>: the file is copied under the first characters of its id.\<close>

definition test_content :: blob where
  "test_content = map of_char ''MyObjectFile''"

definition test_disk :: disk where
  "test_disk = snd (filesystem_new [''home'']
     \<lparr>d_files = [[''test_file''] \<mapsto> \<lparr>f_content = test_content, f_mode = 0\<rparr>], d_dirs = {[]}, d_umask = 0\<rparr>)"

lemma test_copy_object:
  "let id = ''37daf6fc-bacc-47a7-9298-dd40f80d1b90''; p = [''home'', ''objects'', ''37'', ''da'', id];
       r = copy_object (home_fs [''home'']) [''test_file''] id test_disk in
     object_path (home_fs [''home'']) id = Inr p \<and> fst r = Inr () \<and>
     read_file (snd r) p = Inr \<lparr>f_content = test_content, f_mode = object_permissions\<rparr>"
  by (simp add: copy_object_def make_object_with_def object_path_def substr_def home_fs_def path_div_def
      test_disk_def filesystem_new_def create_directories_def std_create_directories_def std_copy_file_def
      std_permissions_def read_file_def is_file_def Let_def)

lemma test_size: "file_size test_disk [''test_file''] = Inr 12"
  by (simp add: test_disk_def test_content_def filesystem_new_def create_directories_def
      std_create_directories_def file_size_def read_file_def path_div_def is_file_def Let_def)

end
