(* ===== verification/Listen.thy ===== *)
theory Listen
  imports Start Router
begin

text \<open>
  The servers of \<open>src/libserver/server.cpp\<close> and \<open>src/libserver/http/server.cpp\<close>: what they give the
  libraries that listen (netcore and the HTTP library) for each configured endpoint, and what they do when one
  of the endpoints cannot be listened on.  The libraries' own listening is the argument \<open>lib\<close>.  At the other end,
  the connection of the binary client (\<open>src/libfstore/object_store.cpp\<close>).
\<close>

section \<open>Endpoints that fail\<close>

text \<open>What is thrown: an exception of the standard hierarchy with its text, or something else.\<close>

datatype thrown = Std_exception string | Other_thrown

datatype log_line = Log_error string | Log_listening string

text \<open>
  \<open>on_error\<close> logs the text of a standard exception; anything else leaves it as it was thrown.  Both files have
  their own copy.
\<close>

definition socket_on_error :: "'e \<Rightarrow> thrown option \<Rightarrow> log_line list \<Rightarrow> (thrown, unit, log_line list) outcome" where
  "socket_on_error endpoint exception log =
     (case exception of
        None \<Rightarrow> (Inr (), log)
      | Some (Std_exception text) \<Rightarrow> (Inr (), log @ [Log_error text])
      | Some Other_thrown \<Rightarrow> (Inl Other_thrown, log))"

definition http_on_error :: "'e \<Rightarrow> thrown option \<Rightarrow> log_line list \<Rightarrow> (thrown, unit, log_line list) outcome" where
  "http_on_error endpoint exception log =
     (case exception of
        None \<Rightarrow> (Inr (), log)
      | Some (Std_exception text) \<Rightarrow> (Inr (), log @ [Log_error text])
      | Some Other_thrown \<Rightarrow> (Inl Other_thrown, log))"

section \<open>Socket servers\<close>

text \<open>An endpoint of the configuration: the address, and how long a connection may be idle.\<close>

record 'a conf_endpoint =
  ep_endpoint :: 'a
  ep_timeout :: int

record 'r server_context =
  sx_router :: 'r
  sx_timeout :: int

definition server_context_new :: "'r \<Rightarrow> int \<Rightarrow> 'r server_context" where
  "server_context_new router timeout = \<lparr>sx_router = router, sx_timeout = timeout\<rparr>"

definition server_context_close :: "'r server_context \<Rightarrow> 'r server_context" where
  "server_context_close x = x"

text \<open>A connection: the router serves a socket with a buffer of 8 KiB, within the endpoint's timeout.\<close>

record 'k net_socket =
  ns_peer :: 'k
  ns_buffer :: nat

definition server_context_connection ::
  "('r \<Rightarrow> 'k net_socket \<Rightarrow> int \<Rightarrow> 'w \<Rightarrow> 'w) \<Rightarrow> 'r server_context \<Rightarrow> 'k \<Rightarrow> 'w \<Rightarrow> 'w" where
  "server_context_connection route_socket x client w =
     route_socket (sx_router x) \<lparr>ns_peer = client, ns_buffer = 8 * 1024\<rparr> (sx_timeout x) w"

definition server_context_listen :: "('a \<Rightarrow> string) \<Rightarrow> 'a \<Rightarrow> log_line list \<Rightarrow> log_line list" where
  "server_context_listen str address log = log @ [Log_listening (str address)]"

text \<open>\<open>router_context::set_timer\<close> only sleeps; no event of the protocol is routed to it.\<close>

definition router_set_timer :: "(int \<Rightarrow> 'w \<Rightarrow> 'w) \<Rightarrow> int \<Rightarrow> 'w \<Rightarrow> (error, unit, 'w) outcome" where
  "router_set_timer sleep_for duration w = (Inr (), sleep_for duration w)"

text \<open>The address to listen on and the server to start for one endpoint.\<close>

definition socket_server_for :: "'r \<Rightarrow> 'a conf_endpoint \<Rightarrow> 'a \<times> 'r server_context" where
  "socket_server_for router endpoint = (ep_endpoint endpoint, server_context_new router (ep_timeout endpoint))"

type_synonym ('e, 'a, 's, 'l) listen_lib =
  "'e list \<Rightarrow> ('e \<Rightarrow> 'a \<times> 's) \<Rightarrow> ('e \<Rightarrow> thrown option \<Rightarrow> log_line list \<Rightarrow> (thrown, unit, log_line list) outcome) \<Rightarrow>
     log_line list \<Rightarrow> (thrown, 'l, log_line list) outcome"

definition socket_listen ::
  "('a conf_endpoint, 'a, 'r server_context, 'l) listen_lib \<Rightarrow> 'r \<Rightarrow> 'a conf_endpoint list \<Rightarrow> log_line list \<Rightarrow>
     (thrown, 'l, log_line list) outcome" where
  "socket_listen lib router endpoints = lib endpoints (socket_server_for router) socket_on_error"

section \<open>HTTP servers\<close>

text \<open>The TLS settings of the HTTP library; setting the certificate and the key may throw.\<close>

record 'x ssl_lib =
  sl_new :: 'x
  sl_certificate :: "string \<Rightarrow> 'x \<Rightarrow> thrown + 'x"
  sl_private_key :: "string \<Rightarrow> 'x \<Rightarrow> thrown + 'x"

definition http_server_for :: "'x \<Rightarrow> 'r \<Rightarrow> 'a conf_endpoint \<Rightarrow> 'a \<times> 'x \<times> 'r" where
  "http_server_for ssl router endpoint = (ep_endpoint endpoint, ssl, router)"

definition http_listen ::
  "'x ssl_lib \<Rightarrow> ('a conf_endpoint, 'a, 'x \<times> 'r, 'l) listen_lib \<Rightarrow> 'r \<Rightarrow> string \<Rightarrow> string \<Rightarrow>
     'a conf_endpoint list \<Rightarrow> log_line list \<Rightarrow> (thrown, 'l, log_line list) outcome" where
  "http_listen S lib router cert key endpoints log =
     (case bind_sum (sl_certificate S cert (sl_new S)) (sl_private_key S key) of
        Inl e \<Rightarrow> (Inl e, log)
      | Inr ssl \<Rightarrow> lib endpoints (http_server_for ssl router) http_on_error log)"

section \<open>Listening on every endpoint\<close>

text \<open>
  What is relied on of the libraries' \<open>server_list::listen\<close>: the endpoints are taken in order; where the
  address can be listened on, the server is told so and kept; where it cannot, the error handler is called.
  \<open>bind_address\<close> is what the operating system says of an address, \<open>told\<close> what the server does when it listens.
\<close>

fun listen_each ::
  "('a \<Rightarrow> thrown option) \<Rightarrow> ('a \<Rightarrow> log_line list \<Rightarrow> log_line list) \<Rightarrow> ('e, 'a, 's, ('a \<times> 's) list) listen_lib" where
  "listen_each bind_address told [] mk on_error log = (Inr [], log)"
| "listen_each bind_address told (e # es) mk on_error log =
     (case bind_address (fst (mk e)) of
        None \<Rightarrow> and_then (listen_each bind_address told es mk on_error (told (fst (mk e)) log))
          (\<lambda>l log. (Inr (mk e # l), log))
      | Some x \<Rightarrow> and_then (on_error e (Some x) log) (\<lambda>_ log. listen_each bind_address told es mk on_error log))"

definition listen_law ::
  "('a \<Rightarrow> thrown option) \<Rightarrow> ('a \<Rightarrow> log_line list \<Rightarrow> log_line list) \<Rightarrow> ('e, 'a, 's, ('a \<times> 's) list) listen_lib \<Rightarrow> bool" where
  "listen_law bind_address told lib \<longleftrightarrow>
     (\<forall>es mk on_error log. lib es mk on_error log = listen_each bind_address told es mk on_error log)"

text \<open>The lines one endpoint adds to the log, when nothing but standard exceptions is thrown.\<close>

definition endpoint_lines :: "('a \<Rightarrow> thrown option) \<Rightarrow> ('a \<Rightarrow> log_line list) \<Rightarrow> 'a conf_endpoint \<Rightarrow> log_line list" where
  "endpoint_lines bind_address told e =
     (case bind_address (ep_endpoint e) of
        None \<Rightarrow> told (ep_endpoint e)
      | Some (Std_exception text) \<Rightarrow> [Log_error text]
      | Some Other_thrown \<Rightarrow> [])"

lemma listen_each_standard:
  assumes "\<And>e. e \<in> set es \<Longrightarrow> bind_address (ep_endpoint e) \<noteq> Some Other_thrown"
    and "\<And>e. fst (mk e) = ep_endpoint e" and "on_error = socket_on_error \<or> on_error = http_on_error"
  shows "listen_each bind_address (\<lambda>a log. log @ told a) es mk on_error log =
    (Inr (map mk (filter (\<lambda>e. bind_address (ep_endpoint e) = None) es)),
     log @ concat (map (endpoint_lines bind_address told) es))"
  using assms(1)
proof (induction es arbitrary: log)
  case (Cons e es)
  then show ?case
    using assms(2,3) Cons.prems [of e]
    by (cases "bind_address (ep_endpoint e)"; cases "the (bind_address (ep_endpoint e))")
       (auto simp: endpoint_lines_def socket_on_error_def http_on_error_def)
qed simp

text \<open>
  Where the addresses fail with standard exceptions only, both servers run on exactly the endpoints that can be
  listened on, each with its own address and, for sockets, its own timeout; every other endpoint is logged
  with its error, and no failure keeps the program from starting.
\<close>

lemma socket_servers:
  assumes "listen_law bind_address (server_context_listen str) lib"
    and "\<And>e. e \<in> set endpoints \<Longrightarrow> bind_address (ep_endpoint e) \<noteq> Some Other_thrown"
  shows "socket_listen lib router endpoints log =
    (Inr (map (\<lambda>e. (ep_endpoint e, \<lparr>sx_router = router, sx_timeout = ep_timeout e\<rparr>))
       (filter (\<lambda>e. bind_address (ep_endpoint e) = None) endpoints)),
     log @ concat (map (endpoint_lines bind_address (\<lambda>a. [Log_listening (str a)])) endpoints))"
proof -
  have "server_context_listen str = (\<lambda>a log. log @ [Log_listening (str a)])"
    by (simp add: server_context_listen_def fun_eq_iff)
  with listen_each_standard [of endpoints bind_address "socket_server_for router" socket_on_error
      "\<lambda>a. [Log_listening (str a)]"] assms
  show ?thesis
    by (simp add: socket_listen_def listen_law_def socket_server_for_def server_context_new_def)
qed

lemma http_servers:
  assumes "listen_law bind_address (\<lambda>a log. log) lib"
    and "\<And>e. e \<in> set endpoints \<Longrightarrow> bind_address (ep_endpoint e) \<noteq> Some Other_thrown"
    and "bind_sum (sl_certificate S cert (sl_new S)) (sl_private_key S key) = Inr ssl"
  shows "http_listen S lib router cert key endpoints log =
    (Inr (map (\<lambda>e. (ep_endpoint e, ssl, router)) (filter (\<lambda>e. bind_address (ep_endpoint e) = None) endpoints)),
     log @ concat (map (endpoint_lines bind_address (\<lambda>a. [])) endpoints))"
  using listen_each_standard [of endpoints bind_address "http_server_for ssl router" http_on_error "\<lambda>a. []"] assms
  by (simp add: http_listen_def listen_law_def http_server_for_def)

section \<open>The connection of a client\<close>

text \<open>
  The client of zipline over a socket, made with the decoder of the protocol's exceptions; a store object that
  was default-constructed has none, and asking it for its state dereferences a null pointer (\<open>None\<close>).
\<close>

record ('k, 'c) zipline_lib =
  zl_client :: "(nat \<times> string \<Rightarrow> error option) \<Rightarrow> 'k \<Rightarrow> 'c"
  zl_connected :: "'c \<Rightarrow> bool"
  zl_failed :: "'c \<Rightarrow> bool"

type_synonym 'c client_store = "'c option"

definition client_store_default :: "'c client_store" where
  "client_store_default = None"

definition client_store_new :: "('k, 'c) zipline_lib \<Rightarrow> 'k \<Rightarrow> 'c client_store" where
  "client_store_new Z socket = Some (zl_client Z decode_error socket)"

definition client_connected :: "('k, 'c) zipline_lib \<Rightarrow> 'c client_store \<Rightarrow> bool option" where
  "client_connected Z s = map_option (zl_connected Z) s"

definition client_failed :: "('k, 'c) zipline_lib \<Rightarrow> 'c client_store \<Rightarrow> bool option" where
  "client_failed Z s = map_option (zl_failed Z) s"

end
