(* ===== verification/Part_Reuse.thy ===== *)
theory Part_Reuse
  imports Recovery_Properties Store_Properties
begin

text \<open>
  Clients choose part ids.  The contents of objects are kept as long as an id serves one upload
  (\<open>part_ids_apart\<close>): nothing writes to a part that is being committed, and an id whose file \<open>prune\<close> has still to
  remove is not committed.  The server does not enforce this; here is what happens to an object when a request breaks it.
\<close>

section \<open>An id that is committed again while its file is to be removed\<close>

text \<open>C15: The id of an object that \<open>prune\<close> has taken out of the catalogue, and whose file it has still to remove,
  can be used for a new upload.  The commit ends well for its client; then \<open>prune\<close> removes the new file: the object is
  listed, its content is lost, reading it fails, and a check reports the file as missing.\<close>

theorem pruned_id_reused_loses_content:
  assumes s: "reachable L home s" and x: "i \<in> set (sy_removals s)"
    and commit: "commit_record L (home_fs home) now b i (sy_world s) = (Inr e, v)" and own: "db_o_id e = i"
  shows "\<exists>v' v''. settle L (home_fs home) i e v = (Inr (to_object e), v') \<and>
    (\<exists>c. get_object L (home_fs home) b i v' = (Inr (to_object e, c), v') \<and> sha256sum L c = db_o_hash e) \<and>
    remove_file L (home_fs home) i v' = (Inr (), v'') \<and>
    entry (w_db v'') b i = Some e \<and> content_at L (home_fs home) (w_disk v'') i = None \<and>
    get_object L (home_fs home) b i v'' = (Inl (File_error No_such_file), v'') \<and>
    check_object L (home_fs home) (w_disk v'') e = ''file missing''"
proof -
  let ?fs = "home_fs home"
  note D = system_invD [OF reachable_inv [OF s]]
  obtain c where c: "staged L ?fs (sy_disk s) i = Some c" and v: "w_disk v = sy_disk s" "db_inv (w_db v)"
    "entry (w_db v) b i = Some e" and h: "db_o_hash e = sha256sum L c"
    by (rule commit_record_add [OF D(1,3,4) commit]) (use own in auto)
  have disk: "disk_inv ?fs (w_disk v)" "staged L ?fs (w_disk v) i = Some c" using v(1) D(4) c by simp_all
  obtain d' where d': "settle L ?fs i e v = (Inr (to_object e), v\<lparr>w_disk := d'\<rparr>)" "disk_inv ?fs d'"
    "staged L ?fs d' i = None" "stored L ?fs d' i = Some c"
    using own by (auto intro: settle_eq [OF D(2) disk, of e])
  obtain d'' where d'': "remove_object_file ?fs (uuid_text L i) d' = (Inr (), d'')" "disk_inv ?fs d''"
    "stored L ?fs d'' i = None" "staged L ?fs d'' i = None"
    using erase_disk [OF D(2) d'(2), of i] d'(3) by auto
  have rem: "remove_file L ?fs i (v\<lparr>w_disk := d'\<rparr>) = (Inr (), v\<lparr>w_disk := d''\<rparr>)"
    using d''(1) by (simp add: remove_file_def on_disk_def)
  show ?thesis
    using d' rem d'' v(2,3) own h
    by (intro exI [of _ "v\<lparr>w_disk := d'\<rparr>"] exI [of _ "v\<lparr>w_disk := d''\<rparr>"])
       (simp add: get_object_on [OF D(1)] check_object_eq [OF D(2)] content_at_def)
qed

text \<open>The sample object, taken out of its bucket and of the catalogue, and its id uploaded to again.\<close>

definition unlisted5 :: system where
  "unlisted5 = settled5\<lparr>sy_world := w4\<rparr>"

definition pruning5 :: system where
  "pruning5 = unlisted5\<lparr>sy_world := w4\<lparr>w_db := db1\<rparr>, sy_removals := [5]\<rparr>"

definition again5 :: system where
  "again5 = pruning5\<lparr>sy_world := snd (upload_part sample fs0 7 (Some 5) [[104, 105]] (w4\<lparr>w_db := db1\<rparr>))\<rparr>"

lemma w4_eq: "w4 = w3\<lparr>w_db := db3\<lparr>tb_bucket_object := []\<rparr>\<rparr>"
  using remove_on [of sample w3 1 5] store_invD(1,4) [OF sample_inv(4)]
  by (simp add: w4_def laws_def commit3(2) sql_remove_object_def delete_links_def db3_def Let_def)

lemma prune_record4: "prune_record w4 = (Inr [e5], w4\<lparr>w_db := db1\<rparr>)"
  by (simp add: prune_record_eq w4_eq sql_remove_orphan_objects_def delete_objects_def reference_count_def
      object_view_def db3_def db1_def Let_def
      empty_database_def e5_def)

lemma again5_reachable: "reachable sample [''data''] again5"
proof -
  have "reachable sample [''data''] unlisted5"
    using reachable_step [OF sample_reachable(3) server_step.Remove_object [of sample _ _ 1 5]]
    by (simp add: unlisted5_def settled5_def w4_def)
  then have "reachable sample [''data''] pruning5"
    using reachable_step [OF _ server_step.Orphans [of unlisted5 "[e5]" "w4\<lparr>w_db := db1\<rparr>"]] prune_record4
    by (simp add: unlisted5_def pruning5_def settled5_def e5_def)
  then show ?thesis
    using reachable_step [OF _ server_step.Write [of sample _ pruning5 5 7 "[[104, 105]]"]]
    by (simp add: again5_def fs0_def pruning5_def unlisted5_def settled5_def ids_def db1_def empty_database_def)
qed

lemma again5_part: "sy_db again5 = db1" "staged sample fs0 (sy_disk again5) 5 = Some [104, 105]"
  using stage_disk(3) [OF store_invD(5) [OF sample_inv(4)] sample_uuid_law, of 5 "[[104, 105]]"] settled5_staged
  by (simp_all add: again5_def upload_part_eq w4_eq)

lemma record_again5: "commit_record sample fs0 200 1 5 (sy_world again5) = (Inr e5, (sy_world again5)\<lparr>w_db := db3\<rparr>)"
proof -
  note D = system_invD [OF reachable_inv [OF again5_reachable], folded fs0_def]
  show ?thesis
    using add3 by (simp add: commit_record_hit [OF D(1,3,4) again5_part(2)] again5_part(1) mime_hi hash_hi size_hi e5_def)
qed

theorem pruned_id_reused_loses_content_witness:
  "\<exists>v w. commit_record sample fs0 200 1 5 (sy_world again5) = (Inr e5, v) \<and> entry (w_db w) 1 5 = Some e5 \<and>
    get_object sample fs0 1 5 w = (Inl (File_error No_such_file), w)"
  using pruned_id_reused_loses_content [OF again5_reachable _ record_again5 [unfolded fs0_def]] record_again5
  unfolding fs0_def by (auto simp: again5_def pruning5_def e5_def)

section \<open>A part that is written to while it is committed\<close>

text \<open>What another request writes to a part between the two halves of its commit becomes content of the object, under
  the digest and the size of what was there before: downloads are cut off, and a check finds the mismatch.\<close>

theorem part_written_during_commit:
  assumes s: "reachable L home s" and e: "(i, e) \<in> set (sy_commits s)" "db_o_id e = i"
    and c: "staged L (home_fs home) (sy_disk s) i = Some c" and b: "entry (sy_db s) b i = Some e"
    and other: "sha256sum L (c @ concat chunks) \<noteq> sha256sum L c"
  shows "\<exists>v. settle L (home_fs home) i e (snd (upload_part L (home_fs home) g (Some i) chunks (sy_world s))) =
      (Inr (to_object e), v) \<and>
    get_object L (home_fs home) b i v = (Inr (to_object e, c @ concat chunks), v) \<and>
    check_object L (home_fs home) (w_disk v) e = ''hash mismatch''"
proof -
  let ?fs = "home_fs home" and ?w = "snd (upload_part L (home_fs home) g (Some i) chunks (sy_world s))"
  note D = system_invD [OF reachable_inv [OF s]] and S = stage_disk [OF system_invD(4) [OF reachable_inv [OF s]], of L i chunks]
  have disk: "disk_inv ?fs (w_disk ?w)" "staged L ?fs (w_disk ?w) i = Some (c @ concat chunks)"
    using S(1) S(3) [OF D(2)] c by (simp_all add: upload_part_eq)
  have db: "w_db ?w = sy_db s" by (simp add: upload_part_eq)
  have h: "db_o_hash e = sha256sum L c"
    using content_kept [OF s] entry_SomeD(3,4) [OF D(3) b] object_of_ref [OF D(3)] c
    by (metis content_at_def option.inject option.simps(5))
  obtain d' where d': "settle L ?fs i e ?w = (Inr (to_object e), ?w\<lparr>w_disk := d'\<rparr>)" "disk_inv ?fs d'"
    "stored L ?fs d' i = Some (c @ concat chunks)"
    using e(2) by (auto intro: settle_eq [OF D(2) disk, of e])
  then show ?thesis
    using D(3) b db e(2) h other
    by (intro exI [of _ "?w\<lparr>w_disk := d'\<rparr>"]) (simp add: get_object_on [OF D(1)] check_object_eq [OF D(2)])
qed

end
