(* ===== verification/Inodes.thy ===== *)
theory Inodes
  imports Filesystem_Laws
begin

text \<open>
  The files below the paths.  \<open>Filesystem\<close> has a file as a value under its path.  That is all a request needs that is
  alone, but a descriptor outlives the name it was opened under: \<open>rename\<close> moves the name, \<open>remove\<close> takes it away,
  and an open stream goes on writing to the same file.  Here names and files are apart, and the disk of \<open>Filesystem\<close>
  is shown to be what one sees of it by name.
\<close>

section \<open>Names and files\<close>

record node_disk =
  nd_names :: "path \<rightharpoonup> nat"
  nd_nodes :: "nat \<Rightarrow> disk_file"
  nd_next :: nat
  nd_dirs :: "path set"
  nd_umask :: mode

definition files_of :: "node_disk \<Rightarrow> disk" where
  "files_of n = \<lparr>d_files = (\<lambda>p. map_option (nd_nodes n) (nd_names n p)), d_dirs = nd_dirs n, d_umask = nd_umask n\<rparr>"

text \<open>There are no hard links, and a new file gets a number that was never used.\<close>

definition names_inv :: "node_disk \<Rightarrow> bool" where
  "names_inv n \<longleftrightarrow> (\<forall>p q k. nd_names n p = Some k \<longrightarrow> nd_names n q = Some k \<longrightarrow> p = q) \<and>
     (\<forall>k \<in> ran (nd_names n). k < nd_next n)"

definition node_create_directories :: "path \<Rightarrow> node_disk \<Rightarrow> (error, unit, node_disk) outcome" where
  "node_create_directories p n =
     (case create_directories p (files_of n) of (r, d) \<Rightarrow> (r, n\<lparr>nd_dirs := d_dirs d\<rparr>))"

definition node_rename :: "path \<Rightarrow> path \<Rightarrow> node_disk \<Rightarrow> (error, unit, node_disk) outcome" where
  "node_rename src dst n =
     (case nd_names n src of
        None \<Rightarrow> (Inl (File_error No_such_file), n)
      | Some k \<Rightarrow>
          if dst \<in> nd_dirs n then (Inl (File_error Is_a_directory), n)
          else if butlast dst \<notin> nd_dirs n then (Inl (File_error No_such_file), n)
          else (Inr (), n\<lparr>nd_names := (nd_names n)(src := None, dst \<mapsto> k)\<rparr>))"

definition node_permissions :: "path \<Rightarrow> mode \<Rightarrow> node_disk \<Rightarrow> (error, unit, node_disk) outcome" where
  "node_permissions p m n =
     (case nd_names n p of
        None \<Rightarrow> (Inl (File_error No_such_file), n)
      | Some k \<Rightarrow> (Inr (), n\<lparr>nd_nodes := (nd_nodes n)(k := (nd_nodes n k)\<lparr>f_mode := m\<rparr>)\<rparr>))"

definition node_remove :: "path \<Rightarrow> node_disk \<Rightarrow> (error, unit, node_disk) outcome" where
  "node_remove p n =
     (if nd_names n p \<noteq> None then (Inr (), n\<lparr>nd_names := (nd_names n)(p := None)\<rparr>)
      else if p \<in> nd_dirs n then (Inl (File_error Is_a_directory), n)
      else (Inr (), n))"

section \<open>The operations of the store\<close>

definition node_make_object :: "filesystem \<Rightarrow> string \<Rightarrow> node_disk \<Rightarrow> (error, unit, node_disk) outcome" where
  "node_make_object fs i n =
     (case object_path fs i of
        Inl e \<Rightarrow> (Inl e, n)
      | Inr p \<Rightarrow>
          and_then (node_create_directories (butlast p) n) (\<lambda>_ n.
          and_then (node_rename (part_path fs i) p n) (\<lambda>_ n. node_permissions p object_permissions n)))"

definition node_remove_object :: "filesystem \<Rightarrow> string \<Rightarrow> node_disk \<Rightarrow> (error, unit, node_disk) outcome" where
  "node_remove_object fs i n = (case object_path fs i of Inl e \<Rightarrow> (Inl e, n) | Inr p \<Rightarrow> node_remove p n)"

definition node_remove_part :: "filesystem \<Rightarrow> string \<Rightarrow> node_disk \<Rightarrow> (error, unit, node_disk) outcome" where
  "node_remove_part fs i n = node_remove (part_path fs i) n"

text \<open>A descriptor for reading is the number of the file.\<close>

definition node_open :: "filesystem \<Rightarrow> string \<Rightarrow> node_disk \<Rightarrow> error + nat" where
  "node_open fs i n =
     bind_sum (object_path fs i) (\<lambda>p.
       case nd_names n p of
         Some k \<Rightarrow> Inr k
       | None \<Rightarrow> Inl (File_error (if p \<in> nd_dirs n then Is_a_directory else No_such_file)))"

definition node_read :: "node_disk \<Rightarrow> nat \<Rightarrow> blob" where
  "node_read n k = f_content (nd_nodes n k)"

text \<open>An open part: its stream, if it could be opened, and what the stream has not written yet.\<close>

record node_part =
  np_id :: uuid
  np_node :: "nat option"
  np_buffer :: blob

definition node_get_part :: "libs \<Rightarrow> filesystem \<Rightarrow> uuid \<Rightarrow> node_disk \<Rightarrow> node_part \<times> node_disk" where
  "node_get_part L fs i n =
     (let p = part_path fs (uuid_text L i); part = (\<lambda>k. \<lparr>np_id = i, np_node = k, np_buffer = []\<rparr>)
      in case nd_names n p of
           Some k \<Rightarrow> (part (Some k), n)
         | None \<Rightarrow>
             if p \<in> nd_dirs n \<or> butlast p \<notin> nd_dirs n then (part None, n)
             else (part (Some (nd_next n)), n\<lparr>nd_names := (nd_names n)(p \<mapsto> nd_next n),
                 nd_nodes := (nd_nodes n)(nd_next n := \<lparr>f_content = [], f_mode = 0x1B6 AND NOT (nd_umask n)\<rparr>),
                 nd_next := Suc (nd_next n)\<rparr>))"

definition node_part_write :: "node_part \<Rightarrow> blob \<Rightarrow> node_part" where
  "node_part_write p data = (if np_node p = None then p else p\<lparr>np_buffer := np_buffer p @ data\<rparr>)"

text \<open>The stream writes the first \<open>m\<close> bytes it holds to its file; closing it writes them all.\<close>

definition node_append :: "nat \<Rightarrow> blob \<Rightarrow> node_disk \<Rightarrow> node_disk" where
  "node_append k data n =
     n\<lparr>nd_nodes := (nd_nodes n)(k := (nd_nodes n k)\<lparr>f_content := f_content (nd_nodes n k) @ data\<rparr>)\<rparr>"

definition node_flush :: "nat \<Rightarrow> node_part \<Rightarrow> node_disk \<Rightarrow> node_part \<times> node_disk" where
  "node_flush m p n =
     (p\<lparr>np_buffer := drop m (np_buffer p)\<rparr>,
      case np_node p of None \<Rightarrow> n | Some k \<Rightarrow> node_append k (take m (np_buffer p)) n)"

definition node_part_close :: "node_part \<Rightarrow> node_disk \<Rightarrow> node_disk" where
  "node_part_close p n = (case np_node p of None \<Rightarrow> n | Some k \<Rightarrow> node_append k (np_buffer p) n)"

definition node_write_part :: "libs \<Rightarrow> filesystem \<Rightarrow> uuid \<Rightarrow> blob list \<Rightarrow> node_disk \<Rightarrow> node_disk" where
  "node_write_part L fs i chunks n =
     (case node_get_part L fs i n of (p, n1) \<Rightarrow> node_part_close (foldl node_part_write p chunks) n1)"

section \<open>What one sees by name\<close>

lemma files_of_simps [simp]:
  "d_files (files_of n) p = map_option (nd_nodes n) (nd_names n p)"
  "d_dirs (files_of n) = nd_dirs n" "d_umask (files_of n) = nd_umask n"
  "is_file (files_of n) p \<longleftrightarrow> nd_names n p \<noteq> None"
  by (simp_all add: files_of_def is_file_def)

text \<open>An operation on files that does the same, by name, as one of \<open>Filesystem\<close>.\<close>

definition simulates ::
  "(node_disk \<Rightarrow> (error, 'a, node_disk) outcome) \<Rightarrow> (disk \<Rightarrow> (error, 'a, disk) outcome) \<Rightarrow> bool" where
  "simulates f g \<longleftrightarrow> (\<forall>n. names_inv n \<longrightarrow> names_inv (snd (f n)) \<and> g (files_of n) = apsnd files_of (f n))"

lemma simulatesD:
  assumes "simulates f g" and "names_inv n"
  shows "names_inv (snd (f n))" "g (files_of n) = (fst (f n), files_of (snd (f n)))"
  using assms by (simp_all add: simulates_def apsnd_def map_prod_def split: prod.split)

lemma simulates_and_then:
  assumes f: "simulates f g" and h: "\<And>x. simulates (f' x) (g' x)"
  shows "simulates (\<lambda>n. and_then (f n) f') (\<lambda>d. and_then (g d) g')"
  unfolding simulates_def
proof (intro allI impI)
  fix n assume n: "names_inv n"
  obtain r m where r: "f n = (r, m)" by fastforce
  note F = simulatesD [OF f n, unfolded r, simplified]
  show "names_inv (snd (and_then (f n) f')) \<and> and_then (g (files_of n)) g' = apsnd files_of (and_then (f n) f')"
  proof (cases r)
    case (Inl e)
    then show ?thesis using F r by simp
  next
    case (Inr x)
    then show ?thesis using F r simulatesD [OF h [of x] F(1)] by (simp add: apsnd_def map_prod_def split: prod.split)
  qed
qed

lemma names_invD:
  assumes "names_inv n" and "nd_names n p = Some k"
  shows "nd_names n q = Some k \<longleftrightarrow> q = p" "k < nd_next n"
  using assms by (auto simp: names_inv_def ran_def)

lemma simulates_unchanged: "simulates (\<lambda>n. (Inl e, n)) (\<lambda>d. (Inl e, d))"
  by (simp add: simulates_def)

lemma create_directories_files:
  assumes "create_directories p d = (r, d')" shows "d_files d' = d_files d" "d_umask d' = d_umask d"
  using assms by (auto simp: create_directories_def std_create_directories_def split: if_splits)

lemma simulates_create_directories: "simulates (node_create_directories p) (create_directories p)"
  unfolding simulates_def
proof (intro allI impI conjI)
  fix n
  obtain r d where r: "create_directories p (files_of n) = (r, d)" by fastforce
  then have n': "node_create_directories p n = (r, n\<lparr>nd_dirs := d_dirs d\<rparr>)" by (simp add: node_create_directories_def)
  show "names_inv n \<Longrightarrow> names_inv (snd (node_create_directories p n))" by (simp add: n' names_inv_def)
  show "create_directories p (files_of n) = apsnd files_of (node_create_directories p n)"
    using create_directories_files [OF r] by (simp add: n' r) (intro disk.equality, simp_all add: fun_eq_iff)
qed

text \<open>Changing a file changes what is under its one name.\<close>

lemma files_of_node:
  assumes inv: "names_inv n" and k: "nd_names n p = Some k"
  shows "files_of (n\<lparr>nd_nodes := (nd_nodes n)(k := f)\<rparr>) = (files_of n)\<lparr>d_files := (d_files (files_of n))(p \<mapsto> f)\<rparr>"
proof -
  have "map_option ((nd_nodes n)(k := f)) (nd_names n q) = map_option (nd_nodes n) (nd_names n q)" if "q \<noteq> p" for q
    using names_invD(1) [OF inv k, of q] that by (cases "nd_names n q") auto
  then show ?thesis using k by (intro disk.equality) (auto simp: fun_eq_iff)
qed

lemma names_inv_move:
  assumes inv: "names_inv n" and "nd_names n src = Some k"
  shows "names_inv (n\<lparr>nd_names := (nd_names n)(src := None, dst \<mapsto> k)\<rparr>)"
  using names_invD [OF inv] assms(2) inv by (auto simp: names_inv_def ran_def split: if_splits)

lemma simulates_rename: "simulates (node_rename src dst) (std_rename src dst)"
proof -
  have "names_inv (snd (node_rename src dst n))" if "names_inv n" for n
    using that names_inv_move [OF that, of src _ dst] by (simp add: node_rename_def split: option.split)
  moreover have "std_rename src dst (files_of n) = apsnd files_of (node_rename src dst n)" for n
    by (auto simp: std_rename_def node_rename_def files_of_def fun_eq_iff split: option.split)
  ultimately show ?thesis by (simp add: simulates_def)
qed

lemma simulates_permissions: "simulates (node_permissions p m) (std_permissions p m)"
  unfolding simulates_def
proof (intro allI impI conjI)
  fix n assume inv: "names_inv n"
  then show "names_inv (snd (node_permissions p m n))"
    by (simp add: node_permissions_def names_inv_def split: option.split)
  show "std_permissions p m (files_of n) = apsnd files_of (node_permissions p m n)"
    by (cases "nd_names n p") (simp_all add: std_permissions_def node_permissions_def files_of_node [OF inv])
qed

lemma names_inv_remove: "names_inv n \<Longrightarrow> names_inv (n\<lparr>nd_names := (nd_names n)(p := None)\<rparr>)"
  by (auto simp: names_inv_def ran_def split: if_splits)

lemma simulates_remove: "simulates (node_remove p) (\<lambda>d. and_then (std_remove p d) (\<lambda>_ d. (Inr (), d)))"
proof -
  have "and_then (std_remove p (files_of n)) (\<lambda>_ d. (Inr (), d)) = apsnd files_of (node_remove p n)" for n
    by (auto simp: std_remove_def node_remove_def files_of_def is_file_def fun_eq_iff)
  moreover have "names_inv (snd (node_remove p n))" if "names_inv n" for n
    using that names_inv_remove [OF that, of p] by (auto simp: node_remove_def)
  ultimately show ?thesis by (simp add: simulates_def)
qed

lemma simulates_make_object: "simulates (node_make_object fs i) (make_object fs i)"
proof (cases "object_path fs i")
  case (Inl e)
  then show ?thesis by (simp add: node_make_object_def [abs_def] make_object_def make_object_with_def [abs_def] simulates_unchanged)
next
  case (Inr p)
  then show ?thesis
    by (simp add: node_make_object_def [abs_def] make_object_def make_object_with_def [abs_def] simulates_and_then
        simulates_create_directories simulates_rename simulates_permissions)
qed

lemma simulates_remove_object: "simulates (node_remove_object fs i) (remove_object_file fs i)"
proof (cases "object_path fs i")
  case (Inl e)
  then show ?thesis by (simp add: node_remove_object_def [abs_def] remove_object_file_def [abs_def] simulates_unchanged)
next
  case (Inr p)
  then show ?thesis
    using simulates_remove [of p] by (simp add: node_remove_object_def [abs_def] remove_object_file_def [abs_def])
qed

lemma simulates_remove_part: "simulates (node_remove_part fs i) (remove_part fs i)"
  using simulates_remove [of "part_path fs i"] by (simp add: node_remove_part_def [abs_def] remove_part_def [abs_def])

text \<open>Reading an object by its descriptor, right after it was opened, is reading it by its name.\<close>

lemma node_open_read: "open_object fs i (files_of n) = map_sum id (node_read n) (node_open fs i n)"
  by (auto simp: open_object_def node_open_def node_read_def read_file_def bind_sum_def split: sum.split option.split)

section \<open>Parts\<close>

lemma node_part_writes:
  "foldl node_part_write p cs = (if np_node p = None then p else p\<lparr>np_buffer := np_buffer p @ concat cs\<rparr>)"
  by (induction cs arbitrary: p) (simp_all add: node_part_write_def)

lemma names_inv_fresh:
  assumes "names_inv n"
  shows "nd_names n q \<noteq> Some (nd_next n)"
    "map_option ((nd_nodes n)(nd_next n := f)) (nd_names n q) = map_option (nd_nodes n) (nd_names n q)"
  using names_invD(2) [OF assms, of q] by (auto intro!: option.map_cong)

lemma names_inv_new:
  assumes inv: "names_inv n" and "nd_names n p = None"
  shows "names_inv (n\<lparr>nd_names := (nd_names n)(p \<mapsto> nd_next n), nd_nodes := f, nd_next := Suc (nd_next n)\<rparr>)"
  using names_inv_fresh(1) [OF inv] names_invD(2) [OF inv] inv
  by (auto simp: names_inv_def ran_def intro: less_SucI split: if_splits)

text \<open>The stream is open on the file that has the part's name.\<close>

lemma node_get_part_eq:
  assumes inv: "names_inv n" and get: "node_get_part L fs i n = (p, n')"
  shows "names_inv n'" "np_id p = i" "np_buffer p = []" "nd_next n \<le> nd_next n'"
    "np_node p = Some k \<Longrightarrow> nd_names n' (part_at L fs i) = Some k"
    "nd_names n' q = Some j \<Longrightarrow> nd_names n q = Some j \<or> q = part_at L fs i \<and> j = nd_next n"
    "j < nd_next n \<Longrightarrow> nd_nodes n' j = nd_nodes n j"
    "get_part L fs i (files_of n) =
       (\<lparr>pt_id = i, pt_path = part_at L fs i, pt_good = np_node p \<noteq> None, pt_buffer = []\<rparr>, files_of n')"
proof -
  show "names_inv n'"
    using get inv names_inv_new [OF inv, of "part_at L fs i"]
    by (auto simp: node_get_part_def part_path_uuid Let_def split: option.splits if_splits)
  show "get_part L fs i (files_of n) =
      (\<lparr>pt_id = i, pt_path = part_at L fs i, pt_good = np_node p \<noteq> None, pt_buffer = []\<rparr>, files_of n')"
    using get names_inv_fresh(2) [OF inv]
    by (auto simp: node_get_part_def get_part_def open_append_def part_path_uuid files_of_def is_file_def fun_eq_iff Let_def
        split: option.splits if_splits)
qed (use get in \<open>auto simp: node_get_part_def part_path_uuid Let_def split: option.splits if_splits\<close>)

lemma node_append_eq:
  assumes "names_inv n" and "nd_names n p = Some k"
  shows "names_inv (node_append k data n)"
    "files_of (node_append k data n) = (files_of n)\<lparr>d_files := (d_files (files_of n))(p \<mapsto>
       (nd_nodes n k)\<lparr>f_content := f_content (nd_nodes n k) @ data\<rparr>)\<rparr>"
  using assms by (simp_all add: node_append_def files_of_node) (simp add: names_inv_def)

text \<open>A request that gets a part, writes it and closes it does by name what \<open>Filesystem\<close> says.\<close>

lemma node_write_part_eq:
  assumes inv: "names_inv n"
  shows "names_inv (node_write_part L fs i cs n)"
    "write_part L fs i cs (files_of n) = files_of (node_write_part L fs i cs n)"
proof -
  obtain p n' where get: "node_get_part L fs i n = (p, n')" by fastforce
  note G = node_get_part_eq [OF inv get]
  show "names_inv (node_write_part L fs i cs n)"
    using G(1,5) node_append_eq(1) [OF G(1)]
    by (auto simp: node_write_part_def get node_part_writes node_part_close_def split: option.split)
  show "write_part L fs i cs (files_of n) = files_of (node_write_part L fs i cs n)"
    using G(3,5,8) node_append_eq(2) [OF G(1)]
    by (auto simp: write_part_def node_write_part_def get node_part_writes node_part_close_def part_close_def part_writes
        part_writes_bad split: option.split)
qed

section \<open>The interface of the object store\<close>

definition node_layout :: "libs \<Rightarrow> filesystem \<Rightarrow> node_disk \<Rightarrow> bool" where
  "node_layout L fs n \<longleftrightarrow> names_inv n \<and> layout L fs (files_of n)"

interpretation node_blobs: blob_store "node_layout L fs" "\<lambda>n. stored L fs (files_of n)" "\<lambda>n. staged L fs (files_of n)"
    "\<lambda>i. node_make_object fs (uuid_text L i)" "\<lambda>i. node_remove_part fs (uuid_text L i)"
    "\<lambda>i. node_remove_object fs (uuid_text L i)" "node_write_part L fs"
  for L fs
proof (unfold_locales, goal_cases)
  case (1 n i c)
  then show ?case
    using blobs.commit_hit [of L fs "files_of n" i c] simulatesD [OF simulates_make_object, of n fs "uuid_text L i"]
    by (cases "node_make_object fs (uuid_text L i) n") (auto simp: node_layout_def)
next
  case (2 n i)
  then show ?case
    using blobs.commit_miss [of L fs "files_of n" i] simulatesD [OF simulates_make_object, of n fs "uuid_text L i"]
    by (cases "node_make_object fs (uuid_text L i) n") (auto simp: node_layout_def)
next
  case (3 n i)
  then show ?case
    using blobs.drop_law [of L fs "files_of n" i] simulatesD [OF simulates_remove_part, of n fs "uuid_text L i"]
    by (cases "node_remove_part fs (uuid_text L i) n") (auto simp: node_layout_def)
next
  case (4 n i)
  then show ?case
    using blobs.erase_law [of L fs "files_of n" i] simulatesD [OF simulates_remove_object, of n fs "uuid_text L i"]
    by (cases "node_remove_object fs (uuid_text L i) n") (auto simp: node_layout_def)
next
  case (5 n i cs)
  then show ?case
    using blobs.stage_law [of L fs "files_of n" i cs] node_write_part_eq [of n L fs i cs] by (simp add: node_layout_def)
qed

end
