(* ===== verification/Descriptors.thy ===== *)
theory Descriptors
  imports Inodes Check_Laws Sample
begin

text \<open>
  Descriptors that are open while others change the names: downloads, which hold an object's file open until it is sent,
  and uploads, which hold a part's stream open until the data has arrived.
\<close>

section \<open>Requests with open descriptors\<close>

text \<open>
  The streams of the uploads that are running, and what they and others do to the disk.  A stream writes what it holds when
  it likes and at the latest when it is closed; a part may be made an object while a stream is open on it.  Downloads
  change nothing on the disk: a download is the number of the file it has opened.
\<close>

record transfers =
  tr_disk :: node_disk
  tr_streams :: "node_part list"

inductive transfer_step :: "libs \<Rightarrow> filesystem \<Rightarrow> transfers \<Rightarrow> transfers \<Rightarrow> bool" for L fs where
  Open_part: "node_get_part L fs i (tr_disk s) = (p, n) \<Longrightarrow>
    transfer_step L fs s (s\<lparr>tr_disk := n, tr_streams := p # tr_streams s\<rparr>)"
| Receive: "p \<in> set (tr_streams s) \<Longrightarrow>
    transfer_step L fs s (s\<lparr>tr_streams := node_part_write p chunk # remove1 p (tr_streams s)\<rparr>)"
| Flush: "p \<in> set (tr_streams s) \<Longrightarrow> node_flush m p (tr_disk s) = (p', n) \<Longrightarrow>
    transfer_step L fs s (s\<lparr>tr_disk := n, tr_streams := p' # remove1 p (tr_streams s)\<rparr>)"
| Close_part: "p \<in> set (tr_streams s) \<Longrightarrow>
    transfer_step L fs s (s\<lparr>tr_disk := node_part_close p (tr_disk s), tr_streams := remove1 p (tr_streams s)\<rparr>)"
| Make_object: "node_make_object fs (uuid_text L i) (tr_disk s) = (r, n) \<Longrightarrow> transfer_step L fs s (s\<lparr>tr_disk := n\<rparr>)"
| Remove_part: "node_remove_part fs (uuid_text L i) (tr_disk s) = (r, n) \<Longrightarrow> transfer_step L fs s (s\<lparr>tr_disk := n\<rparr>)"
| Remove_object: "node_remove_object fs (uuid_text L i) (tr_disk s) = (r, n) \<Longrightarrow>
    transfer_step L fs s (s\<lparr>tr_disk := n\<rparr>)"

inductive_cases transfer_stepE: "transfer_step L fs s t"

section \<open>A file that is being read\<close>

text \<open>
  A file that was opened as an object's is no part, so no new stream is opened on it; streams that were open on it before
  only append.
\<close>

definition no_stream_on :: "nat \<Rightarrow> transfers \<Rightarrow> bool" where
  "no_stream_on k s \<longleftrightarrow> (\<forall>p \<in> set (tr_streams s). np_node p \<noteq> Some k)"

definition being_read :: "libs \<Rightarrow> filesystem \<Rightarrow> nat \<Rightarrow> blob \<Rightarrow> bool \<Rightarrow> transfers \<Rightarrow> bool" where
  "being_read L fs k c unshared s \<longleftrightarrow> node_layout L fs (tr_disk s) \<and> k < nd_next (tr_disk s) \<and>
     (\<forall>i. nd_names (tr_disk s) (part_at L fs i) \<noteq> Some k) \<and> prefix c (node_read (tr_disk s) k) \<and>
     (unshared \<longrightarrow> no_stream_on k s \<and> node_read (tr_disk s) k = c)"

lemma node_layoutD:
  assumes "node_layout L fs n" shows "names_inv n" "uuid_law L" "disk_inv fs (files_of n)"
  using assms by (simp_all add: node_layout_def layout_def)

text \<open>What making an object and removing a name do to the names.\<close>

lemma node_make_object_names:
  assumes lay: "node_layout L fs n" and make: "node_make_object fs (uuid_text L i) n = (r, n')"
  shows "nd_next n' = nd_next n" "f_content (nd_nodes n' k) = f_content (nd_nodes n k)"
    "nd_names n' = nd_names n \<or>
      (\<exists>k. nd_names n (part_at L fs i) = Some k \<and> nd_names n' = (nd_names n)(part_at L fs i := None, object_at L fs i \<mapsto> k))"
  using make
  by (auto simp: node_make_object_def object_path_uuid [OF node_layoutD(2) [OF lay]] part_path_uuid node_rename_def
      node_permissions_def node_create_directories_def and_then_def
      split: prod.splits sum.splits option.splits if_splits)

lemma node_remove_names:
  assumes "node_remove p n = (r, n')"
  shows "nd_next n' = nd_next n" "nd_nodes n' = nd_nodes n" "nd_names n' q = Some k \<Longrightarrow> nd_names n q = Some k"
  using assms by (auto simp: node_remove_def split: if_splits)

lemma node_get_part_layout:
  assumes lay: "node_layout L fs n" and get: "node_get_part L fs i n = (p, n')"
  shows "node_layout L fs n'"
proof -
  have "node_part_close p n' = n'"
    using node_get_part_eq(3) [OF node_layoutD(1) [OF lay] get]
    by (simp add: node_part_close_def node_append_def split: option.split)
  then show ?thesis
    using node_blobs.stage_law [OF lay, of i "[]"] by (simp add: node_write_part_def get)
qed

lemma node_append_layout: "node_layout L fs n \<Longrightarrow> node_layout L fs (node_append k data n)"
  by (simp add: node_layout_def layout_def disk_inv_def dirs_inv_def files_inv_def names_inv_def node_append_def)

lemma node_part_close_layout: "node_layout L fs n \<Longrightarrow> node_layout L fs (node_part_close p n)"
  by (simp add: node_part_close_def node_append_layout split: option.split)

lemma node_flush_close: "node_flush m p n = (p', n') \<Longrightarrow>
    n' = node_part_close (p\<lparr>np_buffer := take m (np_buffer p)\<rparr>) n \<and> np_node p' = np_node p \<and> np_id p' = np_id p"
  by (auto simp: node_flush_def node_part_close_def split: option.splits)

section \<open>Every step keeps it\<close>

text \<open>Names only vanish, or go from a part to an object, and contents are the same.\<close>

lemma being_read_same_contents:
  assumes r: "being_read L fs k c unshared s" and lay: "node_layout L fs n"
    and same: "nd_next n = nd_next (tr_disk s)" "f_content (nd_nodes n k) = f_content (nd_nodes (tr_disk s) k)"
    and names: "\<And>i. nd_names n (part_at L fs i) = Some k \<Longrightarrow> nd_names (tr_disk s) (part_at L fs i) = Some k"
  shows "being_read L fs k c unshared (s\<lparr>tr_disk := n\<rparr>)"
  using r lay names by (auto simp: being_read_def no_stream_on_def node_read_def same)

lemma being_read_streams:
  assumes r: "being_read L fs k c unshared s" and ps: "\<And>q. q \<in> set ps \<Longrightarrow> \<exists>p \<in> set (tr_streams s). np_node p = np_node q"
  shows "being_read L fs k c unshared (s\<lparr>tr_streams := ps\<rparr>)"
proof -
  have "no_stream_on k (s\<lparr>tr_streams := ps\<rparr>)" if "no_stream_on k s"
    using that ps by (fastforce simp: no_stream_on_def)
  with r show ?thesis by (simp add: being_read_def)
qed

lemma being_read_stream:
  assumes "being_read L fs k c unshared s" and "p \<in> set (tr_streams s)" and "np_node q = np_node p"
  shows "being_read L fs k c unshared (s\<lparr>tr_streams := q # remove1 p (tr_streams s)\<rparr>)"
  using assms by (intro being_read_streams [OF assms(1)]) (auto dest: set_remove1_subset [THEN subsetD])

lemma being_read_part_close:
  assumes r: "being_read L fs k c unshared s" and p: "p \<in> set (tr_streams s)" and q: "np_node q = np_node p"
  shows "being_read L fs k c unshared (s\<lparr>tr_disk := node_part_close q (tr_disk s)\<rparr>)"
proof -
  let ?n = "node_part_close q (tr_disk s)"
  have same: "nd_names ?n = nd_names (tr_disk s)" "nd_next ?n = nd_next (tr_disk s)"
    by (simp_all add: node_part_close_def node_append_def split: option.split)
  have "\<exists>xs. node_read ?n k = node_read (tr_disk s) k @ xs \<and> (np_node p \<noteq> Some k \<longrightarrow> xs = [])"
    using q by (auto simp: node_part_close_def node_append_def node_read_def split: option.split)
  then show ?thesis
    using r p node_part_close_layout [of L fs "tr_disk s" q]
    by (auto simp: being_read_def no_stream_on_def same prefix_def)
qed

lemma being_read_open_part:
  assumes r: "being_read L fs k c unshared s" and get: "node_get_part L fs i (tr_disk s) = (p, n)"
  shows "being_read L fs k c unshared (s\<lparr>tr_disk := n, tr_streams := p # tr_streams s\<rparr>)"
proof -
  have lay: "node_layout L fs (tr_disk s)" and k: "k < nd_next (tr_disk s)"
    and part: "\<And>j. nd_names (tr_disk s) (part_at L fs j) \<noteq> Some k"
    using r by (simp_all add: being_read_def)
  note G = node_get_part_eq [OF node_layoutD(1) [OF lay] get]
  have names: "nd_names n (part_at L fs j) \<noteq> Some k" for j
    using G(6) [of "part_at L fs j" k] part k by auto
  moreover have "np_node p \<noteq> Some k" using G(5) names by blast
  moreover have "node_read n k = node_read (tr_disk s) k" using G(7) [OF k] by (simp add: node_read_def)
  ultimately show ?thesis
    using r k G(4) node_get_part_layout [OF lay get] by (simp add: being_read_def no_stream_on_def)
qed

lemma being_read_step:
  assumes r: "being_read L fs k c unshared s" and step: "transfer_step L fs s t"
  shows "being_read L fs k c unshared t"
proof -
  have lay: "node_layout L fs (tr_disk s)" using r by (simp add: being_read_def)
  note L = node_layoutD [OF lay]
  from step show ?thesis
  proof cases
    case (Open_part i p n) then show ?thesis using being_read_open_part [OF r] by simp
  next
    case (Receive p chunk)
    then show ?thesis
      using being_read_stream [OF r, of p "node_part_write p chunk"] by (simp add: node_part_write_def)
  next
    case (Flush p m p' n)
    note F = node_flush_close [OF Flush(3)]
    have "being_read L fs k c unshared (s\<lparr>tr_disk := n\<rparr>)"
      using being_read_part_close [OF r Flush(2), of "p\<lparr>np_buffer := take m (np_buffer p)\<rparr>"] F by simp
    from being_read_stream [OF this, of p p'] show ?thesis using Flush(1,2) F by simp
  next
    case (Close_part p)
    then show ?thesis
      using being_read_streams [OF being_read_part_close [OF r Close_part(2) refl], of "remove1 p (tr_streams s)"]
      by (auto dest: set_remove1_subset [THEN subsetD])
  next
    case (Make_object i z n)
    note N = node_make_object_names [OF lay Make_object(2)]
    have "nd_names (tr_disk s) (part_at L fs j) = Some k" if "nd_names n (part_at L fs j) = Some k" for j
      using N(3) that object_at_not_part [OF L(3)] object_at_not_part [OF L(3), symmetric]
      by (auto split: if_splits)
    then show ?thesis
      unfolding Make_object(1) using node_blobs.commit_inv [OF lay, of i] Make_object(2)
      by (intro being_read_same_contents [OF r _ N(1,2)]) simp_all
  next
    case (Remove_part i z n)
    then show ?thesis
      unfolding Remove_part(1) using node_blobs.drop_law [OF lay, of i] node_remove_names
      by (intro being_read_same_contents [OF r]) (auto simp: node_remove_part_def)
  next
    case (Remove_object i z n)
    then have rem: "node_remove (object_at L fs i) (tr_disk s) = (z, n)"
      by (simp add: node_remove_object_def object_path_uuid [OF L(2)])
    show ?thesis
      unfolding Remove_object(1) using Remove_object(2) node_blobs.erase_law [OF lay, of i] node_remove_names [OF rem]
      by (intro being_read_same_contents [OF r]) auto
  qed
qed

interpretation readers: invariant_system "transfer_step L fs" "being_read L fs k c unshared" for L fs k c unshared
  by unfold_locales (rule being_read_step)

section \<open>Downloads\<close>

lemma stored_opens:
  assumes lay: "node_layout L fs n" and c: "stored L fs (files_of n) x = Some c"
  obtains k where "node_open fs (uuid_text L x) n = Inr k" "node_read n k = c"
  using c by (auto simp: stored_def node_open_def object_path_uuid [OF node_layoutD(2) [OF lay]] node_read_def)

lemma opened_stored:
  assumes lay: "node_layout L fs n" and "node_open fs (uuid_text L x) n = Inr k"
  shows "stored L fs (files_of n) x = Some (node_read n k)"
  using assms(2) by (auto simp: stored_def node_open_def object_path_uuid [OF node_layoutD(2) [OF lay]] node_read_def
      split: option.splits)

lemma open_being_read:
  assumes lay: "node_layout L fs (tr_disk s)" and k: "node_open fs (uuid_text L x) (tr_disk s) = Inr k"
  shows "being_read L fs k (node_read (tr_disk s) k) (no_stream_on k s) s"
proof -
  note L = node_layoutD [OF lay]
  have name: "nd_names (tr_disk s) (object_at L fs x) = Some k"
    using k by (auto simp: node_open_def object_path_uuid [OF L(2)] split: option.splits)
  have "nd_names (tr_disk s) (part_at L fs j) \<noteq> Some k" for j
    using names_invD(1) [OF L(1) name] object_at_not_part [OF L(3)] by metis
  then show ?thesis using lay names_invD(2) [OF L(1) name] by (simp add: being_read_def)
qed

text \<open>C11: A download that has opened its object reads what the object was then, however long it takes: uploads may
  arrive and be committed, the object removed and pruned, its id used again.  If no stream of an upload was open on the
  object's file at that moment, the file does not change at all; if one was (which the server does not exclude, and
  then the object itself changes), what the object was is still what the file begins with.\<close>

theorem download_unaffected:
  assumes lay: "node_layout L fs (tr_disk s)" and k: "node_open fs (uuid_text L x) (tr_disk s) = Inr k"
    and t: "(transfer_step L fs)\<^sup>*\<^sup>* s t"
  shows "\<exists>c. stored L fs (files_of (tr_disk s)) x = Some c \<and> prefix c (node_read (tr_disk t) k) \<and>
    ((\<forall>p \<in> set (tr_streams s). np_node p \<noteq> Some k) \<longrightarrow> node_read (tr_disk t) k = c)"
proof -
  have "being_read L fs k (node_read (tr_disk s) k) (no_stream_on k s) t"
    by (rule readers.inv_reachable [OF t open_being_read [OF lay k]])
  then show ?thesis
    using opened_stored [OF lay k] by (simp add: being_read_def no_stream_on_def)
qed

text \<open>An upload that is committed, downloaded, and pruned while the download runs.\<close>

definition n0 :: node_disk where
  "n0 = \<lparr>nd_names = Map.empty, nd_nodes = (\<lambda>_. \<lparr>f_content = [], f_mode = 0\<rparr>), nd_next = 0,
     nd_dirs = d_dirs (w_disk w0), nd_umask = d_umask (w_disk w0)\<rparr>"

lemma n0_files: "files_of n0 = w_disk w0"
proof -
  have "d_files (w_disk w0) = Map.empty"
    using filesystem_new_blank [of "[''data'']" "0x12"] by (auto simp: w0_def new_store_def)
  then show ?thesis by (intro disk.equality) (simp_all add: n0_def fun_eq_iff)
qed

lemma n0_layout: "node_layout sample fs0 n0"
  using store_invD(2,5) [OF sample_inv(1)] n0_files by (simp add: node_layout_def layout_def names_inv_def n0_def)

definition n1 :: node_disk where
  "n1 = snd (node_make_object fs0 (uuid_text sample 5) (node_write_part sample fs0 5 [[104, 105]] n0))"

lemma n1_layout: "node_layout sample fs0 n1" "stored sample fs0 (files_of n1) 5 = Some [104, 105]"
proof -
  have "staged sample fs0 (files_of n0) 5 = None" by (simp add: n0_files w0_parts(2))
  from node_blobs.stage_commit [OF n0_layout this, of "[[104, 105]]"]
  show "node_layout sample fs0 n1" "stored sample fs0 (files_of n1) 5 = Some [104, 105]" by (auto simp: n1_def)
qed

theorem download_unaffected_witness:
  "\<exists>k m. node_open fs0 (uuid_text sample 5) n1 = Inr k \<and> stored sample fs0 (files_of m) 5 = None \<and>
     node_read m k = [104, 105]"
proof -
  obtain k where k: "node_open fs0 (uuid_text sample 5) n1 = Inr k" using stored_opens [OF n1_layout] by metis
  obtain m where m: "node_remove_object fs0 (uuid_text sample 5) n1 = (Inr (), m)"
    "stored sample fs0 (files_of m) 5 = None"
    using node_blobs.erase_law [OF n1_layout(1), of 5] by auto
  let ?s = "\<lparr>tr_disk = n1, tr_streams = []\<rparr>"
  have "transfer_step sample fs0 ?s (?s\<lparr>tr_disk := m\<rparr>)"
    using transfer_step.Remove_object [of fs0 sample 5 ?s] m(1) by simp
  then have t: "(transfer_step sample fs0)\<^sup>*\<^sup>* ?s (?s\<lparr>tr_disk := m\<rparr>)" by (rule r_into_rtranclp)
  have "node_read m k = [104, 105]"
    using download_unaffected [OF _ _ t, of 5 k] n1_layout k by simp
  with k m(2) show ?thesis by blast
qed

section \<open>A stream that is still open\<close>

text \<open>
  The server may still hold the stream of an upload that broke off, with bytes it has not written yet, when the client
  resumes the upload under the same part id.
\<close>

lemma opened_part_names:
  assumes lay: "node_layout L fs n" and get: "node_get_part L fs i n = (p, m)"
  obtains k where "np_node p = Some k" "nd_names m (part_at L fs i) = Some k"
proof -
  note L = node_layoutD [OF lay]
  have "np_node p \<noteq> None"
    using get part_at_not_dir [OF L(3), of L i] part_dir [OF L(3)]
    by (auto simp: node_get_part_def part_path_uuid Let_def split: option.splits if_splits)
  then show ?thesis using node_get_part_eq(5) [OF L(1) get] that by blast
qed

lemma opened_part_staged:
  assumes lay: "node_layout L fs n" and get: "node_get_part L fs i n = (p, m)"
  shows "staged L fs (files_of m) i = Some (case staged L fs (files_of n) i of None \<Rightarrow> [] | Some c \<Rightarrow> c)"
proof -
  have "node_part_close p m = m"
    using node_get_part_eq(3) [OF node_layoutD(1) [OF lay] get]
    by (simp add: node_part_close_def node_append_def split: option.split)
  then show ?thesis using node_blobs.stage_law [OF lay, of i "[]"] by (simp add: node_write_part_def get)
qed

lemma node_write_part_names:
  assumes "nd_names m (part_at L fs i) = Some k" shows "nd_names (node_write_part L fs i ys m) = nd_names m"
  using assms by (simp add: node_write_part_def node_get_part_def part_path_uuid Let_def node_part_writes
      node_part_close_def node_append_def)

lemma node_append_stored:
  assumes lay: "node_layout L fs n" and k: "nd_names n (object_at L fs i) = Some k" and c: "stored L fs (files_of n) i = Some c"
  shows "stored L fs (files_of (node_append k data n)) i = Some (c @ data)"
  using c k node_append_eq(2) [OF node_layoutD(1) [OF lay] k, of data] by (simp add: stored_def)

text \<open>C16: If it is closed after the resumed upload was committed, what it held is written into the file of the object:
  the object was sound, and its content no longer has its digest.\<close>

theorem stale_stream_corrupts:
  assumes lay: "node_layout L fs n" and broken: "node_get_part L fs i n = (a, m)"
    and c: "c = (case staged L fs (files_of n) i of None \<Rightarrow> [] | Some c \<Rightarrow> c) @ concat ys"
    and commit: "node_make_object fs (uuid_text L i) (node_write_part L fs i ys m) = (r, v)"
    and obj: "db_o_id obj = i" "db_o_hash obj = sha256sum L c" and other: "sha256sum L (c @ concat xs) \<noteq> sha256sum L c"
  shows "r = Inr () \<and> stored L fs (files_of v) i = Some c \<and> check_object L fs (files_of v) obj = [] \<and>
    stored L fs (files_of (node_part_close (foldl node_part_write a xs) v)) i = Some (c @ concat xs) \<and>
    check_object L fs (files_of (node_part_close (foldl node_part_write a xs) v)) obj = ''hash mismatch''"
proof -
  note L = node_layoutD [OF lay] and lay_m = node_get_part_layout [OF lay broken]
  let ?w = "node_write_part L fs i ys m" and ?v = "node_part_close (foldl node_part_write a xs) v"
  obtain k where k: "np_node a = Some k" "nd_names m (part_at L fs i) = Some k" by (rule opened_part_names [OF lay broken])
  have w: "node_layout L fs ?w" "staged L fs (files_of ?w) i = Some c"
    using node_blobs.stage_law [OF lay_m, of i ys] opened_part_staged [OF lay broken] c by simp_all
  have v: "r = Inr ()" "node_layout L fs v" "stored L fs (files_of v) i = Some c" "staged L fs (files_of v) i = None"
    using node_blobs.commit_hit [OF w] commit by auto
  have "nd_names v (object_at L fs i) = Some k"
    using node_make_object_names(3) [OF w(1) commit] v(4) node_write_part_names [OF k(2)] k(2) by (auto simp: staged_def)
  from node_append_stored [OF v(2) this v(3)] have sv: "stored L fs (files_of ?v) i = Some (c @ concat xs)"
    using node_get_part_eq(3) [OF L(1) broken] k(1) by (simp add: node_part_writes node_part_close_def)
  have "disk_inv fs (files_of ?v)" using node_layoutD(3) [OF node_part_close_layout [OF v(2)]] .
  then show ?thesis
    using v sv obj other node_layoutD(3) [OF v(2)] by (simp add: check_object_eq [OF L(2)])
qed

theorem stale_stream_corrupts_witness:
  "\<exists>v a. stored sample fs0 (files_of v) 5 = Some [104, 105] \<and>
     check_object sample fs0 (files_of (node_part_close (foldl node_part_write a [[33]]) v))
       \<lparr>db_o_id = 5, db_o_hash = ''6869'', db_o_size = 2, db_o_type = ''text'', db_o_subtype = ''plain'',
        db_o_date_added = 200\<rparr> = ''hash mismatch''"
proof -
  obtain a m where a: "node_get_part sample fs0 5 n0 = (a, m)" by fastforce
  obtain r v where v: "node_make_object fs0 (uuid_text sample 5) (node_write_part sample fs0 5 [[104, 105]] m) = (r, v)"
    by fastforce
  have c: "[104, 105] = (case staged sample fs0 (files_of n0) 5 of None \<Rightarrow> [] | Some c \<Rightarrow> c) @ concat [[104, 105]]"
    by (simp add: n0_files w0_parts(2))
  have "sha256sum sample ([104, 105] @ concat [[33]]) \<noteq> sha256sum sample [104, 105]"
    by (simp add: sha256sum_def sample_def hex_digit_def tolower_def less_eq_char_def drop_bit_Suc)
  from stale_stream_corrupts [OF n0_layout a c v _ _ this, of "\<lparr>db_o_id = 5, db_o_hash = ''6869'', db_o_size = 2,
      db_o_type = ''text'', db_o_subtype = ''plain'', db_o_date_added = 200\<rparr>"] hash_hi show ?thesis
    by (intro exI [of _ v] exI [of _ a]) simp
qed

end
