(* ===== verification/Disk_Full.thy ===== *)
theory Disk_Full
  imports Server_Laws Sample
begin

text \<open>
  Uploads onto a disk that runs full.  \<open>part::write\<close> does not look at the state of its \<open>std::ofstream\<close>, and the
  stream's exceptions are off: a write that fails sets the stream bad, later writes do nothing, and the destructor
  swallows what its flush meets.  So of all that was written the prefix that fitted is in the file, and nobody is told.
\<close>

definition part_close_within :: "nat \<Rightarrow> part \<Rightarrow> disk \<Rightarrow> disk" where
  "part_close_within room p d = part_close (p\<lparr>pt_buffer := take room (pt_buffer p)\<rparr>) d"

text \<open>The two handlers of uploads, with room for so many bytes.\<close>

definition router_add_object_within ::
  "nat \<Rightarrow> libs \<Rightarrow> filesystem \<Rightarrow> uuid \<Rightarrow> time_point \<Rightarrow> uuid \<Rightarrow> uuid option \<Rightarrow> upload \<Rightarrow> world \<Rightarrow>
   (error, object, world) outcome" where
  "router_add_object_within room L fs generated now b request stream w =
     (case store_get_part L fs generated request w of (p, v1) \<Rightarrow>
        let part_id = pt_id p;
            p' = foldl part_write p (up_chunks stream);
            v2 = v1\<lparr>w_disk := part_close_within room p' (w_disk v1)\<rparr>
        in case up_fault stream of
             Some e \<Rightarrow> (Inl e, v2)
           | None \<Rightarrow> commit_part L fs now b part_id v2)"

definition http_add_object_within ::
  "nat \<Rightarrow> libs \<Rightarrow> filesystem \<Rightarrow> uuid \<Rightarrow> time_point \<Rightarrow> uuid \<Rightarrow> uint64 \<Rightarrow> body_stream \<Rightarrow> world \<Rightarrow>
   (error, object, world) outcome option" where
  "http_add_object_within room L fs generated now b content_length reads w =
     (case store_get_part L fs generated None w of (p, v1) \<Rightarrow>
        (case upload_loop reads content_length 0 0 p of
           None \<Rightarrow> None
         | Some (r, p') \<Rightarrow>
             let v2 = v1\<lparr>w_disk := part_close_within room p' (w_disk v1)\<rparr>
             in case r of
                  Inl e \<Rightarrow> Some (Inl e, v2)
                | Inr _ \<Rightarrow> Some (commit_part L fs now b (pt_id p) v2)))"

section \<open>What fits is what is uploaded\<close>

lemma store_get_part_fresh: "store_get_part L fs g req w = (p, v1) \<Longrightarrow> pt_buffer p = []"
  by (auto simp: store_get_part_def get_part_def Let_def split: prod.splits)

lemma part_close_prefix:
  assumes "pt_buffer p = []"
  shows "part_close_within room (foldl part_write p chunks) d =
    part_close (foldl part_write p [take room (concat chunks)]) d"
proof (cases "pt_good p")
  case True
  then show ?thesis using assms by (simp add: part_close_within_def part_writes part_write_def)
next
  case False
  then show ?thesis by (simp add: part_close_within_def part_writes_bad part_close_def part_write_def)
qed

lemma router_add_object_prefix:
  "router_add_object_within room L fs g now b req \<lparr>up_chunks = cs, up_fault = f\<rparr> w =
   router_add_object L fs g now b req \<lparr>up_chunks = [take room (concat cs)], up_fault = f\<rparr> w"
  using store_get_part_fresh [of L fs g req w]
  by (simp add: router_add_object_within_def router_add_object_def part_close_prefix Let_def
      del: foldl_Cons split: prod.split option.split)

lemma part_write_concat: "part_write p (concat cs) = foldl part_write p cs"
  by (cases "pt_good p") (simp_all add: part_writes part_writes_bad part_write_def)

lemma router_add_object_fits:
  "length (concat cs) \<le> room \<Longrightarrow>
   router_add_object_within room L fs g now b req \<lparr>up_chunks = cs, up_fault = f\<rparr> w =
   router_add_object L fs g now b req \<lparr>up_chunks = cs, up_fault = f\<rparr> w"
  by (simp add: router_add_object_prefix router_add_object_eq upload_part_def part_write_concat)

text \<open>A body of HTTP that arrives in full is treated alike.\<close>

lemma http_add_object_prefix:
  assumes "\<forall>k<m. reads k = Inr (c k)" and "\<forall>k<m. bytes_read c k < unat content_length"
    and "unat content_length \<le> bytes_read c m" and "bytes_read c m < 2 ^ 64"
  shows "http_add_object_within room L fs g now b content_length reads w =
    Some (router_add_object_within room L fs g now b None \<lparr>up_chunks = map c [0..<m], up_fault = None\<rparr> w)"
proof -
  have "upload_loop reads content_length 0 0 p = Some (Inr (), foldl part_write p (map c [0..<m]))" for p
    using assms by (intro upload_loop_complete) auto
  then show ?thesis
    by (simp add: http_add_object_within_def router_add_object_within_def Let_def split: prod.split)
qed




end
