(* ===== verification/Spec2Isabelle.thy ===== *)
theory Spec2Isabelle
  imports Store_Properties Refinement_Properties Linear_Properties Bucket_Properties Check_Beside_Properties Check_Race
    Server_Properties Http_Properties Cli_Properties Backup_Roundtrip Catalogue_Properties Sync_Properties
    Check_Command_Properties Start_Properties Program_Properties Unit_Tests Listen Part_Reuse Descriptors Disk_Full
begin

text \<open>
  FStore keeps objects (contents of any size) in named buckets.  The catalogue is a PostgreSQL database whose
  only interface are stored functions; the contents are files below a home directory.  An object is stored
  once, however many buckets list it: it is found by its SHA-256 digest.  A server offers the store over a
  binary protocol (zipline) and over HTTP; a command line program works on the store directly.

  \<^bold>\<open>The program's parts and their theories\<close>

  \<^item> The data (\<open>include/fstore/model\<close>, \<open>include/internal/core/db/model\<close>, \<open>include/fstore/except.hpp\<close>): \<open>Model_Types\<close>.
    Structs are records; sizes are 64-bit words in the public structs and bounded integers (\<open>is_int64\<close>) in the
    database's, with the conversions between them; exceptions are the datatype \<open>error\<close>.  \<open>Codec\<close> has the JSON and
    the zipline form of every public struct.
  \<^item> The database (\<open>share/fstore/db\<close>): \<open>Data_Schema\<close> has the tables as lists of rows, with their constraints
    (\<open>db_inv\<close>); \<open>Data_Api\<close> the views and every stored function, whose exceptions are SQL states.  A function is one
    transaction.  \<open>Connection\<close> is \<open>src/libcore/db\<close>: statements prepared by the pool and called by name, and the
    translation of SQL states to the program's exceptions.
  \<^item> The files (\<open>src/libcore/fs\<close>): \<open>Filesystem\<close>, over a disk of directories and of files with a content and a mode.
    Objects lie under \<open>objects/ab/cd/abcd...\<close>, unfinished uploads under \<open>parts\<close>.  \<open>Inodes\<close> has the same operations
    with the names and the files apart, for what happens to descriptors that are open.
  \<^item> The object store (\<open>src/libcore/object_store.cpp\<close>): \<open>Object_Store\<close> has every operation, over a \<open>world\<close> that
    consists of the database and the disk.  \<open>Store_System\<close> is the store as a transition system of whole operations,
    \<open>Interleaving\<close> as one of their halves: \<open>commit_part\<close> and \<open>prune\<close> are cut at their database call, requests
    interleave freely (an upload chunk by chunk: \<open>Write\<close> steps under one part id), and processes are killed.  The steps
    carry labels and have no conditions but the program's; that clients keep part ids apart is the condition
    \<open>part_ids_apart\<close> on the labels of a run, and stands in each theorem that needs it.
  \<^item> The classes the store is written against (\<open>connection.hpp\<close>, \<open>database.hpp\<close>, \<open>filesystem.hpp\<close>): \<open>Interfaces\<close>
    has them as records of their virtual methods, with the real classes, the wrapper and the doubles of the tests as
    their values, and the object store over any of them.
  \<^item> The integrity check (\<open>object_store::check\<close>): \<open>Check\<close>.  The coroutine, its detached tasks and the two record
    lists are a step relation with one step per resumption, over all schedules.  The command \<open>check\<close> runs it beside
    a coroutine that prints progress: \<open>Check_Command\<close>.
  \<^item> The binary protocol (\<open>src/libserver/router.cpp\<close>, \<open>include/internal/server\<close>, \<open>src/libfstore\<close>): \<open>Router\<close> is the server's
    side, \<open>Client\<close> the client's, with the three ways to receive a download; \<open>Wire\<close> puts a client and the store at the two
    ends of the protocol.
  \<^item> HTTP (\<open>src/libserver/http/router.cpp\<close>, \<open>src/libfstore/detail/http\<close>, \<open>src/libfstore/sync/http\<close>): \<open>Http_Router\<close> has the
    routes and the requests, \<open>Sync_Client\<close> the synchronous client with the server at its other end; \<open>Http_Wire\<close> puts
    client, server and store together.
  \<^item> The command line (\<open>src/fstore\<close>, \<open>include/internal/table.hpp\<close>): \<open>Cli\<close> has the tables and the commands on the store
    and \<open>archive\<close> and \<open>restore\<close> as sequences of actions; \<open>Start\<close> has \<open>start\<close> with its signals, \<open>init\<close> and \<open>migrate\<close>;
    \<open>Listen\<close> the servers it starts (\<open>src/libserver/server.cpp\<close>, \<open>http/server.cpp\<close>) and the connection of a client;
    \<open>Conf\<close> the configuration (\<open>src/libconf\<close>); \<open>Program\<close> the entry, and the options and arguments of all commands.
    \<open>Backup\<close> composes \<open>archive\<close> and \<open>restore\<close> with the working server.

  \<^bold>\<open>Conventions\<close>

  An operation takes the state it changes last and returns its result with the new state (\<open>outcome\<close>); \<open>and_then\<close>
  is the sequencing of statements, and what the code throws is \<open>Inl\<close>.  \<open>Prelude\<close> holds these and the generic lemmas,
  \<open>Transitions\<close> the notion of a process: the locales \<open>invariant_system\<close>, \<open>guarded_system\<close> (runs
  whose labels meet a condition) and \<open>terminating_system\<close>, which the step relations of the development interpret.  The contracts between components are locales too: \<open>object_catalog\<close>
  (\<open>Connection_Laws\<close>) is what the store relies on in the database, \<open>blob_store\<close> (\<open>Filesystem_Laws\<close>) what it relies
  on in the disk; each is interpreted on the model.

  Third-party code is the record \<open>libs\<close> and its extensions: SHA-256, libmagic, the text of a uuid, trimming, what
  exceptions say, the row a query delivers.  \<open>laws\<close> and the other predicates named \<open>..._law\<close> state the documented
  behaviour that a property relies on; \<open>Sample\<close> and \<open>Http_Sample\<close> have concrete functions that satisfy them,
  and a small store built by the model's own operations, at which the properties are instantiated.

  \<^bold>\<open>What is shown\<close>

  \<^item> \<open>Data_Laws\<close>, \<open>Data_Changes\<close>, \<open>Connection_Laws\<close>: every function keeps the constraints; what it returns and changes,
    in terms of the listing \<open>entry db b x\<close>, on every branch.  \<open>Catalogue\<close>, \<open>Catalogue_Properties\<close>: they refine an
    abstract catalogue of maps.
  \<^item> \<open>Filesystem_Laws\<close>: the layout is kept; each operation's effect on \<open>staged\<close> (parts) and \<open>stored\<close> (objects).
  \<^item> \<open>Store_Laws\<close>, \<open>Store_Behaviour\<close>, \<open>Store_Properties\<close>, \<open>Bucket_Properties\<close>: the invariant \<open>store_inv\<close> (the files are
    exactly the catalogued objects, with contents of their digests, read-only) in every reachable state; every
    operation on every branch; deduplication, pruning, accounting.  \<open>Store_Spec\<close> specifies the store without its tables
    and files: \<open>spec\<close> answers every request on a \<open>shelf\<close> of maps; \<open>Store_Refinement\<close> and \<open>Refinement_Properties\<close> show that
    the store, serving any sequence of requests, gives exactly these answers (the locale \<open>refinement\<close>), and so do
    the clients of the binary protocol (\<open>Wire\<close>) and of HTTP (\<open>Http_Wire\<close>, \<open>Http_Properties\<close>), which therefore cannot be
    told apart but by how they show exceptions.  \<open>Linear\<close>, \<open>Linear_Properties\<close>: requests that run at the same time, part
    ids kept apart, are answered like the same requests one after the other; a download, whose halves others come
    between, like at the moment of its first half, or it finds no file.
  \<^item> \<open>Recovery_Properties\<close>: under interleaving and crashes the database and the disk stay consistent, and as long as part
    ids are kept apart no content is lost, settled objects are readable and sent whole (\<open>Sizes\<close>: the recorded size is
    the length of the content), and cut-off commits can be completed.  \<open>Part_Reuse\<close>: what is lost when part ids are not
    kept apart, which the server does not prevent.
    \<open>Backup_Properties\<close>: what an archive taken beside the server restores to; \<open>Backup_Roundtrip\<close>: restoring undoes
    archiving when the server is stopped.  In both, the programs that are run are an argument with a law.
  \<^item> \<open>Inodes\<close>: the disk of \<open>Filesystem\<close> is what one sees of names and files by name (each operation simulates its
    counterpart, and \<open>blob_store\<close> is interpreted a second time).  \<open>Descriptors\<close>: a download is not affected by what happens
    to the name of its object, and a stream that was open on the file can only make it longer; a stream that outlives its
    part spoils the object.  \<open>Disk_Full\<close>: an upload onto a full disk is
    the upload of what fits.
  \<^item> \<open>Check_Laws\<close>, \<open>Check_Properties\<close>: the check ends, does not throw, is exact and uses bounded memory.
    \<open>Check_Beside\<close>, \<open>Check_Beside_Properties\<close>: beside every request but \<open>prune\<close> it is safe; \<open>Check_Race\<close>: the run in which a
    \<open>prune\<close> beside it makes it throw, and that nothing else can.
    \<open>Check_Command_Properties\<close>: what the command prints, and that it ends.
  \<^item> \<open>Interface_Laws\<close>: over the real classes, wrapped or not, the store of \<open>Interfaces\<close> is \<open>Object_Store\<close>, and without
    a connection every operation only fails; the locale \<open>connected_store\<close> has what holds over every implementation.
    \<open>Unit_Tests\<close>: the tests of the repository on the database, the filesystem and the store, carried out on the model.
  \<^item> \<open>Server_Laws\<close>, \<open>Sync_Laws\<close>, \<open>Server_Properties\<close>, \<open>Sync_Properties\<close>: requests reach their operation, round trips of exceptions,
    structs and downloads, resumed uploads, the loop of the HTTP upload, requests keep the invariant.
  \<^item> \<open>Listen\<close>: the servers run on exactly the endpoints that can be listened on, the others are logged.
  \<^item> \<open>Cli_Properties\<close>, \<open>Start_Properties\<close>: tables, commands, the order of archiving, restoring and starting, stopping.

  \<^bold>\<open>Loops and bounds\<close>

  The only loop of a request that may not end is the one that reads an HTTP body: \<open>upload_loop\<close> is a partial
  function into \<open>option\<close>, and both its end for complete bodies and its spinning are shown.  Coroutines that loop
  (the check, the progress printer, the signal handler) are step relations.  The check decreases the
  measure \<open>work_left\<close> (three steps per batch, one per object, one more); every other loop is structural.  No fuel is used.
  Arithmetic that can wrap is on words: sizes, counters, and the 32-bit index of the download into a buffer.

  \<^bold>\<open>Not modelled, and why\<close>

  Sockets, TLS, timers, thread pools, the coroutine library, logging and the option parser are other repositories'
  code, called but not defined here; so are the transport and the request loop of zipline and of the http library,
  and the listening of their servers.  Where the program asks them for something and relies on the answer, they
  are arguments with a law.  PostgreSQL is its tables, constraints and
  the functions of the schema; isolation beyond one function per transaction is the check's open transaction, whose
  portal delivers the objects of the database it began with, and whose total is of the database before that.
  Of the tests only what they say is here (\<open>Unit_Tests\<close>): gtest, gmock and the fixtures that set up a database and a
  temporary directory are not.
  Hash collisions are not excluded: properties speak of content \<^emph>\<open>of the recorded digest\<close>.
\<close>

end
